theory Spec2Isabelle
  imports Main "HOL-Library.Multiset" "HOL-Library.Char_ord" "HOL-Library.List_Lexorder"
begin

section \<open>The asset cache: \<^verbatim>\<open>utils/fileManager\<close>\<close>

text \<open>
  The two asset directories are modelled by their listings: the entries of a directory in
  the order \<^verbatim>\<open>readDirectoryAsync\<close> returns them, each with the size
  \<^verbatim>\<open>getInfoAsync\<close> reports for it. Sizes are JavaScript numbers that the
  sweep subtracts from each other, so they are integers here (the running size may become
  negative). What the platform does and the source does not decide is a parameter: the
  document directory, the size reported for a directory, which calls throw, and the two
  choices ECMAScript leaves to the engine (\<open>approx20\<close> in \<^verbatim>\<open>parseInt\<close>,
  \<open>engine_order\<close> in \<^verbatim>\<open>Array.prototype.sort\<close>).
\<close>

type_synonym path = string

record fsys =
  video_files :: "(string \<times> int) list"
  thumb_files :: "(string \<times> int) list"

record platform =
  documentDirectory :: string
  du :: "(string \<times> int) list \<Rightarrow> int"
  stat_fails :: "path set"
  list_fails :: "path set"
  delete_fails :: "path set"
  approx20 :: bool
  engine_order :: "int option list \<Rightarrow> nat list"

datatype io_error = IOError

datatype log_entry = CacheCleanupFailed | FailedToDeleteFile path

record file_info =
  fi_name :: string
  fi_path :: path
  fi_size :: int
  fi_time :: "int option"

definition VIDEO_DIR :: "platform \<Rightarrow> path" where
  "VIDEO_DIR p = documentDirectory p @ ''videos/''"

definition THUMBNAIL_DIR :: "platform \<Rightarrow> path" where
  "THUMBNAIL_DIR p = documentDirectory p @ ''thumbnails/''"

definition MAX_CACHE_SIZE :: int where
  "MAX_CACHE_SIZE = 500 * 1024 * 1024"

subsection \<open>\<^verbatim>\<open>parseInt\<close>\<close>

text \<open>
  JavaScript's \<^verbatim>\<open>parseInt(name)\<close>: leading white space is skipped, then an
  optional sign, then the radix is 16 after a \<^verbatim>\<open>0x\<close> prefix and 10 otherwise,
  and the longest prefix of digits is read. With no digit the result is NaN, which is
  \<open>None\<close> here. The result is a Number: the integer read is rounded to the nearest
  double, ties to even, so it is exact below \<open>2^53\<close>; every finite double is below
  \<open>2^1024\<close>, and \<open>2^1024\<close> itself stands for \<^verbatim>\<open>Infinity\<close> (its negation
  for \<^verbatim>\<open>-Infinity\<close>), which keeps the order of the values and the sign of
  their differences. In radix 10 an engine may replace every significant digit after the
  20th by 0; \<open>approx\<close> says whether it does.
\<close>

definition is_js_space :: "char \<Rightarrow> bool" where
  "is_js_space c = (c \<in> set [CHR '' '', CHR 0x09, CHR 0x0A, CHR 0x0B, CHR 0x0C, CHR 0x0D])"

definition digit_of :: "int \<Rightarrow> char \<Rightarrow> int option" where
  "digit_of radix c =
     (let n = (of_char c :: int);
          v = (if 48 \<le> n \<and> n \<le> 57 then Some (n - 48)
               else if 97 \<le> n \<and> n \<le> 122 then Some (n - 87)
               else if 65 \<le> n \<and> n \<le> 90 then Some (n - 55)
               else None)
      in case v of None \<Rightarrow> None | Some d \<Rightarrow> if d < radix then Some d else None)"

fun digits_value :: "int \<Rightarrow> int \<Rightarrow> string \<Rightarrow> int" where
  "digits_value radix acc [] = acc"
| "digits_value radix acc (c # cs) =
     (case digit_of radix c of
        None \<Rightarrow> acc
      | Some d \<Rightarrow> digits_value radix (acc * radix + d) cs)"

definition zero_beyond_20 :: "string \<Rightarrow> string" where
  \<comment> \<open>a string of digits with every significant digit after the 20th replaced by 0\<close>
  "zero_beyond_20 ds =
     takeWhile (\<lambda>c. c = CHR ''0'') ds @
     take 20 (dropWhile (\<lambda>c. c = CHR ''0'') ds) @
     map (\<lambda>c. CHR ''0'') (drop 20 (dropWhile (\<lambda>c. c = CHR ''0'') ds))"

function bit_length :: "int \<Rightarrow> nat" where
  "bit_length n = (if n \<le> 0 then 0 else Suc (bit_length (n div 2)))"
  by pat_completeness auto
termination
  by (relation "measure nat") auto

declare bit_length.simps [simp del]

definition to_double :: "int \<Rightarrow> int" where
  \<comment> \<open>the Number for a non-negative integer: 53 significant bits, round to nearest, ties to even\<close>
  "to_double n =
     (if n < 2 ^ 53 then n
      else
        let e = bit_length n - 53;
            q = n div 2 ^ e;
            r = n mod 2 ^ e;
            q' = (if 2 * r > 2 ^ e \<or> (2 * r = 2 ^ e \<and> odd q) then q + 1 else q)
        in min (q' * 2 ^ e) (2 ^ 1024))"

definition strip_sign :: "string \<Rightarrow> bool \<times> string" where
  "strip_sign t =
     (case t of
        [] \<Rightarrow> (False, [])
      | c # cs \<Rightarrow>
          if c = CHR ''-'' then (True, cs)
          else if c = CHR ''+'' then (False, cs)
          else (False, t))"

definition strip_radix :: "string \<Rightarrow> int \<times> string" where
  "strip_radix u =
     (case u of
        a # b # cs \<Rightarrow>
          if a = CHR ''0'' \<and> (b = CHR ''x'' \<or> b = CHR ''X'') then (16, cs) else (10, u)
      | _ \<Rightarrow> (10, u))"

definition parseInt :: "bool \<Rightarrow> string \<Rightarrow> int option" where
  "parseInt approx s =
     (let (neg, u) = strip_sign (dropWhile is_js_space s);
          (radix, v) = strip_radix u;
          ds = takeWhile (\<lambda>c. digit_of radix c \<noteq> None) v
      in if ds = [] then None
         else Some ((if neg then - 1 else 1) *
                    to_double (digits_value radix 0
                                 (if approx \<and> radix = 10 then zero_beyond_20 ds else ds))))"

subsection \<open>File system primitives\<close>

definition getDirSize :: "platform \<Rightarrow> path \<Rightarrow> (string \<times> int) list \<Rightarrow> int" where
  \<comment> \<open>\<^verbatim>\<open>getFileStats(dir).size\<close>: a failing \<^verbatim>\<open>getInfoAsync\<close> is caught and gives 0\<close>
  "getDirSize p dir entries = (if dir \<in> stat_fails p then 0 else du p entries)"

definition readDirectoryAsync ::
  "platform \<Rightarrow> path \<Rightarrow> (string \<times> int) list \<Rightarrow> io_error + string list" where
  "readDirectoryAsync p dir entries =
     (if dir \<in> list_fails p then Inl IOError else Inr (map fst entries))"

definition getFileStats :: "platform \<Rightarrow> path \<Rightarrow> (string \<times> int) list \<Rightarrow> string \<Rightarrow> file_info" where
  \<comment> \<open>the record built for one listed name; a failing stat is caught and gives size 0\<close>
  "getFileStats p dir entries nm =
     \<lparr> fi_name = nm,
       fi_path = dir @ nm,
       fi_size = (if dir @ nm \<in> stat_fails p then 0
                  else case map_of entries nm of None \<Rightarrow> 0 | Some s \<Rightarrow> s),
       fi_time = parseInt (approx20 p) nm \<rparr>"

definition deleteAsync :: "platform \<Rightarrow> path \<Rightarrow> fsys \<Rightarrow> io_error + fsys" where
  \<comment> \<open>\<^verbatim>\<open>deleteAsync(path, { idempotent: true })\<close>: an absent file is no error\<close>
  "deleteAsync p pth fs =
     (if pth \<in> delete_fails p then Inl IOError
      else Inr \<lparr> video_files = filter (\<lambda>e. VIDEO_DIR p @ fst e \<noteq> pth) (video_files fs),
                 thumb_files = filter (\<lambda>e. THUMBNAIL_DIR p @ fst e \<noteq> pth) (thumb_files fs) \<rparr>)"

subsection \<open>Sorting by creation time\<close>

text \<open>
  \<^verbatim>\<open>fileStats.sort((a, b) => a.time - b.time)\<close>. A comparator result of NaN
  counts as 0. Where the comparator is consistent (no time is NaN, or the times that are
  numbers are all equal) the result is the stable sort: an element stays in front of a
  later one unless the later one is smaller. Where it is not, ECMAScript leaves the order
  to the engine: the result is the permutation \<open>engine_order\<close> names for this list
  of times (the list of positions the elements are taken from; an answer that is no
  permutation of the positions leaves the list as it is).
\<close>

definition time_le :: "file_info \<Rightarrow> file_info \<Rightarrow> bool" where
  "time_le a b =
     (case (fi_time a, fi_time b) of
        (Some x, Some y) \<Rightarrow> x \<le> y
      | _ \<Rightarrow> True)"

fun insort_time :: "file_info \<Rightarrow> file_info list \<Rightarrow> file_info list" where
  "insort_time a [] = [a]"
| "insort_time a (b # bs) = (if time_le a b then a # b # bs else b # insort_time a bs)"

definition consistent_times :: "int option list \<Rightarrow> bool" where
  "consistent_times ts =
     (list_all (\<lambda>t. t \<noteq> None) ts \<or>
      list_all (\<lambda>a. list_all (\<lambda>b. a = None \<or> b = None \<or> a = b) ts) ts)"

definition permute :: "nat list \<Rightarrow> 'a list \<Rightarrow> 'a list" where
  "permute ixs xs = (if sort ixs = [0..<length xs] then map (nth xs) ixs else xs)"

definition sort_by_time :: "platform \<Rightarrow> file_info list \<Rightarrow> file_info list" where
  "sort_by_time p fs =
     (if consistent_times (map fi_time fs) then foldr insort_time fs []
      else permute (engine_order p (map fi_time fs)) fs)"

subsection \<open>\<^verbatim>\<open>FileManager.cleanupCache\<close>\<close>

type_synonym fstate = "fsys \<times> log_entry list"

fun sweep :: "platform \<Rightarrow> int \<Rightarrow> file_info list \<Rightarrow> fstate \<Rightarrow> fstate" where
  "sweep p currentSize [] st = st"
| "sweep p currentSize (f # rest) st =
     (if currentSize \<le> MAX_CACHE_SIZE then st
      else case deleteAsync p (fi_path f) (fst st) of
             Inl e \<Rightarrow> sweep p currentSize rest (fst st, snd st @ [FailedToDeleteFile (fi_path f)])
           | Inr fs' \<Rightarrow> sweep p (currentSize - fi_size f) rest (fs', snd st))"

definition totalSize :: "platform \<Rightarrow> fsys \<Rightarrow> int" where
  "totalSize p fs =
     getDirSize p (VIDEO_DIR p) (video_files fs) + getDirSize p (THUMBNAIL_DIR p) (thumb_files fs)"

definition fileStats :: "platform \<Rightarrow> fsys \<Rightarrow> string list \<Rightarrow> string list \<Rightarrow> file_info list" where
  "fileStats p fs videos thumbnails =
     map (getFileStats p (VIDEO_DIR p) (video_files fs)) videos @
     map (getFileStats p (THUMBNAIL_DIR p) (thumb_files fs)) thumbnails"

definition cleanupCache_try :: "platform \<Rightarrow> fstate \<Rightarrow> io_error + fstate" where
  \<comment> \<open>the body of the \<^verbatim>\<open>try\<close> block\<close>
  "cleanupCache_try p st =
     (if totalSize p (fst st) > MAX_CACHE_SIZE then
        (case readDirectoryAsync p (VIDEO_DIR p) (video_files (fst st)) of
           Inl e \<Rightarrow> Inl e
         | Inr videos \<Rightarrow>
             (case readDirectoryAsync p (THUMBNAIL_DIR p) (thumb_files (fst st)) of
                Inl e \<Rightarrow> Inl e
              | Inr thumbnails \<Rightarrow>
                  Inr (sweep p (totalSize p (fst st))
                         (sort_by_time p (fileStats p (fst st) videos thumbnails)) st)))
      else Inr st)"

definition cleanupCache :: "platform \<Rightarrow> fstate \<Rightarrow> io_error + fstate" where
  \<comment> \<open>the \<^verbatim>\<open>catch\<close> logs and does not rethrow\<close>
  "cleanupCache p st =
     (case cleanupCache_try p st of
        Inl e \<Rightarrow> Inr (fst st, snd st @ [CacheCleanupFailed])
      | Inr st' \<Rightarrow> Inr st')"

definition sortedFiles :: "platform \<Rightarrow> fsys \<Rightarrow> file_info list" where
  "sortedFiles p fs =
     sort_by_time p (fileStats p fs (map fst (video_files fs)) (map fst (thumb_files fs)))"

subsection \<open>Vocabulary for the sweep's result\<close>

text \<open>
  The paths of all files of both directories; the file system without a list of paths;
  and, of the files the sweep visits, those whose deletion goes through and those whose
  deletion throws.
\<close>

definition all_paths :: "platform \<Rightarrow> fsys \<Rightarrow> path list" where
  "all_paths p fs =
     map (\<lambda>e. VIDEO_DIR p @ fst e) (video_files fs) @
     map (\<lambda>e. THUMBNAIL_DIR p @ fst e) (thumb_files fs)"

definition remove_paths :: "platform \<Rightarrow> path list \<Rightarrow> fsys \<Rightarrow> fsys" where
  "remove_paths p ps fs =
     \<lparr> video_files = filter (\<lambda>e. VIDEO_DIR p @ fst e \<notin> set ps) (video_files fs),
       thumb_files = filter (\<lambda>e. THUMBNAIL_DIR p @ fst e \<notin> set ps) (thumb_files fs) \<rparr>"

definition deletable :: "platform \<Rightarrow> file_info list \<Rightarrow> file_info list" where
  "deletable p fs = filter (\<lambda>f. fi_path f \<notin> delete_fails p) fs"

definition stuck :: "platform \<Rightarrow> file_info list \<Rightarrow> file_info list" where
  "stuck p fs = filter (\<lambda>f. fi_path f \<in> delete_fails p) fs"

subsection \<open>The legacy hook \<^verbatim>\<open>useVideos\<close>: \<^verbatim>\<open>addVideo\<close>\<close>

text \<open>
  The hook keeps the video list under one AsyncStorage key. \<^verbatim>\<open>fetchVideos\<close> and
  \<^verbatim>\<open>saveVideos\<close> throw when the storage call (or the JSON parse) throws; whether
  they do is a parameter. The mutation reads the list, runs the cache sweep, then saves.
\<close>

datatype hook_error = AsyncStorageError | CleanupError io_error

definition fetchVideos :: "bool \<Rightarrow> 'v list option \<Rightarrow> hook_error + 'v list" where
  "fetchVideos getItem_fails item =
     (if getItem_fails then Inl AsyncStorageError
      else Inr (case item of None \<Rightarrow> [] | Some vs \<Rightarrow> vs))"

definition saveVideos :: "bool \<Rightarrow> 'v list \<Rightarrow> hook_error + 'v list" where
  "saveVideos setItem_fails vs = (if setItem_fails then Inl AsyncStorageError else Inr vs)"

definition useVideos_addVideo ::
  "platform \<Rightarrow> bool \<Rightarrow> bool \<Rightarrow> 'v \<Rightarrow> 'v list option \<times> fstate \<Rightarrow>
     (hook_error + 'v list) \<times> 'v list option \<times> fstate" where
  "useVideos_addVideo p getItem_fails setItem_fails newVideo w =
     (case fetchVideos getItem_fails (fst w) of
        Inl e \<Rightarrow> (Inl e, w)
      | Inr currentVideos \<Rightarrow>
          (case cleanupCache p (snd w) of
             Inl e \<Rightarrow> (Inl (CleanupError e), w)
           | Inr st' \<Rightarrow>
               (case saveVideos setItem_fails (newVideo # currentVideos) of
                  Inl e \<Rightarrow> (Inl e, fst w, st')
                | Inr vs \<Rightarrow> (Inr vs, Some vs, st'))))"

subsection \<open>A small over-budget cache\<close>

text \<open>
  Three videos of 100MB, 300MB and 200MB, listed in that order, named after the instants
  3, 1 and 2; the oldest one cannot be deleted.
\<close>

definition platform_ex :: platform where
  "platform_ex =
     \<lparr> documentDirectory = ''/doc/'',
       du = sum_list \<circ> map snd,
       stat_fails = {},
       list_fails = {},
       delete_fails = {''/doc/videos/1.mp4''},
       approx20 = False,
       engine_order = (\<lambda>ts. [0..<length ts]) \<rparr>"

definition fsys_ex :: fsys where
  "fsys_ex =
     \<lparr> video_files = [(''3.mp4'', 104857600), (''1.mp4'', 314572800), (''2.mp4'', 209715200)],
       thumb_files = [] \<rparr>"

section \<open>The world the services run in\<close>

text \<open>
  Everything outside the application's own code is state of one record: the tables of the
  SQLite database behind the single connection, the files and directories of the document
  and cache directories, the clock, the values \<^verbatim>\<open>generateUUID\<close> will return, and
  the engine's choice in \<^verbatim>\<open>parseInt\<close> (\<open>digits20\<close>). Every call that
  leaves the process (a statement, a file operation) consumes one entry of \<open>faults\<close>:
  \<open>Some msg\<close> makes the call throw an error with that message without any effect, \<open>None\<close>
  lets it run; when the list is used up every call runs. Each call is recorded in
  \<open>trace\<close> with its outcome, and each \<^verbatim>\<open>setTimeout\<close> wait with its length.
\<close>

datatype js_error = Error string

record VideoEntry =
  v_id :: string
  v_uri :: string
  v_thumbnail :: string
  v_duration :: int
  v_createdAt :: string
  v_title :: string
  v_description :: "string option"
  v_startTime :: int
  v_endTime :: int
  v_categoryId :: "string option"

record CategoryDB =
  c_id :: string
  c_key :: string
  c_name :: string
  c_icon :: string
  c_color :: string

record CoreMemory =
  m_videoId :: string
  m_note :: string
  m_color :: string
  m_createdAt :: string
  m_typeId :: string

record CustomMemoryType =
  t_id :: string
  t_name :: string
  t_icon :: string
  t_color :: string

text \<open>A table that does not exist is \<open>None\<close>; the column layout of a table is fixed.\<close>

record database =
  categories :: "CategoryDB list option"
  videos :: "VideoEntry list option"
  core_memories :: "CoreMemory list option"
  custom_memory_types :: "CustomMemoryType list option"
  db_version :: "int list option"

text \<open>
  The content of a file: opaque bytes, or a JSON object with the fields the metadata
  files use (\<^verbatim>\<open>JSON.parse\<close> of \<^verbatim>\<open>JSON.stringify\<close> gives the object back; a
  field that is absent or \<^verbatim>\<open>null\<close> is \<open>None\<close>).
\<close>

record json_obj =
  j_id :: "string option"
  j_uri :: "string option"
  j_startTime :: "int option"
  j_endTime :: "int option"
  j_duration :: "int option"

datatype content = Blob string | Json json_obj

text \<open>The calls that leave the process, as the trace records them.\<close>

datatype call =
    Sql string
  | GetInfo path
  | MakeDirectory path
  | WriteString path
  | ReadString path
  | Copy path path
  | Delete path
  | ReadDirectory path
  | GetThumbnail path

datatype event = Call call bool | Wait int

text \<open>The state of the zustand store \<^verbatim>\<open>useVideoStore\<close>.\<close>

record 'v store_state =
  st_videos :: "'v list"
  st_isLoading :: bool
  st_error :: "string option"

record world =
  db :: database
  txn :: "database option"
  foreign_keys :: bool
  isInitialized :: bool
  initializationPromise :: bool
  files :: "(path \<times> content) list"
  dirs :: "path set"
  docDir :: path
  cacheDir :: path
  store :: "VideoEntry store_state"
  metadataCache :: "string \<rightharpoonup> json_obj"
  clock :: int
  uuid_source :: "nat \<Rightarrow> string"
  uuid_count :: nat
  digits20 :: bool
  faults :: "string option list"
  trace :: "event list"
  console :: "string list"

type_synonym 'a io = "world \<Rightarrow> (js_error + 'a) \<times> world"

definition io_return :: "'a \<Rightarrow> 'a io" where
  "io_return x w = (Inr x, w)"

definition io_throw :: "js_error \<Rightarrow> 'a io" where
  "io_throw e w = (Inl e, w)"

definition io_bind :: "'a io \<Rightarrow> ('a \<Rightarrow> 'b io) \<Rightarrow> 'b io" where
  "io_bind m f w = (case m w of (Inl e, w') \<Rightarrow> (Inl e, w') | (Inr x, w') \<Rightarrow> f x w')"

definition io_then :: "'a io \<Rightarrow> 'b io \<Rightarrow> 'b io" where
  "io_then m n = io_bind m (\<lambda>_. n)"

definition io_catch :: "'a io \<Rightarrow> (js_error \<Rightarrow> 'a io) \<Rightarrow> 'a io" where
  \<comment> \<open>\<^verbatim>\<open>try { m } catch (e) { h }\<close>\<close>
  "io_catch m h w = (case m w of (Inl e, w') \<Rightarrow> h e w' | (Inr x, w') \<Rightarrow> (Inr x, w'))"

definition io_modify :: "(world \<Rightarrow> world) \<Rightarrow> unit io" where
  "io_modify f w = (Inr (), f w)"

definition log :: "string \<Rightarrow> unit io" where
  \<comment> \<open>\<^verbatim>\<open>console.log\<close>, \<^verbatim>\<open>console.error\<close> and the logger\<close>
  "log msg = io_modify (\<lambda>w. w\<lparr>console := console w @ [msg]\<rparr>)"

definition io_call :: "call \<Rightarrow> (world \<Rightarrow> (string + 'a) \<times> world) \<Rightarrow> 'a io" where
  "io_call label run w =
     (case faults w of
        Some msg # rest \<Rightarrow>
          (Inl (Error msg), w\<lparr>faults := rest, trace := trace w @ [Call label False]\<rparr>)
      | _ \<Rightarrow>
          (case run (w\<lparr>faults := tl (faults w)\<rparr>) of
             (Inl msg, w') \<Rightarrow> (Inl (Error msg), w'\<lparr>trace := trace w' @ [Call label False]\<rparr>)
           | (Inr x, w') \<Rightarrow> (Inr x, w'\<lparr>trace := trace w' @ [Call label True]\<rparr>)))"

definition wait :: "int \<Rightarrow> unit io" where
  \<comment> \<open>\<^verbatim>\<open>new Promise(resolve => setTimeout(resolve, ms))\<close>\<close>
  "wait ms = io_modify (\<lambda>w. w\<lparr>clock := clock w + ms, trace := trace w @ [Wait ms]\<rparr>)"

definition generateUUID :: "string io" where
  "generateUUID w = (Inr (uuid_source w (uuid_count w)), w\<lparr>uuid_count := Suc (uuid_count w)\<rparr>)"

fun starts_with :: "string \<Rightarrow> string \<Rightarrow> bool" where
  "starts_with s [] = True"
| "starts_with [] (p # ps) = False"
| "starts_with (c # cs) (p # ps) = (c = p \<and> starts_with cs ps)"

fun str_includes :: "string \<Rightarrow> string \<Rightarrow> bool" where
  \<comment> \<open>\<^verbatim>\<open>s.includes(pat)\<close>\<close>
  "str_includes [] pat = (pat = [])"
| "str_includes (c # cs) pat = (starts_with (c # cs) pat \<or> str_includes cs pat)"

section \<open>The repository: \<^verbatim>\<open>services/database.ts\<close>\<close>

subsection \<open>What the SQL statements do\<close>

text \<open>
  Each statement of the source is a function on the tables that gives the new tables or
  the message of the error SQLite raises. The schema is the one of
  \<^verbatim>\<open>createInitialSchema\<close>: every \<^verbatim>\<open>id\<close> (and \<^verbatim>\<open>core_memories.videoId\<close>)
  is a primary key; \<^verbatim>\<open>videos.categoryId\<close> references \<^verbatim>\<open>categories(id)\<close>
  \<^verbatim>\<open>ON DELETE SET NULL\<close>; \<^verbatim>\<open>core_memories.videoId\<close> references
  \<^verbatim>\<open>videos(id)\<close> \<^verbatim>\<open>ON DELETE CASCADE\<close>. Foreign keys are enforced only
  while \<^verbatim>\<open>PRAGMA foreign_keys\<close> is on (the argument \<open>fk\<close>); an update of a
  referenced key has no action declared and is refused. A statement that fails changes
  nothing.
\<close>

definition no_table :: "string \<Rightarrow> string" where
  "no_table t = ''no such table: '' @ t"

definition unique_failed :: "string \<Rightarrow> string" where
  "unique_failed col = ''UNIQUE constraint failed: '' @ col"

definition fk_failed :: string where
  "fk_failed = ''FOREIGN KEY constraint failed''"

definition category_ref_ok :: "database \<Rightarrow> string option \<Rightarrow> bool" where
  "category_ref_ok d r =
     (case r of
        None \<Rightarrow> True
      | Some cid \<Rightarrow> (case categories d of None \<Rightarrow> False | Some cs \<Rightarrow> cid \<in> set (map c_id cs)))"

definition video_ref_ok :: "database \<Rightarrow> string \<Rightarrow> bool" where
  "video_ref_ok d vid = (case videos d of None \<Rightarrow> False | Some vs \<Rightarrow> vid \<in> set (map v_id vs))"

definition sql_select_video_id :: "string \<Rightarrow> database \<Rightarrow> string + string list" where
  \<comment> \<open>\<^verbatim>\<open>SELECT id FROM videos WHERE id = ?\<close>\<close>
  "sql_select_video_id vid d =
     (case videos d of
        None \<Rightarrow> Inl (no_table ''videos'')
      | Some vs \<Rightarrow> Inr (filter (\<lambda>i. i = vid) (map v_id vs)))"

definition sql_insert_video :: "VideoEntry \<Rightarrow> bool \<Rightarrow> database \<Rightarrow> string + database" where
  \<comment> \<open>\<^verbatim>\<open>INSERT INTO videos (...) VALUES (...)\<close>\<close>
  "sql_insert_video row fk d =
     (case videos d of
        None \<Rightarrow> Inl (no_table ''videos'')
      | Some vs \<Rightarrow>
          if v_id row \<in> set (map v_id vs) then Inl (unique_failed ''videos.id'')
          else if fk \<and> \<not> category_ref_ok d (v_categoryId row) then Inl fk_failed
          else Inr (d\<lparr>videos := Some (vs @ [row])\<rparr>))"

definition sql_delete_video :: "string \<Rightarrow> bool \<Rightarrow> database \<Rightarrow> string + database" where
  \<comment> \<open>\<^verbatim>\<open>DELETE FROM videos WHERE id = ?\<close>, with the cascade to \<^verbatim>\<open>core_memories\<close>\<close>
  "sql_delete_video vid fk d =
     (case videos d of
        None \<Rightarrow> Inl (no_table ''videos'')
      | Some vs \<Rightarrow>
          Inr (d\<lparr>videos := Some (filter (\<lambda>v. v_id v \<noteq> vid) vs),
                 core_memories :=
                   (if fk \<and> vid \<in> set (map v_id vs)
                    then map_option (filter (\<lambda>m. m_videoId m \<noteq> vid)) (core_memories d)
                    else core_memories d)\<rparr>))"

definition reassign :: "string \<Rightarrow> VideoEntry \<Rightarrow> VideoEntry" where
  "reassign cid v = (if v_categoryId v = Some cid then v\<lparr>v_categoryId := Some ''all''\<rparr> else v)"

definition sql_reassign_videos :: "string \<Rightarrow> bool \<Rightarrow> database \<Rightarrow> string + database" where
  \<comment> \<open>\<^verbatim>\<open>UPDATE videos SET categoryId = "all" WHERE categoryId = ?\<close>\<close>
  "sql_reassign_videos cid fk d =
     (case videos d of
        None \<Rightarrow> Inl (no_table ''videos'')
      | Some vs \<Rightarrow>
          if fk \<and> Some cid \<in> set (map v_categoryId vs) \<and> \<not> category_ref_ok d (Some ''all'')
          then Inl fk_failed
          else Inr (d\<lparr>videos := Some (map (reassign cid) vs)\<rparr>))"

definition set_null :: "string \<Rightarrow> VideoEntry \<Rightarrow> VideoEntry" where
  "set_null cid v = (if v_categoryId v = Some cid then v\<lparr>v_categoryId := None\<rparr> else v)"

definition sql_delete_category :: "string \<Rightarrow> bool \<Rightarrow> database \<Rightarrow> string + database" where
  \<comment> \<open>\<^verbatim>\<open>DELETE FROM categories WHERE id = ?\<close>, with \<^verbatim>\<open>ON DELETE SET NULL\<close>\<close>
  "sql_delete_category cid fk d =
     (case categories d of
        None \<Rightarrow> Inl (no_table ''categories'')
      | Some cs \<Rightarrow>
          Inr (d\<lparr>categories := Some (filter (\<lambda>c. c_id c \<noteq> cid) cs),
                 videos :=
                   (if fk \<and> cid \<in> set (map c_id cs)
                    then map_option (map (set_null cid)) (videos d)
                    else videos d)\<rparr>))"

definition sql_insert_category :: "CategoryDB \<Rightarrow> bool \<Rightarrow> database \<Rightarrow> string + database" where
  \<comment> \<open>\<^verbatim>\<open>INSERT INTO categories (id, key, name, icon, color) VALUES (?, ?, ?, ?, ?)\<close>\<close>
  "sql_insert_category row fk d =
     (case categories d of
        None \<Rightarrow> Inl (no_table ''categories'')
      | Some cs \<Rightarrow>
          if c_id row \<in> set (map c_id cs) then Inl (unique_failed ''categories.id'')
          else Inr (d\<lparr>categories := Some (cs @ [row])\<rparr>))"

text \<open>
  A partial update \<^verbatim>\<open>Partial<T>\<close>: a field the caller did not supply is \<open>None\<close>.
  The statement built from it sets exactly the supplied fields of the rows with the given
  key.
\<close>

definition upd :: "'a option \<Rightarrow> 'a \<Rightarrow> 'a" where
  "upd u old = (case u of None \<Rightarrow> old | Some new \<Rightarrow> new)"

record VideoUpdates =
  vu_id :: "string option"
  vu_uri :: "string option"
  vu_thumbnail :: "string option"
  vu_duration :: "int option"
  vu_createdAt :: "string option"
  vu_title :: "string option"
  vu_description :: "string option option"
  vu_startTime :: "int option"
  vu_endTime :: "int option"
  vu_categoryId :: "string option option"

definition video_no_fields :: "VideoUpdates \<Rightarrow> bool" where
  "video_no_fields u =
     (vu_id u = None \<and> vu_uri u = None \<and> vu_thumbnail u = None \<and> vu_duration u = None \<and>
      vu_createdAt u = None \<and> vu_title u = None \<and> vu_description u = None \<and>
      vu_startTime u = None \<and> vu_endTime u = None \<and> vu_categoryId u = None)"

definition apply_video_updates :: "VideoUpdates \<Rightarrow> VideoEntry \<Rightarrow> VideoEntry" where
  "apply_video_updates u v =
     \<lparr> v_id = upd (vu_id u) (v_id v),
       v_uri = upd (vu_uri u) (v_uri v),
       v_thumbnail = upd (vu_thumbnail u) (v_thumbnail v),
       v_duration = upd (vu_duration u) (v_duration v),
       v_createdAt = upd (vu_createdAt u) (v_createdAt v),
       v_title = upd (vu_title u) (v_title v),
       v_description = upd (vu_description u) (v_description v),
       v_startTime = upd (vu_startTime u) (v_startTime v),
       v_endTime = upd (vu_endTime u) (v_endTime v),
       v_categoryId = upd (vu_categoryId u) (v_categoryId v) \<rparr>"

definition sql_update_video :: "string \<Rightarrow> VideoUpdates \<Rightarrow> bool \<Rightarrow> database \<Rightarrow> string + database" where
  \<comment> \<open>\<^verbatim>\<open>UPDATE videos SET ... WHERE id = ?\<close>\<close>
  "sql_update_video vid u fk d =
     (case videos d of
        None \<Rightarrow> Inl (no_table ''videos'')
      | Some vs \<Rightarrow>
          let vs' = map (\<lambda>v. if v_id v = vid then apply_video_updates u v else v) vs
          in if \<not> distinct (map v_id vs') then Inl (unique_failed ''videos.id'')
             else if fk \<and> vid \<in> set (map v_id vs) \<and>
                     (case vu_categoryId u of None \<Rightarrow> False | Some r \<Rightarrow> \<not> category_ref_ok d r)
             then Inl fk_failed
             else if fk \<and> vid \<in> set (map v_id vs) \<and>
                     (case vu_id u of None \<Rightarrow> False | Some new \<Rightarrow> new \<noteq> vid) \<and>
                     (case core_memories d of
                        None \<Rightarrow> False
                      | Some ms \<Rightarrow> vid \<in> set (map m_videoId ms))
             then Inl fk_failed
             else Inr (d\<lparr>videos := Some vs'\<rparr>))"

record CategoryUpdates =
  cu_id :: "string option"
  cu_key :: "string option"
  cu_name :: "string option"
  cu_icon :: "string option"
  cu_color :: "string option"

definition category_no_fields :: "CategoryUpdates \<Rightarrow> bool" where
  "category_no_fields u =
     (cu_id u = None \<and> cu_key u = None \<and> cu_name u = None \<and> cu_icon u = None \<and> cu_color u = None)"

definition apply_category_updates :: "CategoryUpdates \<Rightarrow> CategoryDB \<Rightarrow> CategoryDB" where
  "apply_category_updates u c =
     \<lparr> c_id = upd (cu_id u) (c_id c),
       c_key = upd (cu_key u) (c_key c),
       c_name = upd (cu_name u) (c_name c),
       c_icon = upd (cu_icon u) (c_icon c),
       c_color = upd (cu_color u) (c_color c) \<rparr>"

definition sql_update_category :: "string \<Rightarrow> CategoryUpdates \<Rightarrow> bool \<Rightarrow> database \<Rightarrow> string + database" where
  \<comment> \<open>\<^verbatim>\<open>UPDATE categories SET ... WHERE id = ?\<close>\<close>
  "sql_update_category cid u fk d =
     (case categories d of
        None \<Rightarrow> Inl (no_table ''categories'')
      | Some cs \<Rightarrow>
          let cs' = map (\<lambda>c. if c_id c = cid then apply_category_updates u c else c) cs
          in if \<not> distinct (map c_id cs') then Inl (unique_failed ''categories.id'')
             else if fk \<and> cid \<in> set (map c_id cs) \<and>
                     (case cu_id u of None \<Rightarrow> False | Some new \<Rightarrow> new \<noteq> cid) \<and>
                     (case videos d of
                        None \<Rightarrow> False
                      | Some vs \<Rightarrow> Some cid \<in> set (map v_categoryId vs))
             then Inl fk_failed
             else Inr (d\<lparr>categories := Some cs'\<rparr>))"

record CoreMemoryUpdates =
  mu_videoId :: "string option"
  mu_note :: "string option"
  mu_color :: "string option"
  mu_createdAt :: "string option"
  mu_typeId :: "string option"

definition memory_no_fields :: "CoreMemoryUpdates \<Rightarrow> bool" where
  "memory_no_fields u =
     (mu_videoId u = None \<and> mu_note u = None \<and> mu_color u = None \<and>
      mu_createdAt u = None \<and> mu_typeId u = None)"

definition apply_memory_updates :: "CoreMemoryUpdates \<Rightarrow> CoreMemory \<Rightarrow> CoreMemory" where
  "apply_memory_updates u m =
     \<lparr> m_videoId = upd (mu_videoId u) (m_videoId m),
       m_note = upd (mu_note u) (m_note m),
       m_color = upd (mu_color u) (m_color m),
       m_createdAt = upd (mu_createdAt u) (m_createdAt m),
       m_typeId = upd (mu_typeId u) (m_typeId m) \<rparr>"

definition sql_update_core_memory ::
  "string \<Rightarrow> CoreMemoryUpdates \<Rightarrow> bool \<Rightarrow> database \<Rightarrow> string + database" where
  \<comment> \<open>\<^verbatim>\<open>UPDATE core_memories SET ... WHERE videoId = ?\<close>\<close>
  "sql_update_core_memory vid u fk d =
     (case core_memories d of
        None \<Rightarrow> Inl (no_table ''core_memories'')
      | Some ms \<Rightarrow>
          let ms' = map (\<lambda>m. if m_videoId m = vid then apply_memory_updates u m else m) ms
          in if \<not> distinct (map m_videoId ms') then Inl (unique_failed ''core_memories.videoId'')
             else if fk \<and> vid \<in> set (map m_videoId ms) \<and>
                     (case mu_videoId u of None \<Rightarrow> False | Some new \<Rightarrow> \<not> video_ref_ok d new)
             then Inl fk_failed
             else Inr (d\<lparr>core_memories := Some ms'\<rparr>))"

definition sql_upsert_core_memory :: "CoreMemory \<Rightarrow> bool \<Rightarrow> database \<Rightarrow> string + database" where
  \<comment> \<open>\<^verbatim>\<open>INSERT OR REPLACE INTO core_memories (...) VALUES (...)\<close>\<close>
  "sql_upsert_core_memory row fk d =
     (case core_memories d of
        None \<Rightarrow> Inl (no_table ''core_memories'')
      | Some ms \<Rightarrow>
          if fk \<and> \<not> video_ref_ok d (m_videoId row) then Inl fk_failed
          else Inr (d\<lparr>core_memories :=
                        Some (filter (\<lambda>m. m_videoId m \<noteq> m_videoId row) ms @ [row])\<rparr>))"

definition sql_delete_core_memory :: "string \<Rightarrow> bool \<Rightarrow> database \<Rightarrow> string + database" where
  \<comment> \<open>\<^verbatim>\<open>DELETE FROM core_memories WHERE videoId = ?\<close>\<close>
  "sql_delete_core_memory vid fk d =
     (case core_memories d of
        None \<Rightarrow> Inl (no_table ''core_memories'')
      | Some ms \<Rightarrow> Inr (d\<lparr>core_memories := Some (filter (\<lambda>m. m_videoId m \<noteq> vid) ms)\<rparr>))"

record CustomMemoryTypeUpdates =
  tu_id :: "string option"
  tu_name :: "string option"
  tu_icon :: "string option"
  tu_color :: "string option"

definition type_no_fields :: "CustomMemoryTypeUpdates \<Rightarrow> bool" where
  "type_no_fields u = (tu_id u = None \<and> tu_name u = None \<and> tu_icon u = None \<and> tu_color u = None)"

definition apply_type_updates :: "CustomMemoryTypeUpdates \<Rightarrow> CustomMemoryType \<Rightarrow> CustomMemoryType" where
  "apply_type_updates u t =
     \<lparr> t_id = upd (tu_id u) (t_id t),
       t_name = upd (tu_name u) (t_name t),
       t_icon = upd (tu_icon u) (t_icon t),
       t_color = upd (tu_color u) (t_color t) \<rparr>"

definition sql_insert_custom_type :: "CustomMemoryType \<Rightarrow> bool \<Rightarrow> database \<Rightarrow> string + database" where
  \<comment> \<open>\<^verbatim>\<open>INSERT INTO custom_memory_types (id, name, icon, color) VALUES (?, ?, ?, ?)\<close>\<close>
  "sql_insert_custom_type row fk d =
     (case custom_memory_types d of
        None \<Rightarrow> Inl (no_table ''custom_memory_types'')
      | Some ts \<Rightarrow>
          if t_id row \<in> set (map t_id ts) then Inl (unique_failed ''custom_memory_types.id'')
          else Inr (d\<lparr>custom_memory_types := Some (ts @ [row])\<rparr>))"

definition sql_update_custom_type ::
  "string \<Rightarrow> CustomMemoryTypeUpdates \<Rightarrow> bool \<Rightarrow> database \<Rightarrow> string + database" where
  \<comment> \<open>\<^verbatim>\<open>UPDATE custom_memory_types SET ... WHERE id = ?\<close>\<close>
  "sql_update_custom_type tid u fk d =
     (case custom_memory_types d of
        None \<Rightarrow> Inl (no_table ''custom_memory_types'')
      | Some ts \<Rightarrow>
          let ts' = map (\<lambda>t. if t_id t = tid then apply_type_updates u t else t) ts
          in if \<not> distinct (map t_id ts') then Inl (unique_failed ''custom_memory_types.id'')
             else Inr (d\<lparr>custom_memory_types := Some ts'\<rparr>))"

definition sql_delete_custom_type :: "string \<Rightarrow> bool \<Rightarrow> database \<Rightarrow> string + database" where
  \<comment> \<open>\<^verbatim>\<open>DELETE FROM custom_memory_types WHERE id = ?\<close>\<close>
  "sql_delete_custom_type tid fk d =
     (case custom_memory_types d of
        None \<Rightarrow> Inl (no_table ''custom_memory_types'')
      | Some ts \<Rightarrow> Inr (d\<lparr>custom_memory_types := Some (filter (\<lambda>t. t_id t \<noteq> tid) ts)\<rparr>))"

text \<open>The schema statements.\<close>

definition CURRENT_DB_VERSION :: int where
  "CURRENT_DB_VERSION = 4"

definition requiredTables :: "string list" where
  "requiredTables = [''categories'', ''videos'', ''core_memories'', ''custom_memory_types'', ''db_version'']"

definition existing_tables :: "database \<Rightarrow> string list" where
  "existing_tables d =
     (if categories d = None then [] else [''categories'']) @
     (if videos d = None then [] else [''videos'']) @
     (if core_memories d = None then [] else [''core_memories'']) @
     (if custom_memory_types d = None then [] else [''custom_memory_types'']) @
     (if db_version d = None then [] else [''db_version''])"

definition sql_select_tables :: "database \<Rightarrow> string + string list" where
  \<comment> \<open>\<^verbatim>\<open>SELECT name FROM sqlite_master WHERE type='table' AND name IN (...)\<close>\<close>
  "sql_select_tables d = Inr (existing_tables d)"

definition sql_select_version_table :: "database \<Rightarrow> string + string list" where
  \<comment> \<open>\<^verbatim>\<open>SELECT name FROM sqlite_master WHERE type='table' AND name='db_version'\<close>\<close>
  "sql_select_version_table d = Inr (if db_version d = None then [] else [''db_version''])"

definition sql_select_version :: "database \<Rightarrow> string + int list" where
  \<comment> \<open>\<^verbatim>\<open>SELECT version FROM db_version\<close>\<close>
  "sql_select_version d =
     (case db_version d of None \<Rightarrow> Inl (no_table ''db_version'') | Some vs \<Rightarrow> Inr vs)"

definition sql_drop_all :: "bool \<Rightarrow> database \<Rightarrow> string + database" where
  \<comment> \<open>the five \<^verbatim>\<open>DROP TABLE IF EXISTS\<close> of one \<^verbatim>\<open>execAsync\<close>\<close>
  "sql_drop_all fk d =
     Inr \<lparr> categories = None, videos = None, core_memories = None,
           custom_memory_types = None, db_version = None \<rparr>"

definition create_if_absent :: "'a list option \<Rightarrow> 'a list option" where
  "create_if_absent t = (case t of None \<Rightarrow> Some [] | Some rows \<Rightarrow> Some rows)"

definition sql_create_db_version :: "bool \<Rightarrow> database \<Rightarrow> string + database" where
  "sql_create_db_version fk d = Inr (d\<lparr>db_version := create_if_absent (db_version d)\<rparr>)"

definition sql_replace_version :: "bool \<Rightarrow> database \<Rightarrow> string + database" where
  \<comment> \<open>\<^verbatim>\<open>INSERT OR REPLACE INTO db_version (version) VALUES (4)\<close>\<close>
  "sql_replace_version fk d =
     (case db_version d of
        None \<Rightarrow> Inl (no_table ''db_version'')
      | Some vs \<Rightarrow>
          Inr (d\<lparr>db_version := Some (filter (\<lambda>v. v \<noteq> CURRENT_DB_VERSION) vs @ [CURRENT_DB_VERSION])\<rparr>))"

definition sql_create_categories :: "bool \<Rightarrow> database \<Rightarrow> string + database" where
  "sql_create_categories fk d = Inr (d\<lparr>categories := create_if_absent (categories d)\<rparr>)"

definition sql_create_videos :: "bool \<Rightarrow> database \<Rightarrow> string + database" where
  "sql_create_videos fk d = Inr (d\<lparr>videos := create_if_absent (videos d)\<rparr>)"

definition sql_create_core_memories :: "bool \<Rightarrow> database \<Rightarrow> string + database" where
  "sql_create_core_memories fk d = Inr (d\<lparr>core_memories := create_if_absent (core_memories d)\<rparr>)"

definition sql_create_custom_types :: "bool \<Rightarrow> database \<Rightarrow> string + database" where
  "sql_create_custom_types fk d =
     Inr (d\<lparr>custom_memory_types := create_if_absent (custom_memory_types d)\<rparr>)"

definition defaultCategories :: "CategoryDB list" where
  "defaultCategories =
     [\<lparr> c_id = ''all'', c_key = ''all'', c_name = ''All'', c_icon = ''grid-outline'', c_color = ''#FFB6C1'' \<rparr>,
      \<lparr> c_id = ''friends'', c_key = ''friends'', c_name = ''Friends'', c_icon = ''people-outline'', c_color = ''#ADD8E6'' \<rparr>,
      \<lparr> c_id = ''family'', c_key = ''family'', c_name = ''Family'', c_icon = ''heart-outline'', c_color = ''#98FB98'' \<rparr>,
      \<lparr> c_id = ''travel'', c_key = ''travel'', c_name = ''Travel'', c_icon = ''airplane-outline'', c_color = ''#DDA0DD'' \<rparr>,
      \<lparr> c_id = ''special'', c_key = ''special'', c_name = ''Special'', c_icon = ''star-outline'', c_color = ''#FFD700'' \<rparr>]"

fun insert_or_ignore :: "CategoryDB list \<Rightarrow> CategoryDB list \<Rightarrow> CategoryDB list" where
  "insert_or_ignore [] cs = cs"
| "insert_or_ignore (r # rs) cs =
     insert_or_ignore rs (if c_id r \<in> set (map c_id cs) then cs else cs @ [r])"

definition sql_insert_default_categories :: "bool \<Rightarrow> database \<Rightarrow> string + database" where
  \<comment> \<open>\<^verbatim>\<open>INSERT OR IGNORE INTO categories (...) VALUES ...\<close>\<close>
  "sql_insert_default_categories fk d =
     (case categories d of
        None \<Rightarrow> Inl (no_table ''categories'')
      | Some cs \<Rightarrow> Inr (d\<lparr>categories := Some (insert_or_ignore defaultCategories cs)\<rparr>))"

definition sql_add_key_column :: "bool \<Rightarrow> database \<Rightarrow> string + database" where
  \<comment> \<open>\<^verbatim>\<open>ALTER TABLE categories ADD COLUMN key TEXT\<close>: the table of
      \<^verbatim>\<open>createInitialSchema\<close> has the column already\<close>
  "sql_add_key_column fk d =
     (case categories d of
        None \<Rightarrow> Inl (no_table ''categories'')
      | Some cs \<Rightarrow> Inl ''duplicate column name: key'')"

definition sql_set_version :: "bool \<Rightarrow> database \<Rightarrow> string + database" where
  \<comment> \<open>\<^verbatim>\<open>UPDATE db_version SET version = 4\<close>\<close>
  "sql_set_version fk d =
     (case db_version d of
        None \<Rightarrow> Inl (no_table ''db_version'')
      | Some vs \<Rightarrow>
          if length vs > 1 then Inl (unique_failed ''db_version.version'')
          else Inr (d\<lparr>db_version := Some (map (\<lambda>_. CURRENT_DB_VERSION) vs)\<rparr>))"

definition sql_select_categories :: "database \<Rightarrow> string + CategoryDB list" where
  \<comment> \<open>\<^verbatim>\<open>SELECT * FROM categories ORDER BY name\<close>\<close>
  "sql_select_categories d =
     (case categories d of
        None \<Rightarrow> Inl (no_table ''categories'')
      | Some cs \<Rightarrow> Inr (sort_key c_name cs))"

definition sql_select_videos :: "string option \<Rightarrow> database \<Rightarrow> string + VideoEntry list" where
  \<comment> \<open>\<^verbatim>\<open>SELECT * FROM videos [WHERE categoryId = ?] ORDER BY createdAt DESC\<close>\<close>
  "sql_select_videos filter_by d =
     (case videos d of
        None \<Rightarrow> Inl (no_table ''videos'')
      | Some vs \<Rightarrow>
          Inr (rev (sort_key v_createdAt
                      (case filter_by of
                         None \<Rightarrow> vs
                       | Some cid \<Rightarrow> filter (\<lambda>v. v_categoryId v = Some cid) vs))))"

definition sql_select_core_memories :: "database \<Rightarrow> string + CoreMemory list" where
  \<comment> \<open>\<^verbatim>\<open>SELECT * FROM core_memories ORDER BY createdAt DESC\<close>\<close>
  "sql_select_core_memories d =
     (case core_memories d of
        None \<Rightarrow> Inl (no_table ''core_memories'')
      | Some ms \<Rightarrow> Inr (rev (sort_key m_createdAt ms)))"

definition sql_select_custom_types :: "database \<Rightarrow> string + CustomMemoryType list" where
  \<comment> \<open>\<^verbatim>\<open>SELECT * FROM custom_memory_types ORDER BY name\<close>\<close>
  "sql_select_custom_types d =
     (case custom_memory_types d of
        None \<Rightarrow> Inl (no_table ''custom_memory_types'')
      | Some ts \<Rightarrow> Inr (sort_key t_name ts))"

subsection \<open>Running statements on the connection\<close>

definition io_get :: "world io" where
  "io_get w = (Inr w, w)"

definition execSql :: "string \<Rightarrow> (bool \<Rightarrow> database \<Rightarrow> string + database) \<Rightarrow> unit io" where
  \<comment> \<open>\<^verbatim>\<open>db.execAsync\<close> and \<^verbatim>\<open>db.runAsync\<close>\<close>
  "execSql label f =
     io_call (Sql label)
       (\<lambda>w. case f (foreign_keys w) (db w) of
               Inl msg \<Rightarrow> (Inl msg, w)
             | Inr d \<Rightarrow> (Inr (), w\<lparr>db := d\<rparr>))"

definition querySql :: "string \<Rightarrow> (database \<Rightarrow> string + 'a) \<Rightarrow> 'a io" where
  \<comment> \<open>\<^verbatim>\<open>db.getAllAsync\<close>\<close>
  "querySql label f = io_call (Sql label) (\<lambda>w. (f (db w), w))"

definition beginTransaction :: "unit io" where
  "beginTransaction =
     io_call (Sql ''BEGIN TRANSACTION'')
       (\<lambda>w. case txn w of
               Some s \<Rightarrow> (Inl ''cannot start a transaction within a transaction'', w)
             | None \<Rightarrow> (Inr (), w\<lparr>txn := Some (db w)\<rparr>))"

definition commit :: "unit io" where
  "commit =
     io_call (Sql ''COMMIT'')
       (\<lambda>w. case txn w of
               None \<Rightarrow> (Inl ''cannot commit - no transaction is active'', w)
             | Some s \<Rightarrow> (Inr (), w\<lparr>txn := None\<rparr>))"

definition rollback :: "unit io" where
  "rollback =
     io_call (Sql ''ROLLBACK'')
       (\<lambda>w. case txn w of
               None \<Rightarrow> (Inl ''cannot rollback - no transaction is active'', w)
             | Some s \<Rightarrow> (Inr (), w\<lparr>db := s, txn := None\<rparr>))"

definition pragmaForeignKeys :: "unit io" where
  \<comment> \<open>\<^verbatim>\<open>PRAGMA foreign_keys = ON\<close> does nothing inside a transaction\<close>
  "pragmaForeignKeys =
     io_call (Sql ''PRAGMA foreign_keys = ON'')
       (\<lambda>w. (Inr (), if txn w = None then w\<lparr>foreign_keys := True\<rparr> else w))"

definition pragmaWAL :: "unit io" where
  \<comment> \<open>the journal mode is not part of the model\<close>
  "pragmaWAL = io_call (Sql ''PRAGMA journal_mode = WAL'') (\<lambda>w. (Inr (), w))"

subsection \<open>\<^verbatim>\<open>retryOperation\<close>\<close>

definition is_locked :: "js_error \<Rightarrow> bool" where
  "is_locked e = (case e of Error msg \<Rightarrow> str_includes msg ''database table is locked'')"

function retry_from :: "nat \<Rightarrow> 'a io \<Rightarrow> nat \<Rightarrow> int \<Rightarrow> 'a io" where
  "retry_from i operation maxRetries delay w =
     (if i < maxRetries then
        (case operation w of
           (Inr x, w') \<Rightarrow> (Inr x, w')
         | (Inl e, w') \<Rightarrow>
             if i = maxRetries - 1 then (Inl e, w')
             else if is_locked e then
               retry_from (Suc i) operation maxRetries delay
                 (snd (io_then (log ''Database locked, retrying'') (wait delay) w'))
             else (Inl e, w'))
      else (Inl (Error ''Max retries reached''), w))"
  by pat_completeness auto
termination
  by (relation "measure (\<lambda>(i, operation, maxRetries, delay, w). maxRetries - i)") auto

declare retry_from.simps [simp del]

definition retryOperation :: "'a io \<Rightarrow> nat \<Rightarrow> int \<Rightarrow> 'a io" where
  "retryOperation operation maxRetries delay = retry_from 0 operation maxRetries delay"

subsection \<open>Schema management\<close>

definition verifyDatabaseHealth :: "bool io" where
  "verifyDatabaseHealth =
     io_catch
       (io_bind (querySql ''SELECT name FROM sqlite_master (required tables)'' sql_select_tables)
          (\<lambda>existingTables. io_return (list_all (\<lambda>t. t \<in> set existingTables) requiredTables)))
       (\<lambda>e. io_then (log ''Database health check failed'') (io_return False))"

definition resetDatabase :: "unit io" where
  "resetDatabase =
     io_catch
       (io_then beginTransaction
       (io_then (execSql ''DROP TABLE IF EXISTS (all tables)'' sql_drop_all)
       (io_then commit
       (io_then (io_modify (\<lambda>w. w\<lparr>isInitialized := False, initializationPromise := False\<rparr>))
                (log ''Database reset completed'')))))
       (\<lambda>e. io_then rollback (io_then (log ''Database reset failed'') (io_throw e)))"

definition createInitialSchema :: "unit io" where
  "createInitialSchema =
     io_then pragmaForeignKeys
    (io_then beginTransaction
       (io_catch
          (io_then (execSql ''CREATE TABLE IF NOT EXISTS db_version'' sql_create_db_version)
          (io_then (execSql ''INSERT OR REPLACE INTO db_version'' sql_replace_version)
          (io_then (execSql ''CREATE TABLE IF NOT EXISTS categories'' sql_create_categories)
          (io_then (execSql ''CREATE TABLE IF NOT EXISTS videos'' sql_create_videos)
          (io_then (execSql ''CREATE TABLE IF NOT EXISTS core_memories'' sql_create_core_memories)
          (io_then (execSql ''CREATE TABLE IF NOT EXISTS custom_memory_types'' sql_create_custom_types)
          (io_then (execSql ''INSERT OR IGNORE INTO categories'' sql_insert_default_categories)
          (io_then commit
                   (log ''Initial schema created successfully'')))))))))
          (\<lambda>e. io_then rollback (io_then (log ''Error creating initial schema'') (io_throw e)))))"

definition handleMigration :: "int \<Rightarrow> unit io" where
  "handleMigration fromVersion =
     io_then
       (if fromVersion < 2
        then execSql ''ALTER TABLE categories ADD COLUMN key TEXT'' sql_add_key_column
        else io_return ())
       (execSql ''UPDATE db_version SET version'' sql_set_version)"

definition initializeSchema :: "unit io" where
  \<comment> \<open>the operation \<^verbatim>\<open>setup\<close> hands to \<^verbatim>\<open>retryOperation\<close>\<close>
  "initializeSchema =
     io_bind (querySql ''SELECT name FROM sqlite_master (db_version)'' sql_select_version_table)
       (\<lambda>tablesExist.
          if length tablesExist = 0 then createInitialSchema
          else io_bind (querySql ''SELECT version FROM db_version'' sql_select_version)
                 (\<lambda>version.
                    case version of
                      [] \<Rightarrow> io_throw (Error ''TypeError: undefined is not an object'')
                    | v # _ \<Rightarrow>
                        if v < CURRENT_DB_VERSION then handleMigration v else io_return ()))"

definition startInitialization :: "unit io" where
  \<comment> \<open>the asynchronous block \<^verbatim>\<open>setup\<close> stores in \<^verbatim>\<open>_initializationPromise\<close>\<close>
  "startInitialization =
     io_then (io_modify (\<lambda>w. w\<lparr>initializationPromise := True\<rparr>))
       (io_catch
          (io_then pragmaForeignKeys
          (io_then pragmaWAL
          (io_bind verifyDatabaseHealth
             (\<lambda>isHealthy.
          io_then
            (if \<not> isHealthy
             then io_then (log ''Database in inconsistent state, performing reset'') resetDatabase
             else io_return ())
          (io_then (retryOperation initializeSchema 3 1000)
          (io_bind verifyDatabaseHealth
             (\<lambda>finalCheck.
                if \<not> finalCheck
                then io_throw (Error ''Database initialization verification failed'')
                else io_then (io_modify (\<lambda>w. w\<lparr>isInitialized := True\<rparr>))
                             (log ''Database initialized and verified successfully''))))))))
          (\<lambda>e. io_then (io_modify (\<lambda>w. w\<lparr>initializationPromise := False, isInitialized := False\<rparr>))
                 (io_then (log ''Database initialization failed'') (io_throw e))))"

definition setupDatabase :: "unit io" where
  "setupDatabase =
     io_bind io_get (\<lambda>w0.
     io_bind
       (if isInitialized w0
        then io_bind verifyDatabaseHealth
               (\<lambda>isHealthy.
                  if isHealthy then io_return True
                  else io_then (io_modify (\<lambda>w. w\<lparr>isInitialized := False\<rparr>))
                      (io_then (log ''Database health check failed, reinitializing'')
                               (io_return False)))
        else io_return False)
       (\<lambda>finished.
          if finished then io_return ()
          else
            io_bind io_get (\<lambda>w1.
            io_bind
              (if initializationPromise w1
               then io_catch verifyDatabaseHealth
                      (\<lambda>e. io_then (io_modify (\<lambda>w. w\<lparr>initializationPromise := False\<rparr>))
                            (io_then (log ''Previous initialization failed'') (io_return False)))
               else io_return False)
              (\<lambda>finished'. if finished' then io_return () else startInitialization))))"

definition ensureSetup :: "unit io" where
  "ensureSetup =
     io_catch
       (io_then setupDatabase
          (io_bind verifyDatabaseHealth
             (\<lambda>isHealthy.
                if \<not> isHealthy then io_throw (Error ''Database health check failed after setup'')
                else io_return ())))
       (\<lambda>e. io_then (log ''Database setup verification failed'') (io_throw e))"

subsection \<open>The operations of \<^verbatim>\<open>DatabaseService\<close>\<close>

definition rethrow :: "string \<Rightarrow> 'a io \<Rightarrow> 'a io" where
  \<comment> \<open>\<^verbatim>\<open>try { m } catch (error) { console.error(msg, error); throw error; }\<close>\<close>
  "rethrow msg m = io_catch m (\<lambda>e. io_then (log msg) (io_throw e))"

definition truthy :: "string option \<Rightarrow> bool" where
  \<comment> \<open>a string that is neither undefined nor empty\<close>
  "truthy s = (case s of None \<Rightarrow> False | Some x \<Rightarrow> x \<noteq> [])"

definition getCategories :: "CategoryDB list io" where
  "getCategories =
     io_catch
       (io_then ensureSetup (querySql ''SELECT * FROM categories ORDER BY name'' sql_select_categories))
       (\<lambda>e. io_then (log ''Error fetching categories'') (io_return []))"

definition getVideos :: "string option \<Rightarrow> VideoEntry list io" where
  "getVideos categoryId =
     io_catch
       (io_then ensureSetup
          (if truthy categoryId \<and> categoryId \<noteq> Some ''all''
           then querySql ''SELECT * FROM videos WHERE categoryId = ? ORDER BY createdAt DESC''
                  (sql_select_videos categoryId)
           else querySql ''SELECT * FROM videos ORDER BY createdAt DESC'' (sql_select_videos None)))
       (\<lambda>e. io_then (log ''Error fetching videos'') (io_return []))"

definition videoToInsert :: "VideoEntry \<Rightarrow> string \<Rightarrow> VideoEntry" where
  \<comment> \<open>the row bound to the \<^verbatim>\<open>INSERT\<close>: \<^verbatim>\<open>categoryId ?? 'all'\<close>\<close>
  "videoToInsert video newId =
     video\<lparr> v_id := newId,
            v_categoryId := Some (case v_categoryId video of None \<Rightarrow> ''all'' | Some c \<Rightarrow> c) \<rparr>"

definition DatabaseService_addVideo :: "VideoEntry \<Rightarrow> string io" where
  "DatabaseService_addVideo video =
     rethrow ''Error adding video''
       (io_then ensureSetup
       (io_then beginTransaction
         (io_catch
            (io_bind (querySql ''SELECT id FROM videos WHERE id = ?'' (sql_select_video_id (v_id video)))
               (\<lambda>existing.
            io_bind (if length existing > 0 then generateUUID else io_return (v_id video))
               (\<lambda>newId.
            io_then (execSql ''INSERT INTO videos'' (sql_insert_video (videoToInsert video newId)))
           (io_then commit
           (io_then (log ''Video added'')
                    (io_return newId))))))
            (\<lambda>e. io_then rollback (io_throw e)))))"

definition DatabaseService_deleteVideo :: "string \<Rightarrow> unit io" where
  "DatabaseService_deleteVideo vid =
     rethrow ''Error deleting video''
       (io_then (execSql ''DELETE FROM videos WHERE id = ?'' (sql_delete_video vid))
                (log ''Video deleted''))"

definition DatabaseService_updateVideo :: "string \<Rightarrow> VideoUpdates \<Rightarrow> unit io" where
  "DatabaseService_updateVideo vid updates =
     rethrow ''Error updating video''
       (if video_no_fields updates then io_return ()
        else io_then (execSql ''UPDATE videos SET ... WHERE id = ?'' (sql_update_video vid updates))
                     (log ''Video updated''))"

definition clearDatabase :: "unit io" where
  "clearDatabase =
     rethrow ''Error clearing database''
       (io_then beginTransaction
          (io_catch
             (io_then (execSql ''DROP TABLE IF EXISTS (all tables)'' sql_drop_all)
             (io_then (io_modify (\<lambda>w. w\<lparr>isInitialized := False, initializationPromise := False\<rparr>))
             (io_then commit
             (io_then setupDatabase
                      (log ''Database cleared and reinitialized successfully'')))))
             (\<lambda>e. io_then rollback (io_throw e))))"

definition getCoreMemories :: "CoreMemory list io" where
  "getCoreMemories =
     io_catch (querySql ''SELECT * FROM core_memories ORDER BY createdAt DESC'' sql_select_core_memories)
       (\<lambda>e. io_then (log ''Error fetching core memories'') (io_return []))"

definition addCoreMemory :: "CoreMemory \<Rightarrow> unit io" where
  "addCoreMemory memory =
     rethrow ''Error adding core memory''
       (io_then (execSql ''INSERT OR REPLACE INTO core_memories'' (sql_upsert_core_memory memory))
                (log ''Core memory added''))"

definition updateCoreMemory :: "string \<Rightarrow> CoreMemoryUpdates \<Rightarrow> unit io" where
  "updateCoreMemory videoId updates =
     rethrow ''Error updating core memory''
       (if memory_no_fields updates then io_return ()
        else io_then (execSql ''UPDATE core_memories SET ... WHERE videoId = ?''
                        (sql_update_core_memory videoId updates))
                     (log ''Core memory updated''))"

definition deleteCoreMemory :: "string \<Rightarrow> unit io" where
  "deleteCoreMemory videoId =
     rethrow ''Error deleting core memory''
       (io_then (execSql ''DELETE FROM core_memories WHERE videoId = ?'' (sql_delete_core_memory videoId))
                (log ''Core memory deleted''))"

definition addCategory :: "CategoryDB \<Rightarrow> unit io" where
  "addCategory category =
     rethrow ''Error adding category''
       (io_then (execSql ''INSERT INTO categories'' (sql_insert_category category))
                (log ''Category added''))"

definition updateCategory :: "string \<Rightarrow> CategoryUpdates \<Rightarrow> unit io" where
  "updateCategory cid updates =
     rethrow ''Error updating category''
       (if category_no_fields updates then io_return ()
        else io_then (execSql ''UPDATE categories SET ... WHERE id = ?'' (sql_update_category cid updates))
                     (log ''Category updated''))"

definition deleteCategory :: "string \<Rightarrow> unit io" where
  "deleteCategory cid =
     rethrow ''Error deleting category''
       (io_then beginTransaction
          (io_catch
             (io_then (execSql ''UPDATE videos SET categoryId = all WHERE categoryId = ?''
                         (sql_reassign_videos cid))
             (io_then (execSql ''DELETE FROM categories WHERE id = ?'' (sql_delete_category cid))
             (io_then commit
                      (log ''Category deleted''))))
             (\<lambda>e. io_then rollback (io_throw e))))"

definition getCustomMemoryTypes :: "CustomMemoryType list io" where
  "getCustomMemoryTypes =
     io_catch (querySql ''SELECT * FROM custom_memory_types ORDER BY name'' sql_select_custom_types)
       (\<lambda>e. io_then (log ''Error fetching custom memory types'') (io_return []))"

definition addCustomMemoryType :: "CustomMemoryType \<Rightarrow> unit io" where
  "addCustomMemoryType ty =
     rethrow ''Error adding custom memory type''
       (io_then (execSql ''INSERT INTO custom_memory_types'' (sql_insert_custom_type ty))
                (log ''Custom memory type added''))"

definition updateCustomMemoryType :: "string \<Rightarrow> CustomMemoryTypeUpdates \<Rightarrow> unit io" where
  "updateCustomMemoryType tid updates =
     rethrow ''Error updating custom memory type''
       (if type_no_fields updates then io_return ()
        else io_then (execSql ''UPDATE custom_memory_types SET ... WHERE id = ?''
                        (sql_update_custom_type tid updates))
                     (log ''Custom memory type updated''))"

definition deleteCustomMemoryType :: "string \<Rightarrow> unit io" where
  "deleteCustomMemoryType tid =
     rethrow ''Error deleting custom memory type''
       (io_then (execSql ''DELETE FROM custom_memory_types WHERE id = ?'' (sql_delete_custom_type tid))
                (log ''Custom memory type deleted''))"

definition migrateCategoryKeys :: "unit io" where
  \<comment> \<open>the statement that adds the column fails, so the loop over the categories is never reached\<close>
  "migrateCategoryKeys =
     rethrow ''Migration failed''
       (io_then (execSql ''ALTER TABLE categories ADD COLUMN key TEXT'' sql_add_key_column)
                (log ''Category keys migration completed''))"

subsection \<open>Sequences of repository operations\<close>

text \<open>The operations of the \<^verbatim>\<open>IDatabaseService\<close> interface, run one after the other.\<close>

datatype repo_op =
    OpSetup
  | OpGetCategories
  | OpAddVideo VideoEntry
  | OpGetVideos "string option"
  | OpDeleteVideo string
  | OpUpdateVideo string VideoUpdates
  | OpClearDatabase
  | OpGetCoreMemories
  | OpAddCoreMemory CoreMemory
  | OpUpdateCoreMemory string CoreMemoryUpdates
  | OpDeleteCoreMemory string
  | OpAddCategory CategoryDB
  | OpUpdateCategory string CategoryUpdates
  | OpDeleteCategory string
  | OpGetCustomMemoryTypes
  | OpAddCustomMemoryType CustomMemoryType
  | OpUpdateCustomMemoryType string CustomMemoryTypeUpdates
  | OpDeleteCustomMemoryType string
  | OpMigrateCategoryKeys

fun run_op :: "repo_op \<Rightarrow> world \<Rightarrow> world" where
  "run_op OpSetup w = snd (setupDatabase w)"
| "run_op OpGetCategories w = snd (getCategories w)"
| "run_op (OpAddVideo video) w = snd (DatabaseService_addVideo video w)"
| "run_op (OpGetVideos categoryId) w = snd (getVideos categoryId w)"
| "run_op (OpDeleteVideo vid) w = snd (DatabaseService_deleteVideo vid w)"
| "run_op (OpUpdateVideo vid updates) w = snd (DatabaseService_updateVideo vid updates w)"
| "run_op OpClearDatabase w = snd (clearDatabase w)"
| "run_op OpGetCoreMemories w = snd (getCoreMemories w)"
| "run_op (OpAddCoreMemory memory) w = snd (addCoreMemory memory w)"
| "run_op (OpUpdateCoreMemory vid updates) w = snd (updateCoreMemory vid updates w)"
| "run_op (OpDeleteCoreMemory vid) w = snd (deleteCoreMemory vid w)"
| "run_op (OpAddCategory category) w = snd (addCategory category w)"
| "run_op (OpUpdateCategory cid updates) w = snd (updateCategory cid updates w)"
| "run_op (OpDeleteCategory cid) w = snd (deleteCategory cid w)"
| "run_op OpGetCustomMemoryTypes w = snd (getCustomMemoryTypes w)"
| "run_op (OpAddCustomMemoryType ty) w = snd (addCustomMemoryType ty w)"
| "run_op (OpUpdateCustomMemoryType tid updates) w = snd (updateCustomMemoryType tid updates w)"
| "run_op (OpDeleteCustomMemoryType tid) w = snd (deleteCustomMemoryType tid w)"
| "run_op OpMigrateCategoryKeys w = snd (migrateCategoryKeys w)"

definition run_ops :: "repo_op list \<Rightarrow> world \<Rightarrow> world" where
  "run_ops ops w = fold run_op ops w"

subsection \<open>Vocabulary for the properties of the repository\<close>

text \<open>
  \<open>refs_ok\<close>: every video's category reference is \<^verbatim>\<open>NULL\<close> or the id of a row of
  \<^verbatim>\<open>categories\<close>. \<open>enforced\<close>: foreign keys are switched on and the references are
  intact, in the tables and in the snapshot an open transaction would roll back to.
  \<open>keeps P m\<close>: running \<open>m\<close> in a world that satisfies \<open>P\<close> leaves one that does.
  \<open>committed\<close>: the tables as they are outside the open transaction. \<open>healthy\<close>: the five
  required tables exist.
\<close>

definition refs_ok :: "database \<Rightarrow> bool" where
  "refs_ok d =
     (case videos d of
        None \<Rightarrow> True
      | Some vs \<Rightarrow> list_all (\<lambda>v. category_ref_ok d (v_categoryId v)) vs)"

definition enforced :: "world \<Rightarrow> bool" where
  "enforced w =
     (foreign_keys w \<and> refs_ok (db w) \<and> (case txn w of None \<Rightarrow> True | Some s \<Rightarrow> refs_ok s))"

definition keeps :: "(world \<Rightarrow> bool) \<Rightarrow> 'a io \<Rightarrow> bool" where
  "keeps P m = (\<forall>w. P w \<longrightarrow> P (snd (m w)))"

definition committed :: "world \<Rightarrow> database" where
  "committed w = (case txn w of None \<Rightarrow> db w | Some s \<Rightarrow> s)"

definition healthy :: "database \<Rightarrow> bool" where
  "healthy d =
     (categories d \<noteq> None \<and> videos d \<noteq> None \<and> core_memories d \<noteq> None \<and>
      custom_memory_types d \<noteq> None \<and> db_version d \<noteq> None)"

definition deleteCategory_body :: "string \<Rightarrow> unit io" where
  \<comment> \<open>the inner \<^verbatim>\<open>try\<close> block of \<^verbatim>\<open>deleteCategory\<close>\<close>
  "deleteCategory_body cid =
     io_then (execSql ''UPDATE videos SET categoryId = all WHERE categoryId = ?'' (sql_reassign_videos cid))
    (io_then (execSql ''DELETE FROM categories WHERE id = ?'' (sql_delete_category cid))
    (io_then commit (log ''Category deleted'')))"

text \<open>
  The world after a call that threw at once, and after one wait of \<^verbatim>\<open>retryOperation\<close>.
\<close>

definition failed_call :: "string \<Rightarrow> string \<Rightarrow> string option list \<Rightarrow> world \<Rightarrow> world" where
  "failed_call label errmsg rest w =
     w\<lparr>faults := rest, trace := trace w @ [Call (Sql label) False], console := console w @ [errmsg]\<rparr>"

definition waited :: "int \<Rightarrow> world \<Rightarrow> world" where
  "waited delay w =
     w\<lparr>console := console w @ [''Database locked, retrying''],
       clock := clock w + delay, trace := trace w @ [Wait delay]\<rparr>"

text \<open>
  What an operation adds to the trace; how often a statement was attempted among these
  events; the waits among them. \<open>attempted_once l m w\<close>: running \<open>m\<close> in \<open>w\<close> attempts
  the statement \<open>l\<close> at most once, never waits, and fails when the statement fails.
  \<open>hoare P m Q\<close>: running \<open>m\<close> in a world that satisfies \<open>P\<close> leaves one that satisfies
  \<open>Q\<close>. \<open>since t0 l k nw\<close>: the trace extends \<open>t0\<close> by events with at most \<open>k\<close> attempts of
  the statement \<open>l\<close> and, if \<open>nw\<close>, no wait.
\<close>

definition new_events :: "world \<Rightarrow> world \<Rightarrow> event list" where
  "new_events w w' = drop (length (trace w)) (trace w')"

definition attempt_count :: "string \<Rightarrow> event list \<Rightarrow> nat" where
  "attempt_count l es = length (filter (\<lambda>e. e = Call (Sql l) True \<or> e = Call (Sql l) False) es)"

fun waits :: "event list \<Rightarrow> int list" where
  "waits [] = []"
| "waits (Wait d # es) = d # waits es"
| "waits (Call c b # es) = waits es"

definition attempted_once :: "string \<Rightarrow> 'a io \<Rightarrow> world \<Rightarrow> bool" where
  "attempted_once l m w =
     (attempt_count l (new_events w (snd (m w))) \<le> 1 \<and>
      waits (new_events w (snd (m w))) = [] \<and>
      (Call (Sql l) False \<in> set (new_events w (snd (m w))) \<longrightarrow> isl (fst (m w))))"

definition hoare :: "(world \<Rightarrow> bool) \<Rightarrow> 'a io \<Rightarrow> (world \<Rightarrow> bool) \<Rightarrow> bool" where
  "hoare P m Q = (\<forall>w. P w \<longrightarrow> Q (snd (m w)))"

definition since :: "event list \<Rightarrow> string \<Rightarrow> nat \<Rightarrow> bool \<Rightarrow> world \<Rightarrow> bool" where
  "since t0 l k nw v =
     (\<exists>es. trace v = t0 @ es \<and> attempt_count l es \<le> k \<and> (nw \<longrightarrow> waits es = []))"

definition addVideo_txn :: "VideoEntry \<Rightarrow> string io" where
  \<comment> \<open>the transaction of \<^verbatim>\<open>addVideo\<close>, after \<^verbatim>\<open>ensureSetup\<close>\<close>
  "addVideo_txn video =
     io_then beginTransaction
       (io_catch
          (io_bind (querySql ''SELECT id FROM videos WHERE id = ?'' (sql_select_video_id (v_id video)))
             (\<lambda>existing.
          io_bind (if length existing > 0 then generateUUID else io_return (v_id video))
             (\<lambda>newId.
          io_then (execSql ''INSERT INTO videos'' (sql_insert_video (videoToInsert video newId)))
         (io_then commit
         (io_then (log ''Video added'')
                  (io_return newId))))))
          (\<lambda>e. io_then rollback (io_throw e)))"

subsection \<open>The settings screen: \<^verbatim>\<open>handleDeleteCategory\<close>\<close>

text \<open>
  The handler shows alerts and, when the user confirms, deletes the category and reloads
  the list. Whether the user confirms is a parameter; the result is the alerts shown and
  the new value of the screen's category list, if it is set.
\<close>

datatype alert = Alert string string

definition handleDeleteCategory ::
  "CategoryDB \<Rightarrow> bool \<Rightarrow> world \<Rightarrow> (alert list \<times> CategoryDB list option) \<times> world" where
  "handleDeleteCategory category confirmed w =
     (if c_id category = ''all''
      then (([Alert ''Error'' ''Cannot delete the default All category''], None), w)
      else if \<not> confirmed then (([Alert ''Delete Category'' ''Are you sure?''], None), w)
      else
        (case io_then (deleteCategory (c_id category)) getCategories w of
           (Inr dbCategories, w') \<Rightarrow>
             (([Alert ''Delete Category'' ''Are you sure?'',
                Alert ''Success'' ''Category deleted successfully''], Some dbCategories), w')
         | (Inl e, w') \<Rightarrow>
             (([Alert ''Delete Category'' ''Are you sure?'',
                Alert ''Error'' ''Failed to delete category''], None),
              w'\<lparr>console := console w' @ [''Failed to delete category'']\<rparr>)))"

subsection \<open>A seeded database with one video\<close>

definition seeded :: database where
  "seeded = \<lparr> categories = Some defaultCategories, videos = Some [], core_memories = Some [],
              custom_memory_types = Some [], db_version = Some [CURRENT_DB_VERSION] \<rparr>"

definition video_ex :: VideoEntry where
  "video_ex = \<lparr> v_id = ''v1'', v_uri = ''/src/a.mov'', v_thumbnail = ''/doc/thumbnails/1.jpg'',
     v_duration = 5, v_createdAt = ''2025-01-01T10:00:00.000Z'', v_title = ''A'', v_description = None,
     v_startTime = 2, v_endTime = 7, v_categoryId = Some ''travel'' \<rparr>"

definition world_ex :: world where
  "world_ex =
     \<lparr> db = seeded\<lparr>videos := Some [video_ex]\<rparr>, txn = None, foreign_keys = True, isInitialized = True,
       initializationPromise = True, files = [(''/picker/clip.mov'', Blob ''mov'')], dirs = {''/doc/videos'', ''/doc/thumbnails'', ''/doc/metadata''},
       docDir = ''/doc/'', cacheDir = ''/cache/'',
       store = \<lparr> st_videos = [], st_isLoading = False, st_error = None \<rparr>,
       metadataCache = Map.empty, clock = 1700000000000, uuid_source = nth [''uuid-1'', ''uuid-2'', ''uuid-3'', ''uuid-4'', ''uuid-5'', ''uuid-6''],
       uuid_count = 0, digits20 = False, faults = [], trace = [], console = [] \<rparr>"

text \<open>
  The same database behind a connection that was just opened: SQLite enforces no foreign
  key until \<^verbatim>\<open>PRAGMA foreign_keys = ON\<close> has run on the connection.
\<close>

definition world_cold :: world where
  "world_cold = world_ex\<lparr>foreign_keys := False, isInitialized := False, initializationPromise := False\<rparr>"

definition ops_ex :: "repo_op list" where
  "ops_ex =
     [OpAddVideo (video_ex\<lparr>v_id := ''v2'', v_categoryId := Some ''default''\<rparr>),
      OpDeleteCategory ''travel'',
      OpDeleteCategory ''all'',
      OpAddVideo (video_ex\<lparr>v_id := ''v3'', v_categoryId := Some ''friends''\<rparr>),
      OpUpdateVideo ''v3''
        \<lparr> vu_id = None, vu_uri = None, vu_thumbnail = None, vu_duration = None,
          vu_createdAt = None, vu_title = None, vu_description = None, vu_startTime = None,
          vu_endTime = None, vu_categoryId = Some (Some ''travel'') \<rparr>]"

section \<open>Files, metadata and the screens that create and delete a memory\<close>

subsection \<open>Strings\<close>

function dec_digits :: "int \<Rightarrow> string" where
  "dec_digits i =
     (if i < 10 then [char_of (48 + i)]
      else dec_digits (i div 10) @ [char_of (48 + i mod 10)])"
  by pat_completeness auto
termination
  by (relation "measure nat") auto

declare dec_digits.simps [simp del]

definition string_of_int :: "int \<Rightarrow> string" where
  \<comment> \<open>an integer as a template literal prints it\<close>
  "string_of_int i = (if i < 0 then CHR ''-'' # dec_digits (- i) else dec_digits i)"

fun last_index_from :: "char \<Rightarrow> string \<Rightarrow> int \<Rightarrow> int \<Rightarrow> int" where
  "last_index_from c [] i found = found"
| "last_index_from c (x # xs) i found = last_index_from c xs (i + 1) (if x = c then i else found)"

definition lastIndexOf :: "string \<Rightarrow> char \<Rightarrow> int" where
  \<comment> \<open>\<^verbatim>\<open>s.lastIndexOf(c)\<close>: -1 when the character does not occur\<close>
  "lastIndexOf s c = last_index_from c s 0 (- 1)"

definition substring0 :: "string \<Rightarrow> int \<Rightarrow> string" where
  \<comment> \<open>\<^verbatim>\<open>s.substring(0, e)\<close>: a negative end counts as 0\<close>
  "substring0 s e = take (nat e) s"

definition dirname :: "path \<Rightarrow> path" where
  \<comment> \<open>\<^verbatim>\<open>uri.substring(0, uri.lastIndexOf('/'))\<close>\<close>
  "dirname p = substring0 p (lastIndexOf p (CHR ''/''))"

definition norm_dir :: "path \<Rightarrow> path" where
  \<comment> \<open>a directory is the same with and without its final slash\<close>
  "norm_dir p = (if p \<noteq> [] \<and> last p = CHR ''/'' then butlast p else p)"

definition trim :: "string \<Rightarrow> string" where
  "trim s = rev (dropWhile is_js_space (rev (dropWhile is_js_space s)))"

definition num_truthy :: "int option \<Rightarrow> bool" where
  \<comment> \<open>a number that is neither undefined, null nor 0\<close>
  "num_truthy n = (case n of None \<Rightarrow> False | Some x \<Rightarrow> x \<noteq> 0)"

definition MAX_SAFE_INTEGER :: int where
  "MAX_SAFE_INTEGER = 9007199254740991"

subsection \<open>\<^verbatim>\<open>expo-file-system\<close>\<close>

text \<open>
  A file can be written where its directory exists; \<^verbatim>\<open>makeDirectoryAsync\<close> is called
  with \<^verbatim>\<open>intermediates: true\<close> and \<^verbatim>\<open>deleteAsync\<close> with
  \<^verbatim>\<open>idempotent: true\<close> throughout, so neither minds what is already there.
\<close>

definition put_file :: "path \<Rightarrow> content \<Rightarrow> world \<Rightarrow> world" where
  "put_file p c w = w\<lparr>files := (p, c) # filter (\<lambda>e. fst e \<noteq> p) (files w)\<rparr>"

definition getInfoAsync :: "path \<Rightarrow> bool io" where
  \<comment> \<open>the \<^verbatim>\<open>exists\<close> field of the result\<close>
  "getInfoAsync p =
     io_call (GetInfo p) (\<lambda>w. (Inr (map_of (files w) p \<noteq> None \<or> norm_dir p \<in> dirs w), w))"

definition makeDirectoryAsync :: "path \<Rightarrow> unit io" where
  "makeDirectoryAsync p =
     io_call (MakeDirectory p) (\<lambda>w. (Inr (), w\<lparr>dirs := insert (norm_dir p) (dirs w)\<rparr>))"

definition writeAsStringAsync :: "path \<Rightarrow> content \<Rightarrow> unit io" where
  "writeAsStringAsync p c =
     io_call (WriteString p)
       (\<lambda>w. if dirname p \<in> dirs w then (Inr (), put_file p c w)
             else (Inl ''no such directory'', w))"

definition readAsStringAsync :: "path \<Rightarrow> content io" where
  "readAsStringAsync p =
     io_call (ReadString p)
       (\<lambda>w. case map_of (files w) p of
               None \<Rightarrow> (Inl ''no such file'', w)
             | Some c \<Rightarrow> (Inr c, w))"

definition copyAsync :: "path \<Rightarrow> path \<Rightarrow> unit io" where
  "copyAsync src dst =
     io_call (Copy src dst)
       (\<lambda>w. case map_of (files w) src of
               None \<Rightarrow> (Inl ''no such file'', w)
             | Some c \<Rightarrow>
                 if dirname dst \<in> dirs w then (Inr (), put_file dst c w)
                 else (Inl ''no such directory'', w))"

definition deleteAsync_io :: "path \<Rightarrow> unit io" where
  "deleteAsync_io p =
     io_call (Delete p) (\<lambda>w. (Inr (), w\<lparr>files := filter (\<lambda>e. fst e \<noteq> p) (files w)\<rparr>))"

definition readDirectoryAsync_io :: "path \<Rightarrow> string list io" where
  "readDirectoryAsync_io dir =
     io_call (ReadDirectory dir)
       (\<lambda>w. if norm_dir dir \<in> dirs w
             then (Inr (map (\<lambda>e. drop (length (norm_dir dir) + 1) (fst e))
                          (filter (\<lambda>e. dirname (fst e) = norm_dir dir) (files w))), w)
             else (Inl ''no such directory'', w))"

definition getThumbnailAsync :: "path \<Rightarrow> path io" where
  \<comment> \<open>\<^verbatim>\<open>VideoThumbnails.getThumbnailAsync\<close>: an image of the video in the cache directory\<close>
  "getThumbnailAsync videoUri =
     io_call (GetThumbnail videoUri)
       (\<lambda>w. case map_of (files w) videoUri of
               None \<Rightarrow> (Inl ''no such file'', w)
             | Some c \<Rightarrow>
                 (Inr (cacheDir w @ ''VideoThumbnails/'' @ string_of_int (clock w) @ ''.jpg''),
                  put_file (cacheDir w @ ''VideoThumbnails/'' @ string_of_int (clock w) @ ''.jpg'')
                    (Blob ''jpeg'') w))"

definition json_parse :: "content \<Rightarrow> json_obj io" where
  "json_parse c =
     (case c of
        Blob b \<Rightarrow> io_throw (Error ''SyntaxError: JSON Parse error'')
      | Json obj \<Rightarrow> io_return obj)"

text \<open>
  \<^verbatim>\<open>Promise.all\<close>: every operation is started, so every one runs; the result is the
  first error, if there is one. The operations run here in the order the source lists them.
\<close>

definition promise_all2 :: "'a io \<Rightarrow> 'b io \<Rightarrow> ('a \<times> 'b) io" where
  "promise_all2 a b w =
     (case a w of
        (ra, w1) \<Rightarrow>
          (case b w1 of
             (rb, w2) \<Rightarrow>
               ((case ra of
                   Inl e \<Rightarrow> Inl e
                 | Inr x \<Rightarrow> (case rb of Inl e \<Rightarrow> Inl e | Inr y \<Rightarrow> Inr (x, y))),
                w2)))"

fun promise_all :: "unit io list \<Rightarrow> unit io" where
  "promise_all [] = io_return ()"
| "promise_all (a # as) = io_bind (promise_all2 a (promise_all as)) (\<lambda>_. io_return ())"

definition io_finally :: "'a io \<Rightarrow> unit io \<Rightarrow> 'a io" where
  \<comment> \<open>\<^verbatim>\<open>try { m } finally { f }\<close>, for an \<open>f\<close> that does not throw\<close>
  "io_finally m f w = (case m w of (r, w1) \<Rightarrow> (r, snd (f w1)))"

subsection \<open>\<^verbatim>\<open>FileManager\<close>: saving and deleting one asset\<close>

definition videos_dir :: "world \<Rightarrow> path" where
  \<comment> \<open>\<^verbatim>\<open>VIDEO_DIR\<close>\<close>
  "videos_dir w = docDir w @ ''videos/''"

definition FileManager_saveVideo :: "path \<Rightarrow> path io" where
  "FileManager_saveVideo sourceUri =
     io_bind io_get (\<lambda>w.
       io_then (copyAsync sourceUri (videos_dir w @ string_of_int (clock w) @ ''.mp4''))
               (io_return (videos_dir w @ string_of_int (clock w) @ ''.mp4'')))"


subsection \<open>The indexed metadata store: \<^verbatim>\<open>services/videoService.ts\<close>\<close>

definition metadataDir :: "world \<Rightarrow> path" where
  "metadataDir w = docDir w @ ''metadata/''"

definition ensureMetadataDirectory :: "unit io" where
  "ensureMetadataDirectory =
     io_catch
       (io_bind io_get (\<lambda>w.
        io_bind (getInfoAsync (metadataDir w))
          (\<lambda>exists. if \<not> exists then makeDirectoryAsync (metadataDir w) else io_return ())))
       (\<lambda>e. io_then (log ''Failed to create metadata directory'') (io_return ()))"

definition getVideoMetadata :: "string \<Rightarrow> json_obj option io" where
  "getVideoMetadata videoId =
     io_bind io_get (\<lambda>w0.
       case metadataCache w0 videoId of
         Some cached \<Rightarrow> io_return (Some cached)
       | None \<Rightarrow>
           io_catch
             (io_then ensureMetadataDirectory
             (io_bind io_get (\<lambda>w.
              io_bind (getInfoAsync (metadataDir w @ videoId @ ''.json''))
                (\<lambda>exists.
                   if \<not> exists
                   then io_then (log ''Metadata file does not exist for video'') (io_return None)
                   else
                     io_bind (readAsStringAsync (metadataDir w @ videoId @ ''.json''))
                       (\<lambda>content.
                     io_bind (json_parse content)
                       (\<lambda>metadata.
                     io_then (io_modify (\<lambda>v. v\<lparr>metadataCache := (metadataCache v)(videoId \<mapsto> metadata)\<rparr>))
                             (io_return (Some metadata))))))))
             (\<lambda>e. io_then (log ''Failed to get video metadata'') (io_return None)))"

definition saveVideoMetadata :: "json_obj \<Rightarrow> string io" where
  "saveVideoMetadata metadata =
     rethrow ''Failed to save video metadata''
       (io_then ensureMetadataDirectory
       (io_bind (case j_id metadata of
                   None \<Rightarrow> generateUUID
                 | Some given \<Rightarrow> if given = [] then generateUUID else io_return given)
          (\<lambda>newId.
        io_bind io_get (\<lambda>w.
        io_then (io_modify (\<lambda>v. v\<lparr>metadataCache := (metadataCache v)(newId := None)\<rparr>))
       (io_then (writeAsStringAsync (metadataDir w @ newId @ ''.json'')
                   (Json (metadata\<lparr>j_id := Some newId\<rparr>)))
       (io_then (io_modify (\<lambda>v. v\<lparr>metadataCache :=
                                (metadataCache v)(newId \<mapsto> metadata\<lparr>j_id := Some newId\<rparr>)\<rparr>))
                (io_return newId)))))))"

subsection \<open>\<^verbatim>\<open>utils/videoProcessor\<close>\<close>

text \<open>
  The calls to the file logger are console lines here; the log file it appends to is not
  part of the model.
\<close>

definition default_meta :: json_obj where
  \<comment> \<open>\<^verbatim>\<open>{ startTime: 0, endTime: null }\<close>\<close>
  "default_meta =
     \<lparr> j_id = None, j_uri = None, j_startTime = Some 0, j_endTime = None, j_duration = None \<rparr>"

definition sidecar_json :: "int \<Rightarrow> int \<Rightarrow> content" where
  \<comment> \<open>\<^verbatim>\<open>JSON.stringify({ startTime, endTime })\<close>\<close>
  "sidecar_json startTime endTime =
     Json \<lparr> j_id = None, j_uri = None, j_startTime = Some startTime, j_endTime = Some endTime,
            j_duration = None \<rparr>"

definition getMetadata :: "path \<Rightarrow> json_obj io" where
  "getMetadata videoUri =
     io_catch
       (io_then (log ''Reading metadata file'')
       (io_bind (getInfoAsync (videoUri @ ''.meta''))
          (\<lambda>exists.
             if \<not> exists
             then io_then (log ''Metadata file does not exist'') (io_return default_meta)
             else
               io_bind (readAsStringAsync (videoUri @ ''.meta''))
                 (\<lambda>data.
               io_bind (json_parse data)
                 (\<lambda>parsed.
               io_then (log ''Successfully read metadata'') (io_return parsed))))))
       (\<lambda>e. io_then (log ''Failed to read metadata'') (io_return default_meta))"

function copy_attempts :: "nat \<Rightarrow> path \<Rightarrow> path \<Rightarrow> js_error option \<Rightarrow> path io" where
  \<comment> \<open>the copy loop of \<^verbatim>\<open>generateThumbnail\<close>, from attempt \<open>i\<close> on\<close>
  "copy_attempts i tempUri thumbnailUri lastError w =
     (if i < 3 then
        (case io_then (copyAsync tempUri thumbnailUri)
               (io_bind (getInfoAsync thumbnailUri)
                  (\<lambda>exists.
                     if \<not> exists then io_throw (Error ''Thumbnail file not found after copy'')
                     else io_then (log ''Thumbnail generated successfully'') (io_return thumbnailUri))) w of
           (Inr uri, w') \<Rightarrow> (Inr uri, w')
         | (Inl err, w') \<Rightarrow>
             copy_attempts (Suc i) tempUri thumbnailUri (Some err)
               (snd (io_then (log ''Copy attempt failed'')
                       (if i < 2 then wait 1000 else io_return ()) w')))
      else
        (case lastError of
           Some err \<Rightarrow> (Inl err, w)
         | None \<Rightarrow> (Inl (Error ''Failed to copy thumbnail''), w)))"
  by pat_completeness auto
termination
  by (relation "measure (\<lambda>(i, tempUri, thumbnailUri, lastError, w). 3 - i)") auto

declare copy_attempts.simps [simp del]

definition thumbnails_dir :: "world \<Rightarrow> path" where
  \<comment> \<open>\<^verbatim>\<open>thumbnailDir\<close>, without a final slash\<close>
  "thumbnails_dir w = docDir w @ ''thumbnails''"

definition cleanupOldThumbnails :: "unit io" where
  \<comment> \<open>the \<^verbatim>\<open>finally\<close> block: files of the thumbnail directory older than 24 hours are deleted\<close>
  "cleanupOldThumbnails =
     io_catch
       (io_bind io_get (\<lambda>w.
        io_bind (readDirectoryAsync_io (thumbnails_dir w))
          (\<lambda>tempFiles.
             promise_all
               (map (\<lambda>file. deleteAsync_io (thumbnails_dir w @ ''/'' @ file))
                  (filter (\<lambda>file.
                     case parseInt (digits20 w) (takeWhile (\<lambda>c. c \<noteq> CHR ''_'') file) of
                       None \<Rightarrow> False
                     | Some fileTime \<Rightarrow> clock w - fileTime > 24 * 60 * 60 * 1000)
                   tempFiles)))))
       (\<lambda>e. io_then (log ''Failed to cleanup old thumbnails'') (io_return ()))"

definition generateThumbnail :: "path \<Rightarrow> int \<Rightarrow> path io" where
  "generateThumbnail videoUri timestamp =
     io_finally
       (rethrow ''Thumbnail generation failed''
          (io_then (log ''Starting thumbnail generation'')
          (io_bind io_get (\<lambda>w0.
           io_then (io_catch (makeDirectoryAsync (thumbnails_dir w0))
                      (\<lambda>err. if err = Error ''E_DIR_EXISTS'' then io_return () else io_throw err))
          (io_bind (getThumbnailAsync videoUri)
             (\<lambda>tempUri.
           io_bind generateUUID
             (\<lambda>uuid.
           io_bind io_get (\<lambda>w.
             copy_attempts 0 tempUri
               (thumbnails_dir w @ ''/'' @ string_of_int (clock w) @ ''_'' @ uuid @ ''.jpg'')
               None))))))))
       cleanupOldThumbnails"

function save_attempts :: "nat \<Rightarrow> path \<Rightarrow> json_obj \<Rightarrow> content \<Rightarrow> bool io" where
  \<comment> \<open>the loop \<^verbatim>\<open>while (!saved && attempts < 3)\<close> of \<^verbatim>\<open>processVideo\<close>; the result is \<^verbatim>\<open>saved\<close>\<close>
  "save_attempts attempts metadataPath serviceMeta localMeta w =
     (if attempts < 3 then
        (case promise_all2 (writeAsStringAsync metadataPath localMeta)
                           (saveVideoMetadata serviceMeta) w of
           (Inr r, w') \<Rightarrow> (Inr True, snd (log ''Metadata saved successfully'' w'))
         | (Inl err, w') \<Rightarrow>
             save_attempts (Suc attempts) metadataPath serviceMeta localMeta
               (snd (io_then (log ''Metadata save attempt failed'') (wait 1000) w')))
      else (Inr False, w))"
  by pat_completeness auto
termination
  by (relation "measure (\<lambda>(attempts, metadataPath, serviceMeta, localMeta, w). 3 - attempts)") auto

declare save_attempts.simps [simp del]

definition processVideo :: "path \<Rightarrow> int \<Rightarrow> int \<Rightarrow> string \<Rightarrow> path io" where
  "processVideo sourceUri startTime endTime videoId =
     rethrow ''Video processing failed''
       (io_then (log ''Starting video processing'')
       (io_bind (FileManager_saveVideo sourceUri)
          (\<lambda>finalUri.
        io_then (makeDirectoryAsync (dirname finalUri))
       (io_bind (save_attempts 0 (dirname finalUri @ ''/'' @ videoId @ ''.meta'')
                   \<lparr> j_id = Some videoId, j_uri = Some finalUri, j_startTime = Some startTime,
                     j_endTime = Some endTime, j_duration = Some (endTime - startTime) \<rparr>
                   (sidecar_json startTime endTime))
          (\<lambda>saved.
             if \<not> saved then io_throw (Error ''Failed to save metadata after 3 attempts'')
             else
               io_bind (getMetadata finalUri)
                 (\<lambda>verifyMetadata.
                    if \<not> num_truthy (j_endTime verifyMetadata)
                    then io_throw (Error ''Metadata verification failed'')
                    else io_return finalUri))))))"

subsection \<open>The store \<^verbatim>\<open>useVideoStore\<close>\<close>

definition set_store :: "(VideoEntry store_state \<Rightarrow> VideoEntry store_state) \<Rightarrow> unit io" where
  "set_store f = io_modify (\<lambda>w. w\<lparr>store := f (store w)\<rparr>)"

definition error_message :: "js_error \<Rightarrow> string" where
  "error_message e = (case e of Error msg \<Rightarrow> msg)"

definition useVideoStore_addVideo :: "VideoEntry \<Rightarrow> string io" where
  "useVideoStore_addVideo video =
     io_then (set_store (\<lambda>s. s\<lparr>st_isLoading := True, st_error := None\<rparr>))
       (io_catch
          (io_bind (DatabaseService_addVideo video)
             (\<lambda>finalId.
           io_bind (getVideos None)
             (\<lambda>vs.
           io_then (set_store (\<lambda>s. s\<lparr>st_videos := vs, st_isLoading := False, st_error := None\<rparr>))
                   (io_return finalId))))
          (\<lambda>e. io_then (log ''Failed to add video'')
                (io_then (set_store (\<lambda>s. s\<lparr>st_error := Some (error_message e), st_isLoading := False\<rparr>))
                         (io_throw e))))"


subsection \<open>Creating a memory: the trim dialog, the add screen and the recorder\<close>

text \<open>
  \<^verbatim>\<open>toISOString\<close> of the current time is rendered as the decimal milliseconds of the
  clock; only the order of these strings matters.
\<close>

definition cropModal_saveVideoMetadata :: "json_obj \<Rightarrow> path io" where
  \<comment> \<open>the helper \<^verbatim>\<open>saveVideoMetadata\<close> local to the trim dialog\<close>
  "cropModal_saveVideoMetadata metadata =
     rethrow ''Failed to save video metadata''
       (io_bind io_get (\<lambda>w.
        io_bind generateUUID
          (\<lambda>uuid.
        io_then (makeDirectoryAsync (metadataDir w))
       (io_then (writeAsStringAsync (metadataDir w @ uuid @ ''.json'') (Json metadata))
                (io_return (metadataDir w @ uuid @ ''.json''))))))"

definition handleCropComplete ::
  "path option \<Rightarrow> int \<Rightarrow> int \<Rightarrow> string \<Rightarrow> string \<Rightarrow> string \<Rightarrow> alert list io" where
  "handleCropComplete selectedVideo startTime endTime title description categoryId =
     (case selectedVideo of
        None \<Rightarrow> io_return []
      | Some videoUri \<Rightarrow>
          io_catch
            (io_bind (generateThumbnail videoUri startTime)
               (\<lambda>thumbnailUri.
             io_bind generateUUID
               (\<lambda>newId.
             io_bind io_get (\<lambda>w.
             io_then (useVideoStore_addVideo
                        \<lparr> v_id = newId, v_uri = videoUri, v_thumbnail = thumbnailUri,
                          v_duration = endTime - startTime,
                          v_createdAt = string_of_int (clock w), v_title = title,
                          v_description = Some description, v_startTime = startTime,
                          v_endTime = endTime, v_categoryId = Some categoryId \<rparr>)
                     (io_return [Alert ''Success'' ''Changes saved''])))))
            (\<lambda>e. io_then (log ''Error saving video'') (io_return [Alert ''Error'' ''Error''])))"

definition handleSave ::
  "bool \<Rightarrow> path \<Rightarrow> int \<Rightarrow> int \<Rightarrow> string \<Rightarrow> string \<Rightarrow> string \<Rightarrow> alert list io" where
  \<comment> \<open>\<open>valid\<close> is the result of \<^verbatim>\<open>validateInputs\<close>\<close>
  "handleSave valid videoUri startTime endTime title description selectedCategory =
     (if \<not> valid then io_return []
      else
        io_catch
          (io_then (cropModal_saveVideoMetadata
                      \<lparr> j_id = None, j_uri = Some videoUri, j_startTime = Some startTime,
                        j_endTime = Some endTime, j_duration = Some (endTime - startTime) \<rparr>)
                   (handleCropComplete (Some videoUri) startTime endTime (trim title)
                      (trim description) selectedCategory))
          (\<lambda>e. io_then (log ''Failed to process video'')
                (io_return [Alert ''Error'' ''Failed to process video. Please try again.''])))"

definition handleRecordingFinished :: "path \<Rightarrow> unit io" where
  "handleRecordingFinished uri =
     io_catch
       (io_bind generateUUID
          (\<lambda>videoId.
        io_bind (processVideo uri 0 60 videoId)
          (\<lambda>processedUri.
        io_bind (generateThumbnail processedUri 0)
          (\<lambda>thumbnailUri.
        io_bind io_get (\<lambda>w.
        io_bind (useVideoStore_addVideo
                   \<lparr> v_id = videoId, v_uri = processedUri, v_thumbnail = thumbnailUri,
                     v_duration = 60, v_createdAt = string_of_int (clock w),
                     v_title = ''Recording '' @ string_of_int (clock w),
                     v_description = Some [], v_startTime = 0, v_endTime = 60,
                     v_categoryId = Some ''default'' \<rparr>)
          (\<lambda>_. io_return ()))))))
       (\<lambda>e. io_then (log ''Failed to save recording'') (io_return ()))"

subsection \<open>Reading the trim window back: \<^verbatim>\<open>VideoPlayer\<close>\<close>

definition MAX_METADATA_LOAD_ATTEMPTS :: nat where
  "MAX_METADATA_LOAD_ATTEMPTS = 3"

definition loadMetadata :: "string \<Rightarrow> path \<Rightarrow> nat \<Rightarrow> (json_obj option \<times> bool) io" where
  \<comment> \<open>the metadata the player adopts, if any, and whether the attempt counts as a success\<close>
  "loadMetadata videoId uri attempts =
     io_catch
       (io_then (log ''Starting metadata load attempt'')
       (io_bind (promise_all2 (getVideoMetadata videoId) (getMetadata uri))
          (\<lambda>(serviceMeta, localMeta).
             case serviceMeta of
               Some m \<Rightarrow> io_then (log ''Using service metadata'') (io_return (Some m, True))
             | None \<Rightarrow>
                 if num_truthy (j_endTime localMeta)
                 then io_then (log ''Using local metadata'')
                        (io_return
                           (Some \<lparr> j_id = Some videoId, j_uri = Some uri,
                                   j_startTime = j_startTime localMeta,
                                   j_endTime = j_endTime localMeta,
                                   j_duration =
                                     (case (j_endTime localMeta, j_startTime localMeta) of
                                        (Some e, Some s) \<Rightarrow> Some (e - s)
                                      | _ \<Rightarrow> None) \<rparr>,
                            True))
                 else
                   io_then (log ''No valid metadata found'')
                     (if attempts \<ge> MAX_METADATA_LOAD_ATTEMPTS - 1
                      then io_return
                             (Some \<lparr> j_id = Some videoId, j_uri = Some uri, j_startTime = Some 0,
                                     j_endTime = Some MAX_SAFE_INTEGER, j_duration = Some 0 \<rparr>,
                              True)
                      else io_return (None, False)))))
       (\<lambda>e. io_then (log ''Failed to load metadata'') (io_return (None, False)))"

function attemptMetadataLoad :: "nat \<Rightarrow> string \<Rightarrow> path \<Rightarrow> json_obj option io" where
  "attemptMetadataLoad attempts videoId uri w =
     (if attempts < MAX_METADATA_LOAD_ATTEMPTS then
        (case loadMetadata videoId uri attempts w of
           (Inr (metadata, success), w') \<Rightarrow>
             if success then (Inr metadata, w')
             else attemptMetadataLoad (Suc attempts) videoId uri
                    (snd ((if Suc attempts < MAX_METADATA_LOAD_ATTEMPTS
                           then io_then (log ''Retrying metadata load'') (wait 1000)
                           else io_return ()) w'))
         | (Inl e, w') \<Rightarrow> (Inl e, w'))
      else (Inr None, w))"
  by pat_completeness auto
termination
  by (relation "measure (\<lambda>(attempts, videoId, uri, w). MAX_METADATA_LOAD_ATTEMPTS - attempts)") auto

declare attemptMetadataLoad.simps [simp del]

definition readWindow :: "string \<Rightarrow> path \<Rightarrow> (int option \<times> int option) option io" where
  \<comment> \<open>the trim window of the metadata the player ends up with\<close>
  "readWindow videoId uri =
     io_bind (attemptMetadataLoad 0 videoId uri)
       (\<lambda>metadata. io_return (map_option (\<lambda>m. (j_startTime m, j_endTime m)) metadata))"

subsection \<open>Vocabulary and examples for the properties of the screens\<close>

text \<open>
  \<open>undisturbed t0 ws p c d\<close>: since the trace was \<open>t0\<close> the waits were \<open>ws\<close>, the file
  \<open>p\<close> holds \<open>c\<close> and the tables are \<open>d\<close>.
\<close>

definition undisturbed ::
  "event list \<Rightarrow> int list \<Rightarrow> path \<Rightarrow> content \<Rightarrow> database \<Rightarrow> world \<Rightarrow> bool" where
  "undisturbed t0 ws p c d v =
     ((\<exists>es. trace v = t0 @ es \<and> waits es = ws) \<and> map_of (files v) p = Some c \<and> db v = d)"

text \<open>
  A world in which the file of the indexed store cannot be written: of the calls the
  recorder's handler makes, the fifth, the eighth and the eleventh (the three attempts to
  write \<^verbatim>\<open>metadata/<id>.json\<close>) throw. And a database in which the video has a core
  memory.
\<close>

definition world_disk_full :: world where
  "world_disk_full =
     world_ex\<lparr>faults := [None, None, None, None, Some ''disk full'', None, None, Some ''disk full'',
                          None, None, Some ''disk full'']\<rparr>"



section \<open>Properties of the cache sweep\<close>

subsection \<open>The deletion loop\<close>

lemma remove_paths_Nil: "remove_paths p [] fs = fs"
  by (simp add: remove_paths_def)

lemma remove_paths_Cons:
  "x \<notin> delete_fails p \<Longrightarrow> deleteAsync p x fs = Inr fs' \<Longrightarrow> remove_paths p ps fs' = remove_paths p (x # ps) fs"
  by (auto simp: remove_paths_def deleteAsync_def intro: filter_cong)

lemma sweep_char:
  "\<exists>k\<le>length fl.
     sweep p cur fl (fs, lg) =
       (remove_paths p (map fi_path (deletable p (take k fl))) fs,
        lg @ map (\<lambda>f. FailedToDeleteFile (fi_path f)) (stuck p (take k fl))) \<and>
     (k = length fl \<or> cur - sum_list (map fi_size (deletable p (take k fl))) \<le> MAX_CACHE_SIZE) \<and>
     (\<forall>j<k. MAX_CACHE_SIZE < cur - sum_list (map fi_size (deletable p (take j fl))))"
proof (induction fl arbitrary: cur fs lg)
  case Nil
  then show ?case by (simp add: remove_paths_Nil deletable_def stuck_def)
next
  case (Cons f rest)
  show ?case
  proof (cases "cur \<le> MAX_CACHE_SIZE")
    case True
    then show ?thesis
      by (intro exI[of _ 0]) (simp add: remove_paths_Nil deletable_def stuck_def)
  next
    case over: False
    show ?thesis
    proof (cases "fi_path f \<in> delete_fails p")
      case True
      from Cons.IH[of cur fs "lg @ [FailedToDeleteFile (fi_path f)]"]
      obtain k where k: "k \<le> length rest"
        "sweep p cur rest (fs, lg @ [FailedToDeleteFile (fi_path f)]) =
          (remove_paths p (map fi_path (deletable p (take k rest))) fs,
           (lg @ [FailedToDeleteFile (fi_path f)]) @ map (\<lambda>f. FailedToDeleteFile (fi_path f)) (stuck p (take k rest)))"
        "k = length rest \<or> cur - sum_list (map fi_size (deletable p (take k rest))) \<le> MAX_CACHE_SIZE"
        "\<forall>j<k. MAX_CACHE_SIZE < cur - sum_list (map fi_size (deletable p (take j rest)))"
        by blast
      have all: "\<forall>j<Suc k. MAX_CACHE_SIZE < cur - sum_list (map fi_size (deletable p (take j (f # rest))))"
      proof (intro allI impI)
        fix j assume "j < Suc k"
        then show "MAX_CACHE_SIZE < cur - sum_list (map fi_size (deletable p (take j (f # rest))))"
          using over k(4) True by (cases j) (auto simp: deletable_def)
      qed
      show ?thesis
        apply (intro exI[of _ "Suc k"])
        using k(1,2,3) True over all
        by (simp add: deleteAsync_def deletable_def stuck_def)
    next
      case False
      then obtain fs' where d: "deleteAsync p (fi_path f) fs = Inr fs'"
        by (simp add: deleteAsync_def)
      from Cons.IH[of "cur - fi_size f" fs' lg]
      obtain k where k: "k \<le> length rest"
        "sweep p (cur - fi_size f) rest (fs', lg) =
          (remove_paths p (map fi_path (deletable p (take k rest))) fs',
           lg @ map (\<lambda>f. FailedToDeleteFile (fi_path f)) (stuck p (take k rest)))"
        "k = length rest \<or> cur - fi_size f - sum_list (map fi_size (deletable p (take k rest))) \<le> MAX_CACHE_SIZE"
        "\<forall>j<k. MAX_CACHE_SIZE < cur - fi_size f - sum_list (map fi_size (deletable p (take j rest)))"
        by blast
      have all: "\<forall>j<Suc k. MAX_CACHE_SIZE < cur - sum_list (map fi_size (deletable p (take j (f # rest))))"
      proof (intro allI impI)
        fix j assume "j < Suc k"
        then show "MAX_CACHE_SIZE < cur - sum_list (map fi_size (deletable p (take j (f # rest))))"
          using over k(4) False by (cases j) (auto simp: deletable_def)
      qed
      have rp: "remove_paths p (map fi_path (deletable p (take k rest))) fs' =
                remove_paths p (map fi_path (deletable p (take (Suc k) (f # rest)))) fs"
        using remove_paths_Cons[OF False d] False by (simp add: deletable_def)
      show ?thesis
        apply (intro exI[of _ "Suc k"])
        using k(1,2,3) False over all d rp
        by (simp add: deletable_def stuck_def diff_diff_eq)
    qed
  qed
qed
lemma insort_time_insort_key:
  "fi_time a \<noteq> None \<Longrightarrow> \<forall>b\<in>set bs. fi_time b \<noteq> None \<Longrightarrow>
   insort_time a bs = insort_key (\<lambda>f. the (fi_time f)) a bs"
  by (induction bs) (auto simp: time_le_def)

lemma foldr_insort_time_sort_key:
  "\<forall>f\<in>set fs. fi_time f \<noteq> None \<Longrightarrow> foldr insort_time fs [] = sort_key (\<lambda>f. the (fi_time f)) fs"
proof (induction fs)
  case Nil
  then show ?case by simp
next
  case (Cons a fs)
  then have "foldr insort_time fs [] = sort_key (\<lambda>f. the (fi_time f)) fs" by simp
  moreover have "\<forall>b\<in>set (sort_key (\<lambda>f. the (fi_time f)) fs). fi_time b \<noteq> None"
    using Cons.prems by simp
  ultimately show ?case
    using Cons.prems insort_time_insort_key[of a "sort_key (\<lambda>f. the (fi_time f)) fs"]
    by (simp add: sort_key_def)
qed

lemma sort_by_time_sort_key:
  assumes "\<forall>f\<in>set fs. fi_time f \<noteq> None"
  shows "sort_by_time p fs = sort_key (\<lambda>f. the (fi_time f)) fs"
proof -
  have "consistent_times (map fi_time fs)"
    using assms by (simp add: consistent_times_def list_all_iff)
  then show ?thesis
    using foldr_insort_time_sort_key[OF assms] by (simp add: sort_by_time_def)
qed

lemma mset_insort_time: "mset (insort_time a bs) = add_mset a (mset bs)"
  by (induction bs) auto

lemma mset_foldr_insort_time: "mset (foldr insort_time fs []) = mset fs"
  by (induction fs) (auto simp: mset_insort_time)

lemma mset_permute: "mset (permute ixs xs) = mset xs"
proof (cases "sort ixs = [0..<length xs]")
  case True
  then have "mset ixs = mset [0..<length xs]" by (metis mset_sort)
  then have "mset (map (nth xs) ixs) = mset (map (nth xs) [0..<length xs])"
    by (metis mset_map)
  then show ?thesis using True by (simp add: permute_def map_nth)
next
  case False
  then show ?thesis by (simp add: permute_def)
qed

lemma mset_sort_by_time: "mset (sort_by_time p fs) = mset fs"
  by (simp add: sort_by_time_def mset_foldr_insort_time mset_permute)

lemma paths_fileStats:
  "map fi_path (fileStats p fs (map fst (video_files fs)) (map fst (thumb_files fs))) = all_paths p fs"
  by (simp add: fileStats_def all_paths_def getFileStats_def comp_def)

lemma times_fileStats:
  "map fi_time (fileStats p fs (map fst (video_files fs)) (map fst (thumb_files fs))) =
   map (parseInt (approx20 p)) (map fst (video_files fs @ thumb_files fs))"
  by (simp add: fileStats_def getFileStats_def comp_def)

lemma stat_failed_size:
  "f \<in> set (fileStats p fs vs ts) \<Longrightarrow> fi_path f \<in> stat_fails p \<Longrightarrow> fi_size f = 0"
  by (auto simp: fileStats_def getFileStats_def)

lemma dirs_differ: "VIDEO_DIR p @ a \<noteq> THUMBNAIL_DIR p @ b"
  by (simp add: VIDEO_DIR_def THUMBNAIL_DIR_def)

lemma distinct_all_paths:
  "distinct (map fst (video_files fs)) \<Longrightarrow> distinct (map fst (thumb_files fs)) \<Longrightarrow>
   distinct (all_paths p fs)"
  by (auto simp: all_paths_def distinct_map inj_on_def dirs_differ comp_def)

lemma all_paths_remove:
  "all_paths p (remove_paths p ps fs) = filter (\<lambda>x. x \<notin> set ps) (all_paths p fs)"
  by (simp add: all_paths_def remove_paths_def filter_map comp_def)

lemma survivors_split:
  assumes "distinct (map fi_path S)"
  shows "set (map fi_path S) - set (map fi_path (deletable p (take k S))) =
         set (map fi_path (drop k S)) \<union> set (map fi_path (stuck p (take k S)))"
proof -
  have S: "S = take k S @ drop k S" by simp
  have d: "distinct (map fi_path (take k S) @ map fi_path (drop k S))"
    using assms by (metis S map_append)
  have t: "set (map fi_path (take k S)) =
           set (map fi_path (deletable p (take k S))) \<union> set (map fi_path (stuck p (take k S)))"
    by (auto simp: deletable_def stuck_def)
  have dj: "set (map fi_path (deletable p (take k S))) \<inter> set (map fi_path (stuck p (take k S))) = {}"
    by (auto simp: deletable_def stuck_def)
  have "set (map fi_path S) = set (map fi_path (take k S)) \<union> set (map fi_path (drop k S))"
    by (metis S map_append set_append)
  moreover have "set (map fi_path (take k S)) \<inter> set (map fi_path (drop k S)) = {}"
    using d by simp
  ultimately show ?thesis using t dj by blast
qed

lemma cleanupCache_try_over:
  assumes "VIDEO_DIR p \<notin> list_fails p" "THUMBNAIL_DIR p \<notin> list_fails p"
    and "MAX_CACHE_SIZE < totalSize p fs"
  shows "cleanupCache p (fs, lg) = Inr (sweep p (totalSize p fs) (sortedFiles p fs) (fs, lg))"
  using assms by (simp add: cleanupCache_def cleanupCache_try_def readDirectoryAsync_def sortedFiles_def)

lemma cleanupCache_under:
  "totalSize p fs \<le> MAX_CACHE_SIZE \<Longrightarrow> cleanupCache p (fs, lg) = Inr (fs, lg)"
  by (simp add: cleanupCache_def cleanupCache_try_def)

lemma cleanupCache_unlisted:
  "MAX_CACHE_SIZE < totalSize p fs \<Longrightarrow> VIDEO_DIR p \<in> list_fails p \<or> THUMBNAIL_DIR p \<in> list_fails p \<Longrightarrow>
   cleanupCache p (fs, lg) = Inr (fs, lg @ [CacheCleanupFailed])"
  by (auto simp: cleanupCache_def cleanupCache_try_def readDirectoryAsync_def)

lemma cleanupCache_swept:
  assumes "VIDEO_DIR p \<notin> list_fails p" "THUMBNAIL_DIR p \<notin> list_fails p"
    and "MAX_CACHE_SIZE < totalSize p fs"
  shows "\<exists>k\<le>length (sortedFiles p fs).
     cleanupCache p (fs, lg) =
       Inr (remove_paths p (map fi_path (deletable p (take k (sortedFiles p fs)))) fs,
            lg @ map (\<lambda>f. FailedToDeleteFile (fi_path f)) (stuck p (take k (sortedFiles p fs)))) \<and>
     (k = length (sortedFiles p fs) \<or>
      totalSize p fs - sum_list (map fi_size (deletable p (take k (sortedFiles p fs)))) \<le> MAX_CACHE_SIZE) \<and>
     (\<forall>j<k. MAX_CACHE_SIZE <
        totalSize p fs - sum_list (map fi_size (deletable p (take j (sortedFiles p fs)))))"
  using sweep_char[of "sortedFiles p fs" p "totalSize p fs" fs lg] cleanupCache_try_over[OF assms, of lg]
  by simp

lemma survivors:
  assumes "distinct (map fst (video_files fs))" "distinct (map fst (thumb_files fs))"
  shows "set (all_paths p (remove_paths p (map fi_path (deletable p (take k (sortedFiles p fs)))) fs)) =
         set (map fi_path (drop k (sortedFiles p fs))) \<union>
         set (map fi_path (stuck p (take k (sortedFiles p fs))))"
proof -
  let ?S = "sortedFiles p fs"
  have "mset (map fi_path ?S) = mset (all_paths p fs)"
    unfolding sortedFiles_def by (metis mset_map mset_sort_by_time paths_fileStats)
  then have setS: "set (map fi_path ?S) = set (all_paths p fs)"
    and distS: "distinct (map fi_path ?S)"
    using distinct_all_paths[OF assms, of p] by (metis mset_eq_setD, metis mset_eq_imp_distinct_iff)
  show ?thesis
    using survivors_split[OF distS, of p k] setS by (auto simp: all_paths_remove)
qed

subsection \<open>The budget sweep\<close>

text \<open>
  C8 (as amended). For directories that list no name twice:
  a cache whose reported size is within the budget is left as it is, so that running the
  sweep again changes nothing. Where every listed name starts with a number, the files are
  taken in ascending order of that number, files of the same number in listing order (a
  stable sort). Over budget, when a directory cannot be listed nothing is deleted and the
  failure is logged; otherwise the sweep visits the first \<open>k\<close> files of the order, deletes
  those whose deletion does not throw, logs the others and does not count them as freed;
  it stops at the first point where the running size is within the budget, or when no file
  is left; the surviving files are the files not visited (all but the first \<open>k\<close>)
  together with the visited files whose deletion failed, hence exactly the files not
  visited when no deletion of a visited file failed.
\<close>

theorem cleanupCache_budget:
  assumes names: "distinct (map fst (video_files fs))" "distinct (map fst (thumb_files fs))"
  shows "(totalSize p fs \<le> MAX_CACHE_SIZE \<longrightarrow> cleanupCache p (fs, lg) = Inr (fs, lg)) \<and>
         ((\<forall>n\<in>set (map fst (video_files fs @ thumb_files fs)). parseInt (approx20 p) n \<noteq> None) \<longrightarrow>
          sortedFiles p fs =
            sort_key (\<lambda>f. the (fi_time f))
              (fileStats p fs (map fst (video_files fs)) (map fst (thumb_files fs)))) \<and>
         (MAX_CACHE_SIZE < totalSize p fs \<and>
          (VIDEO_DIR p \<in> list_fails p \<or> THUMBNAIL_DIR p \<in> list_fails p) \<longrightarrow>
            cleanupCache p (fs, lg) = Inr (fs, lg @ [CacheCleanupFailed])) \<and>
         (MAX_CACHE_SIZE < totalSize p fs \<and>
          VIDEO_DIR p \<notin> list_fails p \<and> THUMBNAIL_DIR p \<notin> list_fails p \<longrightarrow>
           (\<exists>k\<le>length (sortedFiles p fs). \<exists>fs'.
              cleanupCache p (fs, lg) =
                Inr (fs', lg @ map (\<lambda>f. FailedToDeleteFile (fi_path f)) (stuck p (take k (sortedFiles p fs)))) \<and>
              fs' = remove_paths p (map fi_path (deletable p (take k (sortedFiles p fs)))) fs \<and>
              set (all_paths p fs') =
                set (map fi_path (drop k (sortedFiles p fs))) \<union>
                set (map fi_path (stuck p (take k (sortedFiles p fs)))) \<and>
              (stuck p (take k (sortedFiles p fs)) = [] \<longrightarrow>
                 set (all_paths p fs') = set (map fi_path (drop k (sortedFiles p fs)))) \<and>
              (k = length (sortedFiles p fs) \<or>
               totalSize p fs - sum_list (map fi_size (deletable p (take k (sortedFiles p fs))))
                 \<le> MAX_CACHE_SIZE) \<and>
              (\<forall>j<k. MAX_CACHE_SIZE <
                 totalSize p fs - sum_list (map fi_size (deletable p (take j (sortedFiles p fs)))))))"
proof (intro conjI impI)
  assume "totalSize p fs \<le> MAX_CACHE_SIZE"
  then show "cleanupCache p (fs, lg) = Inr (fs, lg)" by (rule cleanupCache_under)
next
  assume times: "\<forall>n\<in>set (map fst (video_files fs @ thumb_files fs)). parseInt (approx20 p) n \<noteq> None"
  have "\<forall>f\<in>set (fileStats p fs (map fst (video_files fs)) (map fst (thumb_files fs))). fi_time f \<noteq> None"
  proof
    fix f assume "f \<in> set (fileStats p fs (map fst (video_files fs)) (map fst (thumb_files fs)))"
    then have "fi_time f \<in> set (map fi_time (fileStats p fs (map fst (video_files fs)) (map fst (thumb_files fs))))"
      by simp
    then have "fi_time f \<in> set (map (parseInt (approx20 p)) (map fst (video_files fs @ thumb_files fs)))"
      by (simp only: times_fileStats)
    with times show "fi_time f \<noteq> None" by force
  qed
  then show "sortedFiles p fs =
           sort_key (\<lambda>f. the (fi_time f))
             (fileStats p fs (map fst (video_files fs)) (map fst (thumb_files fs)))"
    unfolding sortedFiles_def by (rule sort_by_time_sort_key)
next
  assume "MAX_CACHE_SIZE < totalSize p fs \<and>
          (VIDEO_DIR p \<in> list_fails p \<or> THUMBNAIL_DIR p \<in> list_fails p)"
  then show "cleanupCache p (fs, lg) = Inr (fs, lg @ [CacheCleanupFailed])"
    using cleanupCache_unlisted by blast
next
  assume a: "MAX_CACHE_SIZE < totalSize p fs \<and>
          VIDEO_DIR p \<notin> list_fails p \<and> THUMBNAIL_DIR p \<notin> list_fails p"
  let ?S = "sortedFiles p fs"
  from a cleanupCache_swept[of p fs lg]
  obtain k where k: "k \<le> length ?S"
    "cleanupCache p (fs, lg) =
       Inr (remove_paths p (map fi_path (deletable p (take k ?S))) fs,
            lg @ map (\<lambda>f. FailedToDeleteFile (fi_path f)) (stuck p (take k ?S)))"
    "k = length ?S \<or> totalSize p fs - sum_list (map fi_size (deletable p (take k ?S))) \<le> MAX_CACHE_SIZE"
    "\<forall>j<k. MAX_CACHE_SIZE < totalSize p fs - sum_list (map fi_size (deletable p (take j ?S)))"
    by blast
  note surv = survivors[OF names, of p k]
  show "\<exists>k\<le>length ?S. \<exists>fs'.
              cleanupCache p (fs, lg) =
                Inr (fs', lg @ map (\<lambda>f. FailedToDeleteFile (fi_path f)) (stuck p (take k ?S))) \<and>
              fs' = remove_paths p (map fi_path (deletable p (take k ?S))) fs \<and>
              set (all_paths p fs') =
                set (map fi_path (drop k ?S)) \<union> set (map fi_path (stuck p (take k ?S))) \<and>
              (stuck p (take k ?S) = [] \<longrightarrow>
                 set (all_paths p fs') = set (map fi_path (drop k ?S))) \<and>
              (k = length ?S \<or>
               totalSize p fs - sum_list (map fi_size (deletable p (take k ?S))) \<le> MAX_CACHE_SIZE) \<and>
              (\<forall>j<k. MAX_CACHE_SIZE <
                 totalSize p fs - sum_list (map fi_size (deletable p (take j ?S))))"
    using k surv by (intro exI[of _ k]) simp
qed

text \<open>
  The claim as stated fails when a deletion fails: with 600MB in the cache and the oldest
  file undeletable, the second oldest file is deleted and the oldest one survives, so the
  survivors are not the most recent files.
\<close>

theorem cleanupCache_budget_counterexample:
  "cleanupCache platform_ex (fsys_ex, []) =
     Inr (\<lparr> video_files = [(''3.mp4'', 104857600), (''1.mp4'', 314572800)], thumb_files = [] \<rparr>,
          [FailedToDeleteFile ''/doc/videos/1.mp4''])"
  by (simp add: cleanupCache_def cleanupCache_try_def platform_ex_def fsys_ex_def totalSize_def
      getDirSize_def VIDEO_DIR_def THUMBNAIL_DIR_def MAX_CACHE_SIZE_def readDirectoryAsync_def
      fileStats_def getFileStats_def sort_by_time_def consistent_times_def time_le_def parseInt_def
      strip_sign_def strip_radix_def digit_of_def to_double_def is_js_space_def deleteAsync_def Let_def)

theorem cleanupCache_budget_witness:
  "distinct (map fst (video_files fsys_ex)) \<and>
   distinct (map fst (thumb_files fsys_ex)) \<and>
   map (parseInt (approx20 platform_ex)) (map fst (video_files fsys_ex @ thumb_files fsys_ex)) =
     [Some 3, Some 1, Some 2] \<and>
   map fi_name (sortedFiles platform_ex fsys_ex) = [''1.mp4'', ''2.mp4'', ''3.mp4''] \<and>
   MAX_CACHE_SIZE < totalSize platform_ex fsys_ex \<and>
   VIDEO_DIR platform_ex \<notin> list_fails platform_ex \<and>
   THUMBNAIL_DIR platform_ex \<notin> list_fails platform_ex \<and>
   (\<exists>k\<le>length (sortedFiles platform_ex fsys_ex). \<exists>fs'.
      cleanupCache platform_ex (fsys_ex, []) =
        Inr (fs', [] @ map (\<lambda>f. FailedToDeleteFile (fi_path f))
                        (stuck platform_ex (take k (sortedFiles platform_ex fsys_ex)))) \<and>
      set (all_paths platform_ex fs') =
        set (map fi_path (drop k (sortedFiles platform_ex fsys_ex))) \<union>
        set (map fi_path (stuck platform_ex (take k (sortedFiles platform_ex fsys_ex)))))"
proof -
  have l: "VIDEO_DIR platform_ex \<notin> list_fails platform_ex"
    "THUMBNAIL_DIR platform_ex \<notin> list_fails platform_ex"
    by (simp_all add: platform_ex_def)
  have d1: "distinct (map fst (video_files fsys_ex))"
    and d2: "distinct (map fst (thumb_files fsys_ex))"
    by (simp_all add: fsys_ex_def)
  have t: "map (parseInt (approx20 platform_ex)) (map fst (video_files fsys_ex @ thumb_files fsys_ex)) =
      [Some 3, Some 1, Some 2]"
    by (simp add: fsys_ex_def platform_ex_def parseInt_def strip_sign_def strip_radix_def
        digit_of_def to_double_def is_js_space_def Let_def)
  then have t': "\<forall>n\<in>set (map fst (video_files fsys_ex @ thumb_files fsys_ex)).
      parseInt (approx20 platform_ex) n \<noteq> None"
    by (simp add: fsys_ex_def)
  have over: "MAX_CACHE_SIZE < totalSize platform_ex fsys_ex"
    by (simp add: totalSize_def getDirSize_def platform_ex_def fsys_ex_def MAX_CACHE_SIZE_def)
  note budget = cleanupCache_budget[OF d1 d2, of platform_ex "[]"]
  from budget t' have "sortedFiles platform_ex fsys_ex =
      sort_key (\<lambda>f. the (fi_time f))
        (fileStats platform_ex fsys_ex (map fst (video_files fsys_ex)) (map fst (thumb_files fsys_ex)))"
    by blast
  then have s: "map fi_name (sortedFiles platform_ex fsys_ex) = [''1.mp4'', ''2.mp4'', ''3.mp4'']"
    by (simp add: fsys_ex_def platform_ex_def fileStats_def getFileStats_def parseInt_def
        strip_sign_def strip_radix_def digit_of_def to_double_def is_js_space_def sort_key_def Let_def)
  from budget over l d1 d2 t s show ?thesis by blast
qed

subsection \<open>The sweep never throws\<close>

text \<open>
  C10 (as amended). Whatever the file system holds and whichever of its calls throw, the
  sweep returns normally and only adds to the log. A failing stat is caught without a log
  line: a directory whose stat fails counts as size 0, and so does a listed file whose
  stat fails. A cache that counts as within the budget is left alone and nothing is
  logged. Over budget, a listing that fails is logged and nothing is deleted; otherwise
  the log receives one line for each visited file whose deletion failed, in the order of
  the visit. The hook's \<^verbatim>\<open>addVideo\<close> fails exactly when one of its own two storage
  calls fails, never because of the sweep.
\<close>

theorem cleanupCache_never_raises:
  "(\<exists>fs' lg'. cleanupCache p (fs, lg) = Inr (fs', lg @ lg')) \<and>
   totalSize p fs =
     (if VIDEO_DIR p \<in> stat_fails p then 0 else du p (video_files fs)) +
     (if THUMBNAIL_DIR p \<in> stat_fails p then 0 else du p (thumb_files fs)) \<and>
   (\<forall>f\<in>set (sortedFiles p fs). fi_path f \<in> stat_fails p \<longrightarrow> fi_size f = 0) \<and>
   (totalSize p fs \<le> MAX_CACHE_SIZE \<longrightarrow> cleanupCache p (fs, lg) = Inr (fs, lg)) \<and>
   (MAX_CACHE_SIZE < totalSize p fs \<and>
    (VIDEO_DIR p \<in> list_fails p \<or> THUMBNAIL_DIR p \<in> list_fails p) \<longrightarrow>
      cleanupCache p (fs, lg) = Inr (fs, lg @ [CacheCleanupFailed])) \<and>
   (MAX_CACHE_SIZE < totalSize p fs \<and>
    VIDEO_DIR p \<notin> list_fails p \<and> THUMBNAIL_DIR p \<notin> list_fails p \<longrightarrow>
      (\<exists>k\<le>length (sortedFiles p fs).
         cleanupCache p (fs, lg) =
           Inr (remove_paths p (map fi_path (deletable p (take k (sortedFiles p fs)))) fs,
                lg @ map (\<lambda>f. FailedToDeleteFile (fi_path f)) (stuck p (take k (sortedFiles p fs)))))) \<and>
   fst (useVideos_addVideo p getItem_fails setItem_fails v (item, (fs, lg))) =
     (if getItem_fails \<or> setItem_fails then Inl AsyncStorageError
      else Inr (v # (case item of None \<Rightarrow> [] | Some vs \<Rightarrow> vs)))"
proof -
  have under: "totalSize p fs \<le> MAX_CACHE_SIZE \<longrightarrow> cleanupCache p (fs, lg) = Inr (fs, lg)"
    using cleanupCache_under by blast
  have unlisted: "MAX_CACHE_SIZE < totalSize p fs \<and>
    (VIDEO_DIR p \<in> list_fails p \<or> THUMBNAIL_DIR p \<in> list_fails p) \<longrightarrow>
      cleanupCache p (fs, lg) = Inr (fs, lg @ [CacheCleanupFailed])"
    using cleanupCache_unlisted by blast
  have swept: "MAX_CACHE_SIZE < totalSize p fs \<and>
    VIDEO_DIR p \<notin> list_fails p \<and> THUMBNAIL_DIR p \<notin> list_fails p \<longrightarrow>
      (\<exists>k\<le>length (sortedFiles p fs).
         cleanupCache p (fs, lg) =
           Inr (remove_paths p (map fi_path (deletable p (take k (sortedFiles p fs)))) fs,
                lg @ map (\<lambda>f. FailedToDeleteFile (fi_path f)) (stuck p (take k (sortedFiles p fs)))))"
    using cleanupCache_swept[of p fs lg] by blast
  have returns: "\<exists>fs' lg'. cleanupCache p (fs, lg) = Inr (fs', lg @ lg')"
  proof (cases "totalSize p fs \<le> MAX_CACHE_SIZE")
    case True
    with under have "cleanupCache p (fs, lg) = Inr (fs, lg @ [])" by simp
    then show ?thesis by blast
  next
    case False
    then show ?thesis using unlisted swept by (metis not_le)
  qed
  have total: "totalSize p fs =
     (if VIDEO_DIR p \<in> stat_fails p then 0 else du p (video_files fs)) +
     (if THUMBNAIL_DIR p \<in> stat_fails p then 0 else du p (thumb_files fs))"
    by (simp add: totalSize_def getDirSize_def)
  have sizes: "\<forall>f\<in>set (sortedFiles p fs). fi_path f \<in> stat_fails p \<longrightarrow> fi_size f = 0"
  proof (intro ballI impI)
    fix f assume "f \<in> set (sortedFiles p fs)" and st: "fi_path f \<in> stat_fails p"
    then have "f \<in># mset (sortedFiles p fs)" by simp
    then have "f \<in> set (fileStats p fs (map fst (video_files fs)) (map fst (thumb_files fs)))"
      unfolding sortedFiles_def mset_sort_by_time by simp
    then show "fi_size f = 0" using st by (rule stat_failed_size)
  qed
  from returns obtain fs' lg' where "cleanupCache p (fs, lg) = Inr (fs', lg @ lg')" by blast
  then have hook: "fst (useVideos_addVideo p getItem_fails setItem_fails v (item, (fs, lg))) =
     (if getItem_fails \<or> setItem_fails then Inl AsyncStorageError
      else Inr (v # (case item of None \<Rightarrow> [] | Some vs \<Rightarrow> vs)))"
    by (auto simp: useVideos_addVideo_def fetchVideos_def saveVideos_def)
  from returns total sizes under unlisted swept hook show ?thesis by blast
qed

text \<open>
  The claim as stated fails for a stat that fails: it is caught, but nothing is logged.
  With 600MB in the cache and the stat of the video directory failing, the cache counts
  as empty; the sweep deletes nothing and logs nothing.
\<close>

theorem cleanupCache_never_raises_counterexample:
  "VIDEO_DIR (platform_ex\<lparr>stat_fails := {''/doc/videos/''}\<rparr>) \<in>
     stat_fails (platform_ex\<lparr>stat_fails := {''/doc/videos/''}\<rparr>) \<and>
   sum_list (map snd (video_files fsys_ex)) = 629145600 \<and>
   cleanupCache (platform_ex\<lparr>stat_fails := {''/doc/videos/''}\<rparr>) (fsys_ex, []) = Inr (fsys_ex, [])"
  by (simp add: cleanupCache_def cleanupCache_try_def platform_ex_def fsys_ex_def totalSize_def
      getDirSize_def VIDEO_DIR_def THUMBNAIL_DIR_def MAX_CACHE_SIZE_def)

theorem cleanupCache_never_raises_witness:
  "MAX_CACHE_SIZE < totalSize platform_ex fsys_ex \<and>
   VIDEO_DIR platform_ex \<notin> list_fails platform_ex \<and>
   THUMBNAIL_DIR platform_ex \<notin> list_fails platform_ex \<and>
   (\<exists>k\<le>length (sortedFiles platform_ex fsys_ex).
      cleanupCache platform_ex (fsys_ex, []) =
        Inr (remove_paths platform_ex
               (map fi_path (deletable platform_ex (take k (sortedFiles platform_ex fsys_ex)))) fsys_ex,
             [] @ map (\<lambda>f. FailedToDeleteFile (fi_path f))
                    (stuck platform_ex (take k (sortedFiles platform_ex fsys_ex))))) \<and>
   MAX_CACHE_SIZE < totalSize (platform_ex\<lparr>list_fails := {''/doc/thumbnails/''}\<rparr>) fsys_ex \<and>
   cleanupCache (platform_ex\<lparr>list_fails := {''/doc/thumbnails/''}\<rparr>) (fsys_ex, []) =
     Inr (fsys_ex, [] @ [CacheCleanupFailed]) \<and>
   fst (useVideos_addVideo platform_ex False True (1::nat) (Some [2, 3], (fsys_ex, []))) =
     Inl AsyncStorageError \<and>
   fst (useVideos_addVideo platform_ex False False (1::nat) (Some [2, 3], (fsys_ex, []))) =
     Inr [1, 2, 3]"
proof -
  have l: "VIDEO_DIR platform_ex \<notin> list_fails platform_ex"
    "THUMBNAIL_DIR platform_ex \<notin> list_fails platform_ex"
    by (simp_all add: platform_ex_def)
  have over: "MAX_CACHE_SIZE < totalSize platform_ex fsys_ex"
    by (simp add: totalSize_def getDirSize_def platform_ex_def fsys_ex_def MAX_CACHE_SIZE_def)
  have over': "MAX_CACHE_SIZE < totalSize (platform_ex\<lparr>list_fails := {''/doc/thumbnails/''}\<rparr>) fsys_ex"
    by (simp add: totalSize_def getDirSize_def platform_ex_def fsys_ex_def MAX_CACHE_SIZE_def)
  have l': "THUMBNAIL_DIR (platform_ex\<lparr>list_fails := {''/doc/thumbnails/''}\<rparr>) \<in>
      list_fails (platform_ex\<lparr>list_fails := {''/doc/thumbnails/''}\<rparr>)"
    by (simp add: platform_ex_def THUMBNAIL_DIR_def)
  from cleanupCache_never_raises[of platform_ex fsys_ex "[]" False True "1::nat" "Some [2, 3]"]
    cleanupCache_never_raises[of platform_ex fsys_ex "[]" False False "1::nat" "Some [2, 3]"]
    cleanupCache_never_raises[of "platform_ex\<lparr>list_fails := {''/doc/thumbnails/''}\<rparr>" fsys_ex "[]"
      False False "1::nat" "Some [2, 3]"]
    l over over' l'
  show ?thesis by simp
qed

section \<open>Properties of the repository\<close>

subsection \<open>Unfolding the combinators\<close>

lemmas io_defs = io_return_def io_throw_def io_bind_def io_then_def io_catch_def io_modify_def
  log_def io_call_def io_get_def rethrow_def execSql_def querySql_def

lemma io_call_Inr:
  assumes "io_call l run w = (Inr x, w')"
  obtains w1 where "run (w\<lparr>faults := tl (faults w)\<rparr>) = (Inr x, w1)"
    and "w' = w1\<lparr>trace := trace w1 @ [Call l True]\<rparr>"
  using assms unfolding io_call_def
  by (auto split: list.splits option.splits prod.splits sum.splits)

lemma io_call_Inl:
  assumes "io_call l run w = (Inl e, w')"
  obtains msg rest where "faults w = Some msg # rest"
      "w' = w\<lparr>faults := rest, trace := trace w @ [Call l False]\<rparr>"
  | msg w1 where "run (w\<lparr>faults := tl (faults w)\<rparr>) = (Inl msg, w1)"
      "w' = w1\<lparr>trace := trace w1 @ [Call l False]\<rparr>"
  using assms unfolding io_call_def
  by (auto split: list.splits option.splits prod.splits sum.splits)

lemma bind_Inr:
  assumes "io_bind m f w = (Inr y, w')"
  obtains x w1 where "m w = (Inr x, w1)" "f x w1 = (Inr y, w')"
  using assms unfolding io_bind_def by (auto split: prod.splits sum.splits)

lemma then_Inr:
  assumes "io_then m n w = (Inr y, w')"
  obtains x w1 where "m w = (Inr x, w1)" "n w1 = (Inr y, w')"
  using assms unfolding io_then_def by (rule bind_Inr)

lemma then_Inl:
  assumes "io_then m n w = (Inl e, w')"
  obtains "m w = (Inl e, w')"
  | x w1 where "m w = (Inr x, w1)" "n w1 = (Inl e, w')"
  using assms unfolding io_then_def io_bind_def by (auto split: prod.splits sum.splits)

lemma begin_Inr:
  assumes "beginTransaction w = (Inr x, w')"
  shows "txn w = None \<and> db w' = db w \<and> txn w' = Some (db w) \<and> foreign_keys w' = foreign_keys w \<and>
         trace w' = trace w @ [Call (Sql ''BEGIN TRANSACTION'') True]"
  using assms unfolding beginTransaction_def
  by (elim io_call_Inr) (auto split: option.splits)

lemma begin_Inl:
  assumes "beginTransaction w = (Inl e, w')"
  shows "db w' = db w \<and> txn w' = txn w"
  using assms unfolding beginTransaction_def
  by (elim io_call_Inl) (auto split: option.splits)

lemma commit_Inr:
  assumes "commit w = (Inr x, w')"
  shows "db w' = db w \<and> txn w' = None \<and> trace w' = trace w @ [Call (Sql ''COMMIT'') True]"
  using assms unfolding commit_def
  by (elim io_call_Inr) (auto split: option.splits)

lemma commit_Inl:
  assumes "commit w = (Inl e, w')"
  shows "db w' = db w \<and> txn w' = txn w"
  using assms unfolding commit_def
  by (elim io_call_Inl) (auto split: option.splits)

lemma rollback_any:
  "committed (snd (rollback w)) = committed w"
  unfolding rollback_def io_call_def committed_def
  by (auto split: list.splits option.splits prod.splits sum.splits)

lemma exec_Inr:
  assumes "execSql l f w = (Inr x, w')"
  shows "f (foreign_keys w) (db w) = Inr (db w') \<and> txn w' = txn w \<and>
         foreign_keys w' = foreign_keys w \<and> trace w' = trace w @ [Call (Sql l) True]"
  using assms unfolding execSql_def
  by (elim io_call_Inr) (auto split: sum.splits)

lemma exec_Inl:
  assumes "execSql l f w = (Inl e, w')"
  shows "db w' = db w \<and> txn w' = txn w"
  using assms unfolding execSql_def
  by (elim io_call_Inl) (auto split: sum.splits)

lemma exec_txn: "txn (snd (execSql l f w)) = txn w"
  unfolding execSql_def io_call_def
  by (auto split: list.splits option.splits prod.splits sum.splits)

lemma log_simps: "log msg w = (Inr (), w\<lparr>console := console w @ [msg]\<rparr>)"
  by (simp add: log_def io_modify_def)

lemma rethrow_Inr:
  assumes "rethrow msg m w = (Inr x, w')"
  shows "m w = (Inr x, w')"
  using assms unfolding rethrow_def io_catch_def io_then_def io_bind_def io_throw_def log_def io_modify_def
  by (auto split: prod.splits sum.splits)

lemma rethrow_Inl:
  assumes "rethrow msg m w = (Inl e, w')"
  obtains w1 where "m w = (Inl e, w1)" "w' = w1\<lparr>console := console w1 @ [msg]\<rparr>"
  using assms unfolding rethrow_def io_catch_def io_then_def io_bind_def io_throw_def log_def io_modify_def
  by (auto split: prod.splits sum.splits)

lemma catch_rollback_Inr:
  assumes "io_catch m (\<lambda>e. io_then rollback (io_throw e)) w = (Inr x, w')"
  shows "m w = (Inr x, w')"
  using assms unfolding io_catch_def io_then_def io_bind_def io_throw_def
  by (auto split: prod.splits sum.splits)

lemma catch_rollback_Inl:
  assumes "io_catch m (\<lambda>e. io_then rollback (io_throw e)) w = (Inl e, w')"
  obtains e0 w1 where "m w = (Inl e0, w1)" "w' = snd (rollback w1)"
  using assms unfolding io_catch_def io_then_def io_bind_def io_throw_def
  by (auto split: prod.splits sum.splits)

lemma deleteCategory_alt:
  "deleteCategory cid =
     rethrow ''Error deleting category''
       (io_then beginTransaction
          (io_catch (deleteCategory_body cid) (\<lambda>e. io_then rollback (io_throw e))))"
  by (simp add: deleteCategory_def deleteCategory_body_def)

subsection \<open>\<^verbatim>\<open>retryOperation\<close>\<close>

lemma log_wait: "snd (io_then (log ''Database locked, retrying'') (wait delay) w) = waited delay w"
  by (simp add: io_defs wait_def waited_def)

lemma retry_step:
  "retry_from i operation maxRetries delay w =
     (if i < maxRetries then
        (case operation w of
           (Inr x, w') \<Rightarrow> (Inr x, w')
         | (Inl e, w') \<Rightarrow>
             if i = maxRetries - 1 then (Inl e, w')
             else if is_locked e then retry_from (Suc i) operation maxRetries delay (waited delay w')
             else (Inl e, w'))
      else (Inl (Error ''Max retries reached''), w))"
  by (subst retry_from.simps) (simp only: log_wait)

lemma retry_unrolled:
  "retryOperation operation 3 delay w =
     (case operation w of
        (Inr x, w1) \<Rightarrow> (Inr x, w1)
      | (Inl e1, w1) \<Rightarrow>
          if \<not> is_locked e1 then (Inl e1, w1)
          else (case operation (waited delay w1) of
                  (Inr x, w2) \<Rightarrow> (Inr x, w2)
                | (Inl e2, w2) \<Rightarrow>
                    if \<not> is_locked e2 then (Inl e2, w2)
                    else operation (waited delay w2)))"
proof -
  have third: "retry_from (Suc (Suc 0)) operation 3 delay v = operation v" for v
    by (subst retry_step) (auto split: prod.splits sum.splits)
  have second: "retry_from (Suc 0) operation 3 delay v =
     (case operation v of
        (Inr x, w2) \<Rightarrow> (Inr x, w2)
      | (Inl e2, w2) \<Rightarrow> if \<not> is_locked e2 then (Inl e2, w2) else operation (waited delay w2))" for v
    by (subst retry_step) (auto split: prod.splits sum.splits simp: third)
  show ?thesis
    unfolding retryOperation_def
    by (subst retry_step) (auto split: prod.splits sum.splits simp: second)
qed

subsection \<open>An initialised, healthy database\<close>

lemma verify_healthy:
  "healthy (db w) \<Longrightarrow> faults w = [] \<Longrightarrow>
   verifyDatabaseHealth w =
     (Inr True, w\<lparr>trace := trace w @ [Call (Sql ''SELECT name FROM sqlite_master (required tables)'') True]\<rparr>)"
  by (auto simp: verifyDatabaseHealth_def io_defs healthy_def sql_select_tables_def
      existing_tables_def requiredTables_def)

lemma ensureSetup_ready:
  "healthy (db w) \<Longrightarrow> faults w = [] \<Longrightarrow> isInitialized w \<Longrightarrow>
   ensureSetup w =
     (Inr (), w\<lparr>trace := trace w @
        [Call (Sql ''SELECT name FROM sqlite_master (required tables)'') True,
         Call (Sql ''SELECT name FROM sqlite_master (required tables)'') True]\<rparr>)"
  by (simp add: ensureSetup_def setupDatabase_def verify_healthy io_defs)

lemma verify_healthy':
  "healthy (db w) \<Longrightarrow> faults w = None # r \<Longrightarrow>
   verifyDatabaseHealth w =
     (Inr True, w\<lparr>faults := r, trace := trace w @ [Call (Sql ''SELECT name FROM sqlite_master (required tables)'') True]\<rparr>)"
  by (auto simp: verifyDatabaseHealth_def io_defs healthy_def sql_select_tables_def
      existing_tables_def requiredTables_def)

lemma ensureSetup_ready':
  "healthy (db w) \<Longrightarrow> faults w = None # None # r \<Longrightarrow> isInitialized w \<Longrightarrow>
   ensureSetup w =
     (Inr (), w\<lparr>faults := r, trace := trace w @
        [Call (Sql ''SELECT name FROM sqlite_master (required tables)'') True,
         Call (Sql ''SELECT name FROM sqlite_master (required tables)'') True]\<rparr>)"
  by (simp add: ensureSetup_def setupDatabase_def verify_healthy' io_defs)

lemma addVideo_locked:
  "healthy (db w) \<Longrightarrow> isInitialized w \<Longrightarrow> faults w = None # None # Some msg # rest \<Longrightarrow>
   DatabaseService_addVideo video w =
     (Inl (Error msg),
      w\<lparr>faults := rest,
        trace := trace w @
          [Call (Sql ''SELECT name FROM sqlite_master (required tables)'') True,
           Call (Sql ''SELECT name FROM sqlite_master (required tables)'') True,
           Call (Sql ''BEGIN TRANSACTION'') False],
        console := console w @ [''Error adding video'']\<rparr>)"
  by (simp add: DatabaseService_addVideo_def ensureSetup_ready' beginTransaction_def io_defs)

subsection \<open>Category references survive every statement\<close>

text \<open>The combinators keep whatever their parts keep.\<close>

lemma keeps_return: "keeps P (io_return x)"
  and keeps_throw: "keeps P (io_throw e)"
  and keeps_get: "keeps P io_get"
  by (simp_all add: keeps_def io_return_def io_throw_def io_get_def)

lemma keeps_bind:
  "keeps P m \<Longrightarrow> (\<And>x. keeps P (f x)) \<Longrightarrow> keeps P (io_bind m f)"
  unfolding keeps_def io_bind_def
  by (auto split: prod.splits sum.splits)

lemma keeps_then: "keeps P m \<Longrightarrow> keeps P n \<Longrightarrow> keeps P (io_then m n)"
  unfolding io_then_def by (rule keeps_bind)

lemma keeps_catch:
  "keeps P m \<Longrightarrow> (\<And>e. keeps P (h e)) \<Longrightarrow> keeps P (io_catch m h)"
  unfolding keeps_def io_catch_def
  by (auto split: prod.splits sum.splits)

lemma keeps_if: "keeps P a \<Longrightarrow> keeps P b \<Longrightarrow> keeps P (if c then a else b)"
  by simp

lemma keeps_list_case:
  "keeps P a \<Longrightarrow> (\<And>x xs. keeps P (b x xs)) \<Longrightarrow> keeps P (case l of [] \<Rightarrow> a | x # xs \<Rightarrow> b x xs)"
  by (cases l) simp_all

lemma keeps_call:
  assumes run: "\<And>w. P w \<Longrightarrow> P (snd (run w))"
    and t: "\<And>w b. P w \<Longrightarrow> P (w\<lparr>trace := trace w @ [Call label b]\<rparr>)"
    and f: "\<And>w fs. P w \<Longrightarrow> P (w\<lparr>faults := fs\<rparr>)"
  shows "keeps P (io_call label run)"
  unfolding keeps_def
proof (intro allI impI)
  fix w assume e: "P w"
  have r: "P (snd (run (w\<lparr>faults := fs\<rparr>)))" for fs using run e f by blast
  show "P (snd (io_call label run w))"
  proof (cases "faults w")
    case Nil
    obtain x v where v: "run (w\<lparr>faults := tl (faults w)\<rparr>) = (x, v)"
      by (cases "run (w\<lparr>faults := tl (faults w)\<rparr>)")
    then have "P v" using r[of "tl (faults w)"] by simp
    then have "P (v\<lparr>trace := trace v @ [Call label b]\<rparr>)" for b by (rule t)
    then show ?thesis using Nil v by (cases x) (simp_all add: io_call_def)
  next
    case (Cons a rest)
    show ?thesis
    proof (cases a)
      case None
      obtain x v where v: "run (w\<lparr>faults := tl (faults w)\<rparr>) = (x, v)"
        by (cases "run (w\<lparr>faults := tl (faults w)\<rparr>)")
      then have "P v" using r[of "tl (faults w)"] by simp
      then have "P (v\<lparr>trace := trace v @ [Call label b]\<rparr>)" for b by (rule t)
      then show ?thesis using Cons None v by (cases x) (simp_all add: io_call_def)
    next
      case (Some msg)
      have "P (w\<lparr>faults := rest\<rparr>)" using e by (rule f)
      then have "P (w\<lparr>faults := rest\<rparr>\<lparr>trace := trace (w\<lparr>faults := rest\<rparr>) @ [Call label False]\<rparr>)"
        by (rule t)
      then show ?thesis using Cons Some by (simp add: io_call_def)
    qed
  qed
qed

lemma keeps_retry:
  assumes "keeps P operation" and "keeps P (io_then (log ''Database locked, retrying'') (wait delay))"
  shows "keeps P (retry_from i operation maxRetries delay)"
proof -
  have "P w \<Longrightarrow> P (snd (retry_from i operation maxRetries delay w))" for w
  proof (induction "maxRetries - i" arbitrary: i w)
    case 0
    then have "\<not> i < maxRetries" by simp
    then have "retry_from i operation maxRetries delay w = (Inl (Error ''Max retries reached''), w)"
      by (subst retry_from.simps) simp
    with 0 show ?case by simp
  next
    case (Suc n)
    then have lt: "i < maxRetries" by simp
    obtain r w' where r: "operation w = (r, w')" by (cases "operation w")
    have op: "P w'"
      using assms(1) Suc.prems r by (auto simp: keeps_def dest!: spec[of _ w])
    let ?v = "snd (io_then (log ''Database locked, retrying'') (wait delay) w')"
    have v: "P ?v"
      using assms(2) op by (simp add: keeps_def)
    have n: "n = maxRetries - Suc i" using Suc.hyps(2) by simp
    have next_ok: "P (snd (retry_from (Suc i) operation maxRetries delay ?v))"
      using Suc.hyps(1)[OF n v] .
    show ?case
    proof (cases r)
      case (Inr x)
      then have "retry_from i operation maxRetries delay w = (Inr x, w')"
        using lt r by (subst retry_from.simps) simp
      with op show ?thesis by simp
    next
      case (Inl e)
      then have "retry_from i operation maxRetries delay w =
          (if i = maxRetries - 1 then (Inl e, w')
           else if is_locked e then retry_from (Suc i) operation maxRetries delay ?v
           else (Inl e, w'))"
        using lt r by (subst retry_from.simps) simp
      with op next_ok show ?thesis by simp
    qed
  qed
  then show ?thesis by (simp add: keeps_def)
qed

text \<open>What the primitives do to \<open>enforced\<close>.\<close>

lemma enforced_log: "keeps enforced (log msg)"
  and enforced_wait: "keeps enforced (wait ms)"
  and enforced_uuid: "keeps enforced generateUUID"
  by (simp_all add: keeps_def io_defs wait_def generateUUID_def enforced_def)

lemma enforced_rethrow: "keeps enforced m \<Longrightarrow> keeps enforced (rethrow msg m)"
  unfolding rethrow_def by (intro keeps_catch keeps_then enforced_log keeps_throw)

lemma enforced_flags:
  "keeps enforced (io_modify (\<lambda>w. w\<lparr>isInitialized := a\<rparr>))"
  "keeps enforced (io_modify (\<lambda>w. w\<lparr>initializationPromise := b\<rparr>))"
  "keeps enforced (io_modify (\<lambda>w. w\<lparr>isInitialized := a, initializationPromise := b\<rparr>))"
  "keeps enforced (io_modify (\<lambda>w. w\<lparr>initializationPromise := b, isInitialized := a\<rparr>))"
  by (simp_all add: keeps_def io_defs enforced_def)

lemma enforced_call:
  assumes "\<And>w. enforced w \<Longrightarrow> enforced (snd (run w))"
  shows "keeps enforced (io_call label run)"
  by (rule keeps_call) (use assms in \<open>auto simp: enforced_def\<close>)

lemma refs_okI:
  assumes "\<And>vs v. videos d = Some vs \<Longrightarrow> v \<in> set vs \<Longrightarrow> category_ref_ok d (v_categoryId v)"
  shows "refs_ok d"
  using assms by (auto simp: refs_ok_def list_all_iff split: option.splits)

lemma refs_okD:
  "refs_ok d \<Longrightarrow> videos d = Some vs \<Longrightarrow> v \<in> set vs \<Longrightarrow> category_ref_ok d (v_categoryId v)"
  by (auto simp: refs_ok_def list_all_iff)

lemma ref_ok_same_categories:
  "categories d' = categories d \<Longrightarrow> category_ref_ok d' r = category_ref_ok d r"
  by (cases r) (simp_all add: category_ref_ok_def)

lemma ok_insert_video:
  assumes "refs_ok d" "sql_insert_video row True d = Inr d'"
  shows "refs_ok d'"
proof -
  from assms(2) obtain vs where vs: "videos d = Some vs"
    and ok: "category_ref_ok d (v_categoryId row)"
    and d': "d' = d\<lparr>videos := Some (vs @ [row])\<rparr>"
    by (auto simp: sql_insert_video_def split: option.splits if_splits)
  have c: "categories d' = categories d" by (simp add: d')
  show ?thesis
  proof (rule refs_okI)
    fix ws v assume "videos d' = Some ws" "v \<in> set ws"
    then have "v \<in> set vs \<or> v = row" by (auto simp: d')
    then show "category_ref_ok d' (v_categoryId v)"
      using refs_okD[OF assms(1) vs] ok by (auto simp: ref_ok_same_categories[OF c])
  qed
qed

lemma ok_delete_video:
  assumes "refs_ok d" "sql_delete_video vid True d = Inr d'"
  shows "refs_ok d'"
proof -
  from assms(2) obtain vs where vs: "videos d = Some vs"
    and v': "videos d' = Some (filter (\<lambda>v. v_id v \<noteq> vid) vs)"
    and c: "categories d' = categories d"
    by (auto simp: sql_delete_video_def split: option.splits if_splits)
  show ?thesis
  proof (rule refs_okI)
    fix ws v assume "videos d' = Some ws" "v \<in> set ws"
    then have "v \<in> set vs" using v' by auto
    then show "category_ref_ok d' (v_categoryId v)"
      using refs_okD[OF assms(1) vs] by (simp add: ref_ok_same_categories[OF c])
  qed
qed

lemma ok_reassign:
  assumes "refs_ok d" "sql_reassign_videos cid True d = Inr d'"
  shows "refs_ok d'"
proof -
  from assms(2) obtain vs where vs: "videos d = Some vs"
    and chk: "Some cid \<in> set (map v_categoryId vs) \<longrightarrow> category_ref_ok d (Some ''all'')"
    and d': "d' = d\<lparr>videos := Some (map (reassign cid) vs)\<rparr>"
    by (auto simp: sql_reassign_videos_def split: option.splits if_splits)
  have c: "categories d' = categories d" by (simp add: d')
  show ?thesis
  proof (rule refs_okI)
    fix ws v assume "videos d' = Some ws" "v \<in> set ws"
    then obtain v0 where v0: "v0 \<in> set vs" "v = reassign cid v0" by (auto simp: d')
    show "category_ref_ok d' (v_categoryId v)"
    proof (cases "v_categoryId v0 = Some cid")
      case True
      then have "Some cid \<in> set (map v_categoryId vs)" using v0(1) by force
      with chk True v0 show ?thesis
        by (simp add: ref_ok_same_categories[OF c] reassign_def)
    next
      case False
      then show ?thesis
        using refs_okD[OF assms(1) vs v0(1)] v0 by (simp add: ref_ok_same_categories[OF c] reassign_def)
    qed
  qed
qed

lemma ok_delete_category:
  assumes "refs_ok d" "sql_delete_category cid True d = Inr d'"
  shows "refs_ok d'"
proof -
  from assms(2) obtain cs where cs: "categories d = Some cs"
    and c': "categories d' = Some (filter (\<lambda>c. c_id c \<noteq> cid) cs)"
    and v': "videos d' = (if cid \<in> set (map c_id cs) then map_option (map (set_null cid)) (videos d) else videos d)"
    by (auto simp: sql_delete_category_def split: option.splits if_splits)
  show ?thesis
  proof (rule refs_okI)
    fix ws v assume ws: "videos d' = Some ws" "v \<in> set ws"
    show "category_ref_ok d' (v_categoryId v)"
    proof (cases "v_categoryId v")
      case None
      then show ?thesis by (simp add: category_ref_ok_def)
    next
      case (Some r)
      from ws v' obtain vs v0 where vs: "videos d = Some vs" "v0 \<in> set vs"
        and v: "v = (if cid \<in> set (map c_id cs) then set_null cid v0 else v0)"
        by (auto split: if_splits)
      have r0: "v_categoryId v0 = Some r"
        using v Some by (auto simp: set_null_def split: if_splits)
      then have "r \<in> set (map c_id cs)"
        using refs_okD[OF assms(1) vs] cs by (simp add: category_ref_ok_def)
      moreover have "r \<noteq> cid"
        using v Some r0 calculation by (auto simp: set_null_def split: if_splits)
      ultimately show ?thesis
        using Some c' by (auto simp: category_ref_ok_def)
    qed
  qed
qed

lemma ok_more_categories:
  assumes "refs_ok d" "videos d' = videos d" "categories d = Some cs" "categories d' = Some cs'"
    and "set (map c_id cs) \<subseteq> set (map c_id cs')"
  shows "refs_ok d'"
proof (rule refs_okI)
  fix ws v assume ws: "videos d' = Some ws" "v \<in> set ws"
  then have "category_ref_ok d (v_categoryId v)"
    using refs_okD[OF assms(1)] assms(2) by simp
  then show "category_ref_ok d' (v_categoryId v)"
    using assms(3,4,5) by (auto simp: category_ref_ok_def split: option.splits)
qed

lemma ok_insert_category:
  assumes "refs_ok d" "sql_insert_category row True d = Inr d'"
  shows "refs_ok d'"
proof -
  from assms(2) obtain cs where "categories d = Some cs" "categories d' = Some (cs @ [row])"
    "videos d' = videos d"
    by (auto simp: sql_insert_category_def split: option.splits if_splits)
  then show ?thesis
    using ok_more_categories[OF assms(1), of d' cs "cs @ [row]"] by auto
qed

lemma ok_update_video:
  assumes "refs_ok d" "sql_update_video vid u True d = Inr d'"
  shows "refs_ok d'"
proof -
  from assms(2) obtain vs where vs: "videos d = Some vs"
    and chk: "\<not> (vid \<in> set (map v_id vs) \<and>
                (case vu_categoryId u of None \<Rightarrow> False | Some r \<Rightarrow> \<not> category_ref_ok d r))"
    and d': "d' = d\<lparr>videos := Some (map (\<lambda>v. if v_id v = vid then apply_video_updates u v else v) vs)\<rparr>"
    by (auto simp: sql_update_video_def Let_def split: option.splits if_splits)
  have c: "categories d' = categories d" by (simp add: d')
  show ?thesis
  proof (rule refs_okI)
    fix ws v assume "videos d' = Some ws" "v \<in> set ws"
    then obtain v0 where v0: "v0 \<in> set vs" "v = (if v_id v0 = vid then apply_video_updates u v0 else v0)"
      by (auto simp: d')
    have old: "category_ref_ok d (v_categoryId v0)" by (rule refs_okD[OF assms(1) vs v0(1)])
    show "category_ref_ok d' (v_categoryId v)"
    proof (cases "v_id v0 = vid")
      case True
      then have "vid \<in> set (map v_id vs)" using v0(1) by force
      with chk have "case vu_categoryId u of None \<Rightarrow> True | Some r \<Rightarrow> category_ref_ok d r"
        by (auto split: option.splits)
      with old True v0(2) show ?thesis
        by (auto simp: ref_ok_same_categories[OF c] apply_video_updates_def upd_def split: option.splits)
    next
      case False
      with old v0(2) show ?thesis by (simp add: ref_ok_same_categories[OF c])
    qed
  qed
qed

lemma ok_frame:
  "refs_ok d \<Longrightarrow> videos d' = videos d \<Longrightarrow> categories d' = categories d \<Longrightarrow> refs_ok d'"
  by (auto simp: refs_ok_def list_all_iff ref_ok_same_categories[of d' d] split: option.splits)

lemma ok_update_category:
  assumes "refs_ok d" "sql_update_category cid u True d = Inr d'"
  shows "refs_ok d'"
proof -
  from assms(2) obtain cs where cs: "categories d = Some cs"
    and chk: "\<not> (cid \<in> set (map c_id cs) \<and>
                (case cu_id u of None \<Rightarrow> False | Some new \<Rightarrow> new \<noteq> cid) \<and>
                (case videos d of None \<Rightarrow> False | Some vs \<Rightarrow> Some cid \<in> set (map v_categoryId vs)))"
    and d': "d' = d\<lparr>categories := Some (map (\<lambda>c. if c_id c = cid then apply_category_updates u c else c) cs)\<rparr>"
    by (auto simp: sql_update_category_def Let_def split: option.splits if_splits)
  show ?thesis
  proof (rule refs_okI)
    fix ws v assume ws: "videos d' = Some ws" "v \<in> set ws"
    then have vs: "videos d = Some ws" by (simp add: d')
    show "category_ref_ok d' (v_categoryId v)"
    proof (cases "v_categoryId v")
      case None
      then show ?thesis by (simp add: category_ref_ok_def)
    next
      case (Some r)
      then have "r \<in> set (map c_id cs)"
        using refs_okD[OF assms(1) vs ws(2)] cs by (simp add: category_ref_ok_def)
      then obtain c where c: "c \<in> set cs" "c_id c = r" by auto
      have "c_id (if c_id c = cid then apply_category_updates u c else c) = r"
      proof (cases "c_id c = cid")
        case True
        then have "cid \<in> set (map c_id cs)" using c(1) by force
        moreover have "Some cid \<in> set (map v_categoryId ws)"
          using ws(2) Some c(2) True by force
        ultimately have "case cu_id u of None \<Rightarrow> True | Some new \<Rightarrow> new = cid"
          using chk vs by (auto split: option.splits)
        then show ?thesis
          using True c(2) by (auto simp: apply_category_updates_def upd_def split: option.splits)
      next
        case False
        then show ?thesis using c(2) by simp
      qed
      then have "r \<in> set (map c_id (map (\<lambda>c. if c_id c = cid then apply_category_updates u c else c) cs))"
        using c(1) by force
      then show ?thesis using Some by (simp add: category_ref_ok_def d')
    qed
  qed
qed

lemma ok_drop_all: "refs_ok d \<Longrightarrow> sql_drop_all True d = Inr d' \<Longrightarrow> refs_ok d'"
  by (auto simp: sql_drop_all_def refs_ok_def)

lemma ok_create_categories:
  assumes "refs_ok d" "sql_create_categories True d = Inr d'"
  shows "refs_ok d'"
proof (cases "categories d")
  case None
  have d': "d' = d\<lparr>categories := Some []\<rparr>"
    using assms(2) None by (auto simp: sql_create_categories_def create_if_absent_def)
  show ?thesis
  proof (rule refs_okI)
    fix ws v assume ws: "videos d' = Some ws" "v \<in> set ws"
    then have "category_ref_ok d (v_categoryId v)"
      using refs_okD[OF assms(1), of ws v] by (simp add: d')
    with None show "category_ref_ok d' (v_categoryId v)"
      by (auto simp: category_ref_ok_def split: option.splits)
  qed
next
  case (Some cs)
  then have "d' = d"
    using assms(2) by (auto simp: sql_create_categories_def create_if_absent_def)
  with assms(1) show ?thesis by simp
qed

lemma ok_create_videos:
  assumes "refs_ok d" "sql_create_videos True d = Inr d'"
  shows "refs_ok d'"
proof (cases "videos d")
  case None
  then have "videos d' = Some []"
    using assms(2) by (auto simp: sql_create_videos_def create_if_absent_def)
  then show ?thesis by (simp add: refs_ok_def)
next
  case (Some vs)
  then have "d' = d"
    using assms(2) by (auto simp: sql_create_videos_def create_if_absent_def)
  with assms(1) show ?thesis by simp
qed

lemma ids_insert_or_ignore: "set (map c_id cs) \<subseteq> set (map c_id (insert_or_ignore rs cs))"
  by (induction rs arbitrary: cs) (auto, force+)

lemma ok_insert_defaults:
  assumes "refs_ok d" "sql_insert_default_categories True d = Inr d'"
  shows "refs_ok d'"
proof -
  from assms(2) obtain cs where "categories d = Some cs"
    "categories d' = Some (insert_or_ignore defaultCategories cs)" "videos d' = videos d"
    by (auto simp: sql_insert_default_categories_def split: option.splits)
  then show ?thesis
    using ok_more_categories[OF assms(1), of d' cs "insert_or_ignore defaultCategories cs"]
      ids_insert_or_ignore by auto
qed

lemma ok_others:
  "refs_ok d \<Longrightarrow> sql_upsert_core_memory m True d = Inr d' \<Longrightarrow> refs_ok d'"
  "refs_ok d \<Longrightarrow> sql_update_core_memory vid mu True d = Inr d' \<Longrightarrow> refs_ok d'"
  "refs_ok d \<Longrightarrow> sql_delete_core_memory vid True d = Inr d' \<Longrightarrow> refs_ok d'"
  "refs_ok d \<Longrightarrow> sql_insert_custom_type ty True d = Inr d' \<Longrightarrow> refs_ok d'"
  "refs_ok d \<Longrightarrow> sql_update_custom_type tid tu True d = Inr d' \<Longrightarrow> refs_ok d'"
  "refs_ok d \<Longrightarrow> sql_delete_custom_type tid True d = Inr d' \<Longrightarrow> refs_ok d'"
  "refs_ok d \<Longrightarrow> sql_create_db_version True d = Inr d' \<Longrightarrow> refs_ok d'"
  "refs_ok d \<Longrightarrow> sql_replace_version True d = Inr d' \<Longrightarrow> refs_ok d'"
  "refs_ok d \<Longrightarrow> sql_create_core_memories True d = Inr d' \<Longrightarrow> refs_ok d'"
  "refs_ok d \<Longrightarrow> sql_create_custom_types True d = Inr d' \<Longrightarrow> refs_ok d'"
  "refs_ok d \<Longrightarrow> sql_set_version True d = Inr d' \<Longrightarrow> refs_ok d'"
  "refs_ok d \<Longrightarrow> sql_add_key_column True d = Inr d' \<Longrightarrow> refs_ok d'"
  by (auto simp: sql_upsert_core_memory_def sql_update_core_memory_def sql_delete_core_memory_def
      sql_insert_custom_type_def sql_update_custom_type_def sql_delete_custom_type_def
      sql_create_db_version_def sql_replace_version_def sql_create_core_memories_def
      sql_create_custom_types_def sql_set_version_def sql_add_key_column_def Let_def
      split: option.splits if_splits elim!: ok_frame)

lemma enforced_exec:
  assumes "\<And>d d'. refs_ok d \<Longrightarrow> f True d = Inr d' \<Longrightarrow> refs_ok d'"
  shows "keeps enforced (execSql label f)"
  unfolding execSql_def
  by (rule enforced_call) (auto simp: enforced_def split: sum.splits dest: assms)

lemma enforced_query: "keeps enforced (querySql label f)"
  unfolding querySql_def by (rule enforced_call) simp

lemma enforced_txn:
  "keeps enforced beginTransaction" "keeps enforced commit" "keeps enforced rollback"
  "keeps enforced pragmaForeignKeys" "keeps enforced pragmaWAL"
  unfolding beginTransaction_def commit_def rollback_def pragmaForeignKeys_def pragmaWAL_def
  by (rule enforced_call; auto simp: enforced_def split: option.splits)+

lemmas enforced_basic = keeps_return keeps_throw keeps_get enforced_log enforced_wait
  enforced_uuid keeps_bind keeps_then keeps_catch enforced_rethrow keeps_if keeps_list_case
  enforced_flags enforced_query enforced_txn

lemma enforced_retry:
  "keeps enforced operation \<Longrightarrow> keeps enforced (retry_from i operation maxRetries delay)"
  by (rule keeps_retry) (auto intro: keeps_then enforced_log enforced_wait)

lemma enforced_stmts:
  "keeps enforced (execSql l (sql_insert_video row))"
  "keeps enforced (execSql l (sql_delete_video vid))"
  "keeps enforced (execSql l (sql_update_video vid vu))"
  "keeps enforced (execSql l sql_drop_all)"
  "keeps enforced (execSql l (sql_insert_category category))"
  "keeps enforced (execSql l (sql_update_category cid cu))"
  "keeps enforced (execSql l (sql_reassign_videos cid))"
  "keeps enforced (execSql l (sql_delete_category cid))"
  "keeps enforced (execSql l sql_create_categories)"
  "keeps enforced (execSql l sql_create_videos)"
  "keeps enforced (execSql l sql_insert_default_categories)"
  "keeps enforced (execSql l (sql_upsert_core_memory memory))"
  "keeps enforced (execSql l (sql_update_core_memory vid mu))"
  "keeps enforced (execSql l (sql_delete_core_memory vid))"
  "keeps enforced (execSql l (sql_insert_custom_type ty))"
  "keeps enforced (execSql l (sql_update_custom_type tid tu))"
  "keeps enforced (execSql l (sql_delete_custom_type tid))"
  "keeps enforced (execSql l sql_create_db_version)"
  "keeps enforced (execSql l sql_replace_version)"
  "keeps enforced (execSql l sql_create_core_memories)"
  "keeps enforced (execSql l sql_create_custom_types)"
  "keeps enforced (execSql l sql_set_version)"
  "keeps enforced (execSql l sql_add_key_column)"
  by (rule enforced_exec,
      erule (1) ok_insert_video ok_delete_video ok_update_video ok_drop_all ok_insert_category
        ok_update_category ok_reassign ok_delete_category ok_create_categories ok_create_videos
        ok_insert_defaults ok_others)+

lemma enforced_verify: "keeps enforced verifyDatabaseHealth"
  unfolding verifyDatabaseHealth_def by (intro enforced_basic)

lemma enforced_reset: "keeps enforced resetDatabase"
  unfolding resetDatabase_def by (intro enforced_basic enforced_stmts)

lemma enforced_createInitialSchema: "keeps enforced createInitialSchema"
  unfolding createInitialSchema_def by (intro enforced_basic enforced_stmts)

lemma enforced_handleMigration: "keeps enforced (handleMigration v)"
  unfolding handleMigration_def by (intro enforced_basic enforced_stmts)

lemma enforced_initializeSchema: "keeps enforced initializeSchema"
  unfolding initializeSchema_def
  by (intro enforced_basic enforced_createInitialSchema enforced_handleMigration)

lemma enforced_startInitialization: "keeps enforced startInitialization"
  unfolding startInitialization_def retryOperation_def
  by (intro enforced_basic enforced_verify enforced_reset enforced_retry
      enforced_initializeSchema enforced_flags)

lemma enforced_setup: "keeps enforced setupDatabase"
  unfolding setupDatabase_def
  by (intro enforced_basic enforced_verify enforced_startInitialization enforced_flags)

lemma enforced_ensureSetup: "keeps enforced ensureSetup"
  unfolding ensureSetup_def
  by (intro enforced_basic enforced_verify enforced_setup)

lemma enforced_ops:
  "keeps enforced getCategories"
  "keeps enforced (getVideos categoryId)"
  "keeps enforced (DatabaseService_addVideo video)"
  "keeps enforced (DatabaseService_deleteVideo vid)"
  "keeps enforced (DatabaseService_updateVideo vid vu)"
  "keeps enforced clearDatabase"
  "keeps enforced getCoreMemories"
  "keeps enforced (addCoreMemory memory)"
  "keeps enforced (updateCoreMemory vid mu)"
  "keeps enforced (deleteCoreMemory vid)"
  "keeps enforced (addCategory category)"
  "keeps enforced (updateCategory cid cu)"
  "keeps enforced (deleteCategory cid)"
  "keeps enforced getCustomMemoryTypes"
  "keeps enforced (addCustomMemoryType ty)"
  "keeps enforced (updateCustomMemoryType tid tu)"
  "keeps enforced (deleteCustomMemoryType tid)"
  "keeps enforced migrateCategoryKeys"
  unfolding getCategories_def getVideos_def DatabaseService_addVideo_def DatabaseService_deleteVideo_def
    DatabaseService_updateVideo_def clearDatabase_def getCoreMemories_def addCoreMemory_def
    updateCoreMemory_def deleteCoreMemory_def addCategory_def updateCategory_def deleteCategory_def
    getCustomMemoryTypes_def addCustomMemoryType_def updateCustomMemoryType_def
    deleteCustomMemoryType_def migrateCategoryKeys_def
  by (intro enforced_basic enforced_ensureSetup enforced_setup enforced_stmts)+

lemma run_op_enforced: "enforced w \<Longrightarrow> enforced (run_op op w)"
  using enforced_ops enforced_setup by (cases op) (simp_all add: keeps_def)

lemma run_ops_enforced: "enforced w \<Longrightarrow> enforced (run_ops ops w)"
  unfolding run_ops_def by (induction ops arbitrary: w) (simp_all add: run_op_enforced)

subsection \<open>\<^verbatim>\<open>deleteCategory\<close>\<close>

lemma set_null_reassign: "cid \<noteq> ''all'' \<Longrightarrow> set_null cid (reassign cid v) = reassign cid v"
  by (simp add: set_null_def reassign_def)

lemma body_Inl_txn:
  assumes "deleteCategory_body cid w = (Inl e, w')"
  shows "txn w' = txn w"
  using assms unfolding deleteCategory_body_def
  apply (elim then_Inl)
       apply (auto dest!: exec_Inl exec_Inr commit_Inl commit_Inr simp: log_simps)
  done

lemma body_Inr:
  assumes "deleteCategory_body cid w = (Inr x, w')"
  shows "\<exists>d1. sql_reassign_videos cid (foreign_keys w) (db w) = Inr d1 \<and>
              sql_delete_category cid (foreign_keys w) d1 = Inr (db w') \<and>
              txn w' = None \<and>
              trace w' = trace w @
                [Call (Sql ''UPDATE videos SET categoryId = all WHERE categoryId = ?'') True,
                 Call (Sql ''DELETE FROM categories WHERE id = ?'') True,
                 Call (Sql ''COMMIT'') True]"
  using assms unfolding deleteCategory_body_def
  apply (elim then_Inr)
  apply (auto dest!: exec_Inr commit_Inr simp: log_simps)
  done

lemma deleteCategory_Inr:
  assumes "deleteCategory cid w = (Inr x, w')" and "cid \<noteq> ''all''"
  shows "\<exists>vs cs. videos (db w) = Some vs \<and> categories (db w) = Some cs \<and>
           txn w = None \<and> txn w' = None \<and>
           videos (db w') = Some (map (reassign cid) vs) \<and>
           categories (db w') = Some (filter (\<lambda>c. c_id c \<noteq> cid) cs) \<and>
           core_memories (db w') = core_memories (db w) \<and>
           trace w' = trace w @
             [Call (Sql ''BEGIN TRANSACTION'') True,
              Call (Sql ''UPDATE videos SET categoryId = all WHERE categoryId = ?'') True,
              Call (Sql ''DELETE FROM categories WHERE id = ?'') True,
              Call (Sql ''COMMIT'') True]"
proof -
  from assms(1) obtain u w1 where b: "beginTransaction w = (Inr u, w1)"
    and c: "deleteCategory_body cid w1 = (Inr x, w')"
    unfolding deleteCategory_alt
    by (blast dest: rethrow_Inr catch_rollback_Inr elim: then_Inr)
  from begin_Inr[OF b] have w1: "txn w = None" "db w1 = db w" "foreign_keys w1 = foreign_keys w"
    "trace w1 = trace w @ [Call (Sql ''BEGIN TRANSACTION'') True]" by simp_all
  from body_Inr[OF c] obtain d1 where
    r: "sql_reassign_videos cid (foreign_keys w) (db w) = Inr d1"
    and d: "sql_delete_category cid (foreign_keys w) d1 = Inr (db w')"
    and t: "txn w' = None"
      "trace w' = trace w1 @
                [Call (Sql ''UPDATE videos SET categoryId = all WHERE categoryId = ?'') True,
                 Call (Sql ''DELETE FROM categories WHERE id = ?'') True,
                 Call (Sql ''COMMIT'') True]"
    using w1 by auto
  from r obtain vs where vs: "videos (db w) = Some vs"
    and d1: "d1 = (db w)\<lparr>videos := Some (map (reassign cid) vs)\<rparr>"
    by (auto simp: sql_reassign_videos_def split: option.splits if_splits)
  from d d1 obtain cs where cs: "categories (db w) = Some cs"
    and dw': "db w' = d1\<lparr>categories := Some (filter (\<lambda>c. c_id c \<noteq> cid) cs),
                 videos := (if foreign_keys w \<and> cid \<in> set (map c_id cs)
                    then map_option (map (set_null cid)) (videos d1)
                    else videos d1)\<rparr>"
    by (auto simp: sql_delete_category_def split: option.splits)
  have "videos (db w') = Some (map (reassign cid) vs)"
    using dw' d1 assms(2) by (simp add: set_null_reassign comp_def)
  then show ?thesis
    using vs cs w1 t dw' d1 by simp
qed

lemma deleteCategory_Inl:
  assumes "deleteCategory cid w = (Inl e, w')" and "txn w = None"
  shows "committed w' = db w"
proof -
  from assms(1) obtain w2 where m: "io_then beginTransaction
          (io_catch (deleteCategory_body cid) (\<lambda>e. io_then rollback (io_throw e))) w = (Inl e, w2)"
    and w': "w' = w2\<lparr>console := console w2 @ [''Error deleting category'']\<rparr>"
    unfolding deleteCategory_alt by (blast elim: rethrow_Inl)
  have "committed w2 = db w"
    using m
  proof (cases rule: then_Inl)
    case 1
    from begin_Inl[OF 1] assms(2) show ?thesis by (simp add: committed_def)
  next
    case (2 u w1)
    from begin_Inr[OF 2(1)] have w1: "txn w1 = Some (db w)" by simp
    from 2(2) obtain e0 w3 where b: "deleteCategory_body cid w1 = (Inl e0, w3)"
      and w2: "w2 = snd (rollback w3)" by (rule catch_rollback_Inl)
    from body_Inl_txn[OF b] w1 have "committed w3 = db w" by (simp add: committed_def)
    then show ?thesis using w2 by (simp add: rollback_any)
  qed
  then show ?thesis using w' by (simp add: committed_def split: option.splits)
qed

subsection \<open>How often a statement is attempted\<close>

lemma waits_append: "waits (es @ fs) = waits es @ waits fs"
  by (induction es rule: waits.induct) simp_all

lemma attempt_count_append: "attempt_count l (es @ fs) = attempt_count l es + attempt_count l fs"
  by (simp add: attempt_count_def)

lemma hoare_keeps: "keeps P m \<Longrightarrow> hoare P m P"
  by (simp add: hoare_def keeps_def)

lemma hoare_bind:
  "hoare P m Q \<Longrightarrow> (\<And>x. hoare Q (f x) R) \<Longrightarrow> (\<And>w. Q w \<Longrightarrow> R w) \<Longrightarrow> hoare P (io_bind m f) R"
  unfolding hoare_def io_bind_def
  by (auto split: prod.splits sum.splits)

lemma hoare_then:
  "hoare P m Q \<Longrightarrow> hoare Q n R \<Longrightarrow> (\<And>w. Q w \<Longrightarrow> R w) \<Longrightarrow> hoare P (io_then m n) R"
  unfolding io_then_def by (rule hoare_bind)

lemma hoare_catch:
  "hoare P m Q \<Longrightarrow> (\<And>e. hoare Q (h e) R) \<Longrightarrow> (\<And>w. Q w \<Longrightarrow> R w) \<Longrightarrow> hoare P (io_catch m h) R"
  unfolding hoare_def io_catch_def
  by (auto split: prod.splits sum.splits)

lemma since_mono: "since t0 l 0 nw v \<Longrightarrow> since t0 l (Suc 0) nw v"
  by (auto simp: since_def)

lemma since_start: "since (trace w) l 0 nw w"
  by (simp add: since_def attempt_count_def)

lemma since_log: "keeps (since t0 l k nw) (log msg)"
  and since_uuid: "keeps (since t0 l k nw) generateUUID"
  and since_wait: "keeps (since t0 l k False) (wait ms)"
  by (auto simp: keeps_def io_defs wait_def generateUUID_def since_def attempt_count_append attempt_count_def)

lemma since_flags:
  "keeps (since t0 l k nw) (io_modify (\<lambda>w. w\<lparr>isInitialized := a\<rparr>))"
  "keeps (since t0 l k nw) (io_modify (\<lambda>w. w\<lparr>initializationPromise := b\<rparr>))"
  "keeps (since t0 l k nw) (io_modify (\<lambda>w. w\<lparr>isInitialized := a, initializationPromise := b\<rparr>))"
  "keeps (since t0 l k nw) (io_modify (\<lambda>w. w\<lparr>initializationPromise := b, isInitialized := a\<rparr>))"
  by (simp_all add: keeps_def io_defs since_def)

lemma since_call:
  assumes "lab \<noteq> Sql l" and "\<And>v. trace (snd (run v)) = trace v"
  shows "keeps (since t0 l k nw) (io_call lab run)"
proof (rule keeps_call)
  show "since t0 l k nw (snd (run w))" if "since t0 l k nw w" for w
    using that assms(2) by (simp add: since_def)
  show "since t0 l k nw (w\<lparr>trace := trace w @ [Call lab b]\<rparr>)" if "since t0 l k nw w" for w b
    using assms(1) that by (auto simp: since_def attempt_count_append waits_append attempt_count_def)
  show "since t0 l k nw (w\<lparr>faults := fs\<rparr>)" if "since t0 l k nw w" for w fs
    using that by (simp add: since_def)
qed

lemma since_stmt:
  assumes "\<And>v. trace (snd (run v)) = trace v"
  shows "hoare (since t0 l 0 nw) (io_call (Sql l) run) (since t0 l (Suc 0) nw)"
  unfolding hoare_def
proof (intro allI impI)
  fix w assume "since t0 l 0 nw w"
  then obtain es where es: "trace w = t0 @ es" "attempt_count l es = 0" "nw \<longrightarrow> waits es = []"
    by (auto simp: since_def)
  have "\<exists>b. trace (snd (io_call (Sql l) run w)) = trace w @ [Call (Sql l) b]"
    using assms[of "w\<lparr>faults := tl (faults w)\<rparr>"]
    by (auto simp: io_call_def split: list.splits option.splits sum.splits prod.splits)
  then obtain b where "trace (snd (io_call (Sql l) run w)) = t0 @ (es @ [Call (Sql l) b])"
    using es(1) by auto
  moreover have "attempt_count l (es @ [Call (Sql l) b]) \<le> Suc 0"
    using es(2) by (simp add: attempt_count_append) (simp add: attempt_count_def)
  moreover have "nw \<longrightarrow> waits (es @ [Call (Sql l) b]) = []"
    using es(3) by (simp add: waits_append)
  ultimately show "since t0 l (Suc 0) nw (snd (io_call (Sql l) run w))"
    unfolding since_def by blast
qed

lemma since_exec: "l' \<noteq> l \<Longrightarrow> keeps (since t0 l k nw) (execSql l' f)"
  unfolding execSql_def by (rule since_call) (auto split: sum.splits)

lemma since_exec_stmt: "hoare (since t0 l 0 nw) (execSql l f) (since t0 l (Suc 0) nw)"
  unfolding execSql_def by (rule since_stmt) (auto split: sum.splits)

lemma since_query: "l' \<noteq> l \<Longrightarrow> keeps (since t0 l k nw) (querySql l' f)"
  unfolding querySql_def by (rule since_call) auto

lemma since_txn:
  "''BEGIN TRANSACTION'' \<noteq> l \<Longrightarrow> keeps (since t0 l k nw) beginTransaction"
  "''COMMIT'' \<noteq> l \<Longrightarrow> keeps (since t0 l k nw) commit"
  "''ROLLBACK'' \<noteq> l \<Longrightarrow> keeps (since t0 l k nw) rollback"
  "''PRAGMA foreign_keys = ON'' \<noteq> l \<Longrightarrow> keeps (since t0 l k nw) pragmaForeignKeys"
  "''PRAGMA journal_mode = WAL'' \<noteq> l \<Longrightarrow> keeps (since t0 l k nw) pragmaWAL"
  unfolding beginTransaction_def commit_def rollback_def pragmaForeignKeys_def pragmaWAL_def
  by (rule since_call; auto split: option.splits)+

lemma since_rethrow: "keeps (since t0 l k nw) m \<Longrightarrow> keeps (since t0 l k nw) (rethrow msg m)"
  unfolding rethrow_def by (intro keeps_catch keeps_then since_log keeps_throw)

lemma since_undo: "''ROLLBACK'' \<noteq> l \<Longrightarrow> keeps (since t0 l k nw) (io_then rollback (io_throw e))"
  by (intro keeps_then since_txn keeps_throw)

lemmas since_basic = keeps_return keeps_throw keeps_get since_log since_uuid keeps_bind keeps_then
  keeps_catch since_rethrow keeps_if keeps_list_case since_flags since_query since_txn since_exec

lemma hoare_rethrow:
  "hoare (since t0 l 0 nw) m (since t0 l (Suc 0) nw) \<Longrightarrow>
   hoare (since t0 l 0 nw) (rethrow msg m) (since t0 l (Suc 0) nw)"
  unfolding rethrow_def
  by (erule hoare_catch) (intro hoare_keeps keeps_then since_log keeps_throw, assumption)

lemma deleteCategory_update_once:
  "hoare (since t0 ''UPDATE videos SET categoryId = all WHERE categoryId = ?'' 0 nw) (deleteCategory cid)
         (since t0 ''UPDATE videos SET categoryId = all WHERE categoryId = ?'' (Suc 0) nw)"
  unfolding deleteCategory_def
  apply (rule hoare_rethrow)
  apply (rule hoare_then[OF hoare_keeps])
    apply (rule since_txn, simp)
   apply (rule hoare_catch)
     apply (rule hoare_then[OF since_exec_stmt])
      apply (rule hoare_keeps)
      apply (intro since_basic; simp)
     apply assumption
    apply (rule hoare_keeps)
    apply (rule since_undo, simp)
   apply assumption
  apply (erule since_mono)
  done

lemma deleteCategory_delete_once:
  "hoare (since t0 ''DELETE FROM categories WHERE id = ?'' 0 nw) (deleteCategory cid)
         (since t0 ''DELETE FROM categories WHERE id = ?'' (Suc 0) nw)"
  unfolding deleteCategory_def
  apply (rule hoare_rethrow)
  apply (rule hoare_then[OF hoare_keeps])
    apply (rule since_txn, simp)
   apply (rule hoare_catch)
     apply (rule hoare_then[OF hoare_keeps])
       apply (rule since_exec, simp)
      apply (rule hoare_then[OF since_exec_stmt])
       apply (rule hoare_keeps)
       apply (intro since_basic; simp)
      apply assumption
     apply (erule since_mono)
    apply (rule hoare_keeps)
    apply (rule since_undo, simp)
   apply assumption
  apply (erule since_mono)
  done

lemma addVideo_alt:
  "DatabaseService_addVideo video =
     rethrow ''Error adding video'' (io_then ensureSetup (addVideo_txn video))"
  by (simp add: DatabaseService_addVideo_def addVideo_txn_def)

lemma since_retry:
  "keeps (since t0 l k False) operation \<Longrightarrow> keeps (since t0 l k False) (retry_from i operation maxRetries delay)"
  by (rule keeps_retry) (auto intro: keeps_then since_log since_wait)

lemma quiet_verify: "keeps (since t0 ''INSERT INTO videos'' k nw) verifyDatabaseHealth"
  unfolding verifyDatabaseHealth_def by (intro since_basic; simp)

lemma quiet_reset: "keeps (since t0 ''INSERT INTO videos'' k nw) resetDatabase"
  unfolding resetDatabase_def by (intro since_basic; simp)

lemma quiet_createInitialSchema: "keeps (since t0 ''INSERT INTO videos'' k nw) createInitialSchema"
  unfolding createInitialSchema_def by (intro since_basic; simp)

lemma quiet_handleMigration: "keeps (since t0 ''INSERT INTO videos'' k nw) (handleMigration v)"
  unfolding handleMigration_def by (intro since_basic; simp)

lemma quiet_initializeSchema: "keeps (since t0 ''INSERT INTO videos'' k nw) initializeSchema"
  unfolding initializeSchema_def
  by (intro since_basic quiet_createInitialSchema quiet_handleMigration; simp)

lemma quiet_startInitialization: "keeps (since t0 ''INSERT INTO videos'' k False) startInitialization"
  unfolding startInitialization_def retryOperation_def
  by (intro since_basic quiet_verify quiet_reset since_retry quiet_initializeSchema; simp)

lemma quiet_setup: "keeps (since t0 ''INSERT INTO videos'' k False) setupDatabase"
  unfolding setupDatabase_def
  by (intro since_basic quiet_verify quiet_startInitialization; simp)

lemma quiet_ensureSetup: "keeps (since t0 ''INSERT INTO videos'' k False) ensureSetup"
  unfolding ensureSetup_def
  by (intro since_basic quiet_verify quiet_setup; simp)

lemma addVideo_txn_once:
  "hoare (since t0 ''INSERT INTO videos'' 0 nw) (addVideo_txn video)
         (since t0 ''INSERT INTO videos'' (Suc 0) nw)"
  unfolding addVideo_txn_def
  apply (rule hoare_then[OF hoare_keeps])
    apply (rule since_txn, simp)
   apply (rule hoare_catch)
     apply (rule hoare_bind[OF hoare_keeps])
       apply (rule since_query, simp)
      apply (rule hoare_bind[OF hoare_keeps])
        apply (intro since_basic)
       apply (rule hoare_then[OF since_exec_stmt])
        apply (rule hoare_keeps)
        apply (intro since_basic; simp)
       apply assumption
      apply (erule since_mono)
     apply (erule since_mono)
    apply (rule hoare_keeps)
    apply (rule since_undo, simp)
   apply assumption
  apply (erule since_mono)
  done

lemma addVideo_insert_once:
  "hoare (since t0 ''INSERT INTO videos'' 0 False) (DatabaseService_addVideo video)
         (since t0 ''INSERT INTO videos'' (Suc 0) False)"
  unfolding addVideo_alt
  apply (rule hoare_rethrow)
  apply (rule hoare_then[OF hoare_keeps])
    apply (rule quiet_ensureSetup)
   apply (rule addVideo_txn_once)
  apply (erule since_mono)
  done

lemma since_events:
  assumes "since (trace w) l k nw w'"
  shows "attempt_count l (new_events w w') \<le> k \<and> (nw \<longrightarrow> waits (new_events w w') = [])"
  using assms by (auto simp: since_def new_events_def)

lemma hoare_events:
  assumes "hoare (since (trace w) l 0 nw) m (since (trace w) l (Suc 0) nw)"
  shows "attempt_count l (new_events w (snd (m w))) \<le> 1 \<and> (nw \<longrightarrow> waits (new_events w (snd (m w))) = [])"
  using assms since_start[of w l nw] since_events[of w l "Suc 0" nw "snd (m w)"]
  by (simp add: hoare_def)

lemma query_Inr:
  assumes "querySql l f w = (Inr x, w')"
  shows "trace w' = trace w @ [Call (Sql l) True]"
  using assms unfolding querySql_def
  by (elim io_call_Inr) (auto split: sum.splits)

lemma addVideo_txn_Inr:
  assumes "addVideo_txn video w = (Inr x, w')"
  shows "trace w' = trace w @
           [Call (Sql ''BEGIN TRANSACTION'') True,
            Call (Sql ''SELECT id FROM videos WHERE id = ?'') True,
            Call (Sql ''INSERT INTO videos'') True,
            Call (Sql ''COMMIT'') True]"
proof -
  from assms obtain u w1 where b: "beginTransaction w = (Inr u, w1)"
    and c: "io_bind (querySql ''SELECT id FROM videos WHERE id = ?'' (sql_select_video_id (v_id video)))
             (\<lambda>existing.
          io_bind (if length existing > 0 then generateUUID else io_return (v_id video))
             (\<lambda>newId.
          io_then (execSql ''INSERT INTO videos'' (sql_insert_video (videoToInsert video newId)))
         (io_then commit
         (io_then (log ''Video added'')
                  (io_return newId))))) w1 = (Inr x, w')"
    unfolding addVideo_txn_def by (blast dest: catch_rollback_Inr elim: then_Inr)
  from c obtain existing w2 newId w3 where q: "querySql ''SELECT id FROM videos WHERE id = ?'' (sql_select_video_id (v_id video)) w1 = (Inr existing, w2)"
    and g: "(if length existing > 0 then generateUUID else io_return (v_id video)) w2 = (Inr newId, w3)"
    and r: "io_then (execSql ''INSERT INTO videos'' (sql_insert_video (videoToInsert video newId)))
         (io_then commit
         (io_then (log ''Video added'')
                  (io_return newId))) w3 = (Inr x, w')"
    by (blast elim: bind_Inr)
  from g have t3: "trace w3 = trace w2"
    by (auto simp: generateUUID_def io_return_def split: if_splits)
  from r obtain u1 w4 u2 w5 where e: "execSql ''INSERT INTO videos'' (sql_insert_video (videoToInsert video newId)) w3 = (Inr u1, w4)"
    and cm: "commit w4 = (Inr u2, w5)"
    and l: "io_then (log ''Video added'') (io_return newId) w5 = (Inr x, w')"
    by (blast elim: then_Inr)
  from l have t': "trace w' = trace w5" by (auto simp: io_defs)
  show ?thesis
    using begin_Inr[OF b] query_Inr[OF q] t3 exec_Inr[OF e] commit_Inr[OF cm] t' by simp
qed

lemma not_attempted: "attempt_count l es = 0 \<Longrightarrow> Call (Sql l) b \<notin> set es"
  by (cases b) (auto simp: attempt_count_def filter_empty_conv)

lemma addVideo_insert_surfaces:
  assumes "Call (Sql ''INSERT INTO videos'') False \<in> set (new_events w (snd (DatabaseService_addVideo video w)))"
  shows "isl (fst (DatabaseService_addVideo video w))"
proof (rule ccontr)
  assume "\<not> isl (fst (DatabaseService_addVideo video w))"
  then obtain x w' where r: "DatabaseService_addVideo video w = (Inr x, w')"
    by (cases "DatabaseService_addVideo video w"; cases "fst (DatabaseService_addVideo video w)") auto
  then obtain u w1 where s: "ensureSetup w = (Inr u, w1)" and t: "addVideo_txn video w1 = (Inr x, w')"
    unfolding addVideo_alt by (blast dest: rethrow_Inr elim: then_Inr)
  have "since (trace w) ''INSERT INTO videos'' 0 False w1"
    using quiet_ensureSetup[of "trace w" 0] since_start[of w "''INSERT INTO videos''" False] s
    by (auto simp: keeps_def dest!: spec[of _ w])
  then obtain es where es: "trace w1 = trace w @ es" "attempt_count ''INSERT INTO videos'' es = 0"
    by (auto simp: since_def)
  have "new_events w w' = es @
           [Call (Sql ''BEGIN TRANSACTION'') True,
            Call (Sql ''SELECT id FROM videos WHERE id = ?'') True,
            Call (Sql ''INSERT INTO videos'') True,
            Call (Sql ''COMMIT'') True]"
    using addVideo_txn_Inr[OF t] es(1) by (simp add: new_events_def)
  then show False
    using assms r not_attempted[OF es(2), of False] by simp
qed

lemma deleteCategory_Inr_trace:
  assumes "deleteCategory cid w = (Inr x, w')"
  shows "new_events w w' =
             [Call (Sql ''BEGIN TRANSACTION'') True,
              Call (Sql ''UPDATE videos SET categoryId = all WHERE categoryId = ?'') True,
              Call (Sql ''DELETE FROM categories WHERE id = ?'') True,
              Call (Sql ''COMMIT'') True]"
proof -
  from assms obtain u w1 where b: "beginTransaction w = (Inr u, w1)"
    and c: "deleteCategory_body cid w1 = (Inr x, w')"
    unfolding deleteCategory_alt
    by (blast dest: rethrow_Inr catch_rollback_Inr elim: then_Inr)
  show ?thesis
    using begin_Inr[OF b] body_Inr[OF c] by (auto simp: new_events_def)
qed

lemma deleteCategory_surfaces:
  assumes "Call (Sql l) False \<in> set (new_events w (snd (deleteCategory cid w)))"
  shows "isl (fst (deleteCategory cid w))"
proof (rule ccontr)
  assume "\<not> isl (fst (deleteCategory cid w))"
  then obtain x w' where r: "deleteCategory cid w = (Inr x, w')"
    by (cases "deleteCategory cid w"; cases "fst (deleteCategory cid w)") auto
  from deleteCategory_Inr_trace[OF r] assms r show False by simp
qed

lemma deleteCategory_once:
  "attempted_once ''UPDATE videos SET categoryId = all WHERE categoryId = ?'' (deleteCategory cid) w"
  "attempted_once ''DELETE FROM categories WHERE id = ?'' (deleteCategory cid) w"
  using hoare_events[OF deleteCategory_update_once[of "trace w" True cid]]
    hoare_events[OF deleteCategory_delete_once[of "trace w" True cid]]
    deleteCategory_surfaces[of _ w cid]
  by (auto simp: attempted_once_def)

lemma single_statement_once:
  "attempted_once ''DELETE FROM videos WHERE id = ?'' (DatabaseService_deleteVideo vid) w"
  "attempted_once ''UPDATE videos SET ... WHERE id = ?'' (DatabaseService_updateVideo vid vu) w"
  "attempted_once ''INSERT OR REPLACE INTO core_memories'' (addCoreMemory memory) w"
  "attempted_once ''UPDATE core_memories SET ... WHERE videoId = ?'' (updateCoreMemory vid mu) w"
  "attempted_once ''DELETE FROM core_memories WHERE videoId = ?'' (deleteCoreMemory vid) w"
  "attempted_once ''INSERT INTO categories'' (addCategory category) w"
  "attempted_once ''UPDATE categories SET ... WHERE id = ?'' (updateCategory cid cu) w"
  "attempted_once ''INSERT INTO custom_memory_types'' (addCustomMemoryType ty) w"
  "attempted_once ''UPDATE custom_memory_types SET ... WHERE id = ?'' (updateCustomMemoryType tid tu) w"
  "attempted_once ''DELETE FROM custom_memory_types WHERE id = ?'' (deleteCustomMemoryType tid) w"
  by (auto simp: attempted_once_def DatabaseService_deleteVideo_def DatabaseService_updateVideo_def
      addCoreMemory_def updateCoreMemory_def deleteCoreMemory_def addCategory_def updateCategory_def
      addCustomMemoryType_def updateCustomMemoryType_def deleteCustomMemoryType_def
      io_defs new_events_def attempt_count_def
      split: list.splits option.splits sum.splits prod.splits)

lemma addVideo_ready_no_wait:
  assumes "healthy (db w)" "isInitialized w" "faults w = None # None # r"
  shows "waits (new_events w (snd (DatabaseService_addVideo video w))) = []"
proof -
  let ?w1 = "w\<lparr>faults := r, trace := trace w @
        [Call (Sql ''SELECT name FROM sqlite_master (required tables)'') True,
         Call (Sql ''SELECT name FROM sqlite_master (required tables)'') True]\<rparr>"
  have e: "ensureSetup w = (Inr (), ?w1)" by (rule ensureSetup_ready'[OF assms(1) assms(3) assms(2)])
  then have a: "DatabaseService_addVideo video w = rethrow ''Error adding video'' (addVideo_txn video) ?w1"
    unfolding addVideo_alt by (simp add: io_defs)
  have h: "hoare (since (trace ?w1) ''INSERT INTO videos'' 0 True) (rethrow ''Error adding video'' (addVideo_txn video))
         (since (trace ?w1) ''INSERT INTO videos'' (Suc 0) True)"
    by (rule hoare_rethrow) (rule addVideo_txn_once)
  have "since (trace ?w1) ''INSERT INTO videos'' (Suc 0) True (snd (DatabaseService_addVideo video w))"
    using h since_start[of ?w1 "''INSERT INTO videos''" True] a
    by (simp add: hoare_def)
  then obtain es where "trace (snd (DatabaseService_addVideo video w)) = trace ?w1 @ es" "waits es = []"
    by (auto simp: since_def)
  then show ?thesis by (simp add: new_events_def)
qed

subsection \<open>\<^verbatim>\<open>addVideo\<close> in an initialised, healthy database\<close>

lemma addVideo_run:
  assumes ready: "healthy (db w)" "isInitialized w" "txn w = None" "faults w = []"
    and vs: "videos (db w) = Some vs"
  shows "DatabaseService_addVideo video w =
    (let existing = filter (\<lambda>i. i = v_id video) (map v_id vs);
         nid = (if length existing > 0 then uuid_source w (uuid_count w) else v_id video);
         w1 = w\<lparr>uuid_count := (if length existing > 0 then Suc (uuid_count w) else uuid_count w)\<rparr>;
         t0 = trace w @
            [Call (Sql ''SELECT name FROM sqlite_master (required tables)'') True,
             Call (Sql ''SELECT name FROM sqlite_master (required tables)'') True,
             Call (Sql ''BEGIN TRANSACTION'') True,
             Call (Sql ''SELECT id FROM videos WHERE id = ?'') True]
     in case sql_insert_video (videoToInsert video nid) (foreign_keys w) (db w) of
          Inr d \<Rightarrow> (Inr nid, w1\<lparr>db := d, txn := None,
                       trace := t0 @ [Call (Sql ''INSERT INTO videos'') True, Call (Sql ''COMMIT'') True],
                       console := console w @ [''Video added'']\<rparr>)
        | Inl msg \<Rightarrow> (Inl (Error msg), w1\<lparr>txn := None,
                       trace := t0 @ [Call (Sql ''INSERT INTO videos'') False, Call (Sql ''ROLLBACK'') True],
                       console := console w @ [''Error adding video'']\<rparr>))"
  using ready vs
  by (auto simp add: DatabaseService_addVideo_def ensureSetup_ready io_defs beginTransaction_def
        commit_def rollback_def generateUUID_def sql_select_video_id_def Let_def
      split: sum.splits)

subsection \<open>No dangling category reference\<close>

text \<open>
  C5 (as amended). A successful \<^verbatim>\<open>deleteCategory\<close> of a category other than
  \<^verbatim>\<open>all\<close> ran, inside one transaction, first the reassignment and then the deletion
  of the category row: every video that was in the deleted category is in \<^verbatim>\<open>all\<close>
  afterwards, the other videos are as they were, and the category row is gone. A failed
  one leaves the committed tables as they were. While foreign keys are enforced on the
  connection and the references are intact, every sequence of repository operations,
  whatever calls fail on the way, leaves them so: no video names a category that does not
  exist.
\<close>

theorem category_references_intact:
  "(deleteCategory cid w = (Inr x, w') \<and> cid \<noteq> ''all'' \<longrightarrow>
      (\<exists>vs cs. videos (db w) = Some vs \<and> categories (db w) = Some cs \<and>
         txn w = None \<and> txn w' = None \<and>
         videos (db w') =
           Some (map (\<lambda>v. if v_categoryId v = Some cid then v\<lparr>v_categoryId := Some ''all''\<rparr> else v) vs) \<and>
         categories (db w') = Some (filter (\<lambda>c. c_id c \<noteq> cid) cs) \<and>
         core_memories (db w') = core_memories (db w) \<and>
         trace w' = trace w @
           [Call (Sql ''BEGIN TRANSACTION'') True,
            Call (Sql ''UPDATE videos SET categoryId = all WHERE categoryId = ?'') True,
            Call (Sql ''DELETE FROM categories WHERE id = ?'') True,
            Call (Sql ''COMMIT'') True])) \<and>
   (deleteCategory cid w = (Inl e, w') \<and> txn w = None \<longrightarrow> committed w' = db w) \<and>
   (enforced v \<longrightarrow> enforced (run_ops ops v))"
proof -
  have r: "reassign cid = (\<lambda>v. if v_categoryId v = Some cid then v\<lparr>v_categoryId := Some ''all''\<rparr> else v)"
    by (rule ext) (simp add: reassign_def)
  show ?thesis
    using run_ops_enforced[of v ops] deleteCategory_Inr[of cid w x w'] deleteCategory_Inl[of cid w e w']
    unfolding r by blast
qed

theorem category_references_intact_witness:
  "deleteCategory ''travel'' world_ex = (Inr (), snd (deleteCategory ''travel'' world_ex)) \<and>
   videos (db world_ex) = Some [video_ex] \<and>
   v_categoryId video_ex = Some ''travel'' \<and>
   videos (db (snd (deleteCategory ''travel'' world_ex))) = Some [video_ex\<lparr>v_categoryId := Some ''all''\<rparr>] \<and>
   map_option (map c_id) (categories (db (snd (deleteCategory ''travel'' world_ex)))) =
     Some [''all'', ''friends'', ''family'', ''special''] \<and>
   enforced world_ex \<and>
   enforced (run_ops ops_ex world_ex) \<and>
   map_option (map v_categoryId) (videos (db (run_ops ops_ex world_ex))) = Some [None, Some ''friends''] \<and>
   map_option (map c_id) (categories (db (run_ops ops_ex world_ex))) =
     Some [''friends'', ''family'', ''special'']"
proof -
  have "fst (deleteCategory ''travel'' world_ex) = Inr ()" by code_simp
  then have d: "deleteCategory ''travel'' world_ex = (Inr (), snd (deleteCategory ''travel'' world_ex))"
    by (metis prod.collapse)
  have vs: "videos (db world_ex) = Some [video_ex]" by code_simp
  have c: "v_categoryId video_ex = Some ''travel''" by code_simp
  have e: "enforced world_ex" by code_simp
  note intact = category_references_intact[where cid = "''travel''" and w = world_ex and x = "()"
      and w' = "snd (deleteCategory ''travel'' world_ex)" and v = world_ex and ops = ops_ex]
  from intact d vs c
  have v': "videos (db (snd (deleteCategory ''travel'' world_ex))) =
      Some [video_ex\<lparr>v_categoryId := Some ''all''\<rparr>]"
    by auto
  from intact e have e': "enforced (run_ops ops_ex world_ex)" by blast
  have cs: "map_option (map c_id) (categories (db (snd (deleteCategory ''travel'' world_ex)))) =
     Some [''all'', ''friends'', ''family'', ''special'']" by code_simp
  have o1: "map_option (map v_categoryId) (videos (db (run_ops ops_ex world_ex))) =
      Some [None, Some ''friends'']" by code_simp
  have o2: "map_option (map c_id) (categories (db (run_ops ops_ex world_ex))) =
     Some [''friends'', ''family'', ''special'']" by code_simp
  from d vs c v' cs e e' o1 o2 show ?thesis by simp
qed

text \<open>
  The claim as stated fails where foreign keys are not enforced. On a connection that was
  just opened, deleting \<^verbatim>\<open>travel\<close> and then \<^verbatim>\<open>all\<close> leaves the video in the
  deleted category \<^verbatim>\<open>all\<close>; and so it does when \<^verbatim>\<open>setup\<close> ran first and its
  first call, the pragma, threw.
\<close>

theorem category_references_intact_counterexample:
  "refs_ok (db world_cold) \<and>
   map_option (map v_categoryId)
     (videos (db (run_ops [OpDeleteCategory ''travel'', OpDeleteCategory ''all''] world_cold))) =
     Some [Some ''all''] \<and>
   map_option (map c_id)
     (categories (db (run_ops [OpDeleteCategory ''travel'', OpDeleteCategory ''all''] world_cold))) =
     Some [''friends'', ''family'', ''special''] \<and>
   \<not> refs_ok (db (run_ops [OpDeleteCategory ''travel'', OpDeleteCategory ''all''] world_cold)) \<and>
   \<not> refs_ok (db (run_ops [OpSetup, OpDeleteCategory ''travel'', OpDeleteCategory ''all'']
                      (world_cold\<lparr>faults := [Some ''database is locked'']\<rparr>)))"
  by code_simp

subsection \<open>The sentinel category\<close>

text \<open>
  C6 (as amended). Deleting the sentinel category through the settings screen is rejected
  by the handler before the repository is called: it shows the alert and the world is
  left exactly as it was, so no transaction is opened, no video is reassigned and the
  sentinel row stays.
\<close>

theorem sentinel_guard:
  "handleDeleteCategory (category\<lparr>c_id := ''all''\<rparr>) confirmed w =
     (([Alert ''Error'' ''Cannot delete the default All category''], None), w)"
  by (simp add: handleDeleteCategory_def)

theorem sentinel_guard_witness:
  "handleDeleteCategory (hd defaultCategories) True world_ex =
     (([Alert ''Error'' ''Cannot delete the default All category''], None), world_ex)"
  using sentinel_guard[of "hd defaultCategories" True world_ex]
  by (simp add: defaultCategories_def)

text \<open>
  The repository operation itself has no such guard: called with \<^verbatim>\<open>all\<close> it opens
  a transaction, deletes the sentinel row and commits.
\<close>

theorem sentinel_guard_counterexample:
  "fst (deleteCategory ''all'' world_ex) = Inr () \<and>
   map_option (map c_id) (categories (db (snd (deleteCategory ''all'' world_ex)))) =
     Some [''friends'', ''family'', ''travel'', ''special''] \<and>
   trace (snd (deleteCategory ''all'' world_ex)) =
     [Call (Sql ''BEGIN TRANSACTION'') True,
      Call (Sql ''UPDATE videos SET categoryId = all WHERE categoryId = ?'') True,
      Call (Sql ''DELETE FROM categories WHERE id = ?'') True,
      Call (Sql ''COMMIT'') True]"
  by code_simp

subsection \<open>Lock contention\<close>

text \<open>
  C7 (as amended). \<^verbatim>\<open>retryOperation(operation, 3, delay)\<close> runs the operation up to
  three times, waiting \<open>delay\<close> milliseconds before each new attempt; it tries again only
  after an error whose message contains \<^verbatim>\<open>database table is locked\<close>, and the error
  of the last attempt reaches the caller. The repository uses it for the schema
  initialisation only. A mutating operation attempts each of its statements at most once,
  whichever calls fail: it never waits, and when the statement fails the operation fails.
  This holds for the statements that run inside a transaction as well (the reassignment
  and the row delete of \<^verbatim>\<open>deleteCategory\<close>, the insert of \<^verbatim>\<open>addVideo\<close>; the
  only waits \<^verbatim>\<open>addVideo\<close> can make are those of the schema initialisation, and in an
  initialised, healthy database whose health checks go through it makes none). When the
  first call of an operation throws, whatever the message, the operation logs and rethrows
  that error at once.
\<close>

theorem mutations_not_retried:
  assumes "faults w = Some msg # rest"
  shows
   "DatabaseService_deleteVideo vid w =
      (Inl (Error msg), failed_call ''DELETE FROM videos WHERE id = ?'' ''Error deleting video'' rest w) \<and>
    (\<not> video_no_fields vu \<longrightarrow> DatabaseService_updateVideo vid vu w =
      (Inl (Error msg), failed_call ''UPDATE videos SET ... WHERE id = ?'' ''Error updating video'' rest w)) \<and>
    addCoreMemory memory w =
      (Inl (Error msg), failed_call ''INSERT OR REPLACE INTO core_memories'' ''Error adding core memory'' rest w) \<and>
    (\<not> memory_no_fields mu \<longrightarrow> updateCoreMemory vid mu w =
      (Inl (Error msg), failed_call ''UPDATE core_memories SET ... WHERE videoId = ?'' ''Error updating core memory'' rest w)) \<and>
    deleteCoreMemory vid w =
      (Inl (Error msg), failed_call ''DELETE FROM core_memories WHERE videoId = ?'' ''Error deleting core memory'' rest w) \<and>
    addCategory category w =
      (Inl (Error msg), failed_call ''INSERT INTO categories'' ''Error adding category'' rest w) \<and>
    (\<not> category_no_fields cu \<longrightarrow> updateCategory cid cu w =
      (Inl (Error msg), failed_call ''UPDATE categories SET ... WHERE id = ?'' ''Error updating category'' rest w)) \<and>
    deleteCategory cid w =
      (Inl (Error msg), failed_call ''BEGIN TRANSACTION'' ''Error deleting category'' rest w) \<and>
    addCustomMemoryType ty w =
      (Inl (Error msg), failed_call ''INSERT INTO custom_memory_types'' ''Error adding custom memory type'' rest w) \<and>
    (\<not> type_no_fields tu \<longrightarrow> updateCustomMemoryType tid tu w =
      (Inl (Error msg), failed_call ''UPDATE custom_memory_types SET ... WHERE id = ?'' ''Error updating custom memory type'' rest w)) \<and>
    deleteCustomMemoryType tid w =
      (Inl (Error msg), failed_call ''DELETE FROM custom_memory_types WHERE id = ?'' ''Error deleting custom memory type'' rest w) \<and>
    (healthy (db w0) \<and> isInitialized w0 \<and> faults w0 = None # None # Some msg # rest \<longrightarrow>
       DatabaseService_addVideo video w0 =
         (Inl (Error msg),
          w0\<lparr>faults := rest,
             trace := trace w0 @
               [Call (Sql ''SELECT name FROM sqlite_master (required tables)'') True,
                Call (Sql ''SELECT name FROM sqlite_master (required tables)'') True,
                Call (Sql ''BEGIN TRANSACTION'') False],
             console := console w0 @ [''Error adding video'']\<rparr>)) \<and>
    attempted_once ''DELETE FROM videos WHERE id = ?'' (DatabaseService_deleteVideo vid) v \<and>
    attempted_once ''UPDATE videos SET ... WHERE id = ?'' (DatabaseService_updateVideo vid vu) v \<and>
    attempted_once ''INSERT OR REPLACE INTO core_memories'' (addCoreMemory memory) v \<and>
    attempted_once ''UPDATE core_memories SET ... WHERE videoId = ?'' (updateCoreMemory vid mu) v \<and>
    attempted_once ''DELETE FROM core_memories WHERE videoId = ?'' (deleteCoreMemory vid) v \<and>
    attempted_once ''INSERT INTO categories'' (addCategory category) v \<and>
    attempted_once ''UPDATE categories SET ... WHERE id = ?'' (updateCategory cid cu) v \<and>
    attempted_once ''UPDATE videos SET categoryId = all WHERE categoryId = ?'' (deleteCategory cid) v \<and>
    attempted_once ''DELETE FROM categories WHERE id = ?'' (deleteCategory cid) v \<and>
    attempted_once ''INSERT INTO custom_memory_types'' (addCustomMemoryType ty) v \<and>
    attempted_once ''UPDATE custom_memory_types SET ... WHERE id = ?'' (updateCustomMemoryType tid tu) v \<and>
    attempted_once ''DELETE FROM custom_memory_types WHERE id = ?'' (deleteCustomMemoryType tid) v \<and>
    attempt_count ''INSERT INTO videos'' (new_events v (snd (DatabaseService_addVideo video v))) \<le> 1 \<and>
    (Call (Sql ''INSERT INTO videos'') False \<in> set (new_events v (snd (DatabaseService_addVideo video v))) \<longrightarrow>
       isl (fst (DatabaseService_addVideo video v))) \<and>
    (healthy (db v) \<and> isInitialized v \<and> faults v = None # None # r \<longrightarrow>
       waits (new_events v (snd (DatabaseService_addVideo video v))) = []) \<and>
    retryOperation operation 3 delay w =
     (case operation w of
        (Inr x, w1) \<Rightarrow> (Inr x, w1)
      | (Inl e1, w1) \<Rightarrow>
          if \<not> is_locked e1 then (Inl e1, w1)
          else (case operation (waited delay w1) of
                  (Inr x, w2) \<Rightarrow> (Inr x, w2)
                | (Inl e2, w2) \<Rightarrow>
                    if \<not> is_locked e2 then (Inl e2, w2)
                    else operation (waited delay w2)))"
proof -
  have first:
   "DatabaseService_deleteVideo vid w =
      (Inl (Error msg), failed_call ''DELETE FROM videos WHERE id = ?'' ''Error deleting video'' rest w) \<and>
    (\<not> video_no_fields vu \<longrightarrow> DatabaseService_updateVideo vid vu w =
      (Inl (Error msg), failed_call ''UPDATE videos SET ... WHERE id = ?'' ''Error updating video'' rest w)) \<and>
    addCoreMemory memory w =
      (Inl (Error msg), failed_call ''INSERT OR REPLACE INTO core_memories'' ''Error adding core memory'' rest w) \<and>
    (\<not> memory_no_fields mu \<longrightarrow> updateCoreMemory vid mu w =
      (Inl (Error msg), failed_call ''UPDATE core_memories SET ... WHERE videoId = ?'' ''Error updating core memory'' rest w)) \<and>
    deleteCoreMemory vid w =
      (Inl (Error msg), failed_call ''DELETE FROM core_memories WHERE videoId = ?'' ''Error deleting core memory'' rest w) \<and>
    addCategory category w =
      (Inl (Error msg), failed_call ''INSERT INTO categories'' ''Error adding category'' rest w) \<and>
    (\<not> category_no_fields cu \<longrightarrow> updateCategory cid cu w =
      (Inl (Error msg), failed_call ''UPDATE categories SET ... WHERE id = ?'' ''Error updating category'' rest w)) \<and>
    deleteCategory cid w =
      (Inl (Error msg), failed_call ''BEGIN TRANSACTION'' ''Error deleting category'' rest w) \<and>
    addCustomMemoryType ty w =
      (Inl (Error msg), failed_call ''INSERT INTO custom_memory_types'' ''Error adding custom memory type'' rest w) \<and>
    (\<not> type_no_fields tu \<longrightarrow> updateCustomMemoryType tid tu w =
      (Inl (Error msg), failed_call ''UPDATE custom_memory_types SET ... WHERE id = ?'' ''Error updating custom memory type'' rest w)) \<and>
    deleteCustomMemoryType tid w =
      (Inl (Error msg), failed_call ''DELETE FROM custom_memory_types WHERE id = ?'' ''Error deleting custom memory type'' rest w)"
    using assms
    by (simp add: DatabaseService_deleteVideo_def DatabaseService_updateVideo_def
      addCoreMemory_def updateCoreMemory_def deleteCoreMemory_def addCategory_def updateCategory_def
      deleteCategory_def addCustomMemoryType_def updateCustomMemoryType_def deleteCustomMemoryType_def
      beginTransaction_def io_defs failed_call_def)
  have locked: "healthy (db w0) \<and> isInitialized w0 \<and> faults w0 = None # None # Some msg # rest \<longrightarrow>
       DatabaseService_addVideo video w0 =
         (Inl (Error msg),
          w0\<lparr>faults := rest,
             trace := trace w0 @
               [Call (Sql ''SELECT name FROM sqlite_master (required tables)'') True,
                Call (Sql ''SELECT name FROM sqlite_master (required tables)'') True,
                Call (Sql ''BEGIN TRANSACTION'') False],
             console := console w0 @ [''Error adding video'']\<rparr>)"
    using addVideo_locked[of w0 msg rest video] by blast
  have once:
   "attempted_once ''DELETE FROM videos WHERE id = ?'' (DatabaseService_deleteVideo vid) v \<and>
    attempted_once ''UPDATE videos SET ... WHERE id = ?'' (DatabaseService_updateVideo vid vu) v \<and>
    attempted_once ''INSERT OR REPLACE INTO core_memories'' (addCoreMemory memory) v \<and>
    attempted_once ''UPDATE core_memories SET ... WHERE videoId = ?'' (updateCoreMemory vid mu) v \<and>
    attempted_once ''DELETE FROM core_memories WHERE videoId = ?'' (deleteCoreMemory vid) v \<and>
    attempted_once ''INSERT INTO categories'' (addCategory category) v \<and>
    attempted_once ''UPDATE categories SET ... WHERE id = ?'' (updateCategory cid cu) v \<and>
    attempted_once ''UPDATE videos SET categoryId = all WHERE categoryId = ?'' (deleteCategory cid) v \<and>
    attempted_once ''DELETE FROM categories WHERE id = ?'' (deleteCategory cid) v \<and>
    attempted_once ''INSERT INTO custom_memory_types'' (addCustomMemoryType ty) v \<and>
    attempted_once ''UPDATE custom_memory_types SET ... WHERE id = ?'' (updateCustomMemoryType tid tu) v \<and>
    attempted_once ''DELETE FROM custom_memory_types WHERE id = ?'' (deleteCustomMemoryType tid) v"
    by (intro conjI single_statement_once deleteCategory_once)
  have ins:
    "attempt_count ''INSERT INTO videos'' (new_events v (snd (DatabaseService_addVideo video v))) \<le> 1"
    using hoare_events[OF addVideo_insert_once[where ?t0.0 = "trace v" and video = video]] by simp
  have surf: "Call (Sql ''INSERT INTO videos'') False \<in> set (new_events v (snd (DatabaseService_addVideo video v))) \<longrightarrow>
       isl (fst (DatabaseService_addVideo video v))"
    using addVideo_insert_surfaces[where w = v and video = video] by blast
  have calm: "healthy (db v) \<and> isInitialized v \<and> faults v = None # None # r \<longrightarrow>
       waits (new_events v (snd (DatabaseService_addVideo video v))) = []"
    using addVideo_ready_no_wait[where w = v and r = r and video = video] by blast
  note retry = retry_unrolled[of operation delay w]
  show ?thesis
    apply (insert first locked once ins surf calm retry)
    apply (elim conjE)
    apply (intro conjI)
    apply assumption+
    done
qed

theorem mutations_not_retried_witness:
  "faults (world_ex\<lparr>faults := [Some ''database table is locked'']\<rparr>) =
     Some ''database table is locked'' # [] \<and>
   DatabaseService_deleteVideo ''v1'' (world_ex\<lparr>faults := [Some ''database table is locked'']\<rparr>) =
     (Inl (Error ''database table is locked''),
      failed_call ''DELETE FROM videos WHERE id = ?'' ''Error deleting video'' []
        (world_ex\<lparr>faults := [Some ''database table is locked'']\<rparr>)) \<and>
   deleteCategory ''travel'' (world_ex\<lparr>faults := [Some ''database table is locked'']\<rparr>) =
     (Inl (Error ''database table is locked''),
      failed_call ''BEGIN TRANSACTION'' ''Error deleting category'' []
        (world_ex\<lparr>faults := [Some ''database table is locked'']\<rparr>)) \<and>
   new_events (world_ex\<lparr>faults := [None, Some ''database table is locked'']\<rparr>)
     (snd (deleteCategory ''travel'' (world_ex\<lparr>faults := [None, Some ''database table is locked'']\<rparr>))) =
     [Call (Sql ''BEGIN TRANSACTION'') True,
      Call (Sql ''UPDATE videos SET categoryId = all WHERE categoryId = ?'') False,
      Call (Sql ''ROLLBACK'') True] \<and>
   attempted_once ''UPDATE videos SET categoryId = all WHERE categoryId = ?'' (deleteCategory ''travel'')
     (world_ex\<lparr>faults := [None, Some ''database table is locked'']\<rparr>) \<and>
   isl (fst (deleteCategory ''travel'' (world_ex\<lparr>faults := [None, Some ''database table is locked'']\<rparr>))) \<and>
   new_events (world_ex\<lparr>faults := [None, None, None, None, Some ''database table is locked'']\<rparr>)
     (snd (DatabaseService_addVideo (video_ex\<lparr>v_id := ''v2''\<rparr>)
            (world_ex\<lparr>faults := [None, None, None, None, Some ''database table is locked'']\<rparr>))) =
     [Call (Sql ''SELECT name FROM sqlite_master (required tables)'') True,
      Call (Sql ''SELECT name FROM sqlite_master (required tables)'') True,
      Call (Sql ''BEGIN TRANSACTION'') True,
      Call (Sql ''SELECT id FROM videos WHERE id = ?'') True,
      Call (Sql ''INSERT INTO videos'') False,
      Call (Sql ''ROLLBACK'') True] \<and>
   isl (fst (DatabaseService_addVideo (video_ex\<lparr>v_id := ''v2''\<rparr>)
          (world_ex\<lparr>faults := [None, None, None, None, Some ''database table is locked'']\<rparr>)))"
proof -
  have f: "faults (world_ex\<lparr>faults := [Some ''database table is locked'']\<rparr>) =
     Some ''database table is locked'' # []" by simp
  note once = mutations_not_retried[OF f, where vid = "''v1''" and cid = "''travel''"
      and video = "video_ex\<lparr>v_id := ''v2''\<rparr>"]
  have e1: "new_events (world_ex\<lparr>faults := [None, Some ''database table is locked'']\<rparr>)
     (snd (deleteCategory ''travel'' (world_ex\<lparr>faults := [None, Some ''database table is locked'']\<rparr>))) =
     [Call (Sql ''BEGIN TRANSACTION'') True,
      Call (Sql ''UPDATE videos SET categoryId = all WHERE categoryId = ?'') False,
      Call (Sql ''ROLLBACK'') True]" by code_simp
  have e2: "new_events (world_ex\<lparr>faults := [None, None, None, None, Some ''database table is locked'']\<rparr>)
     (snd (DatabaseService_addVideo (video_ex\<lparr>v_id := ''v2''\<rparr>)
            (world_ex\<lparr>faults := [None, None, None, None, Some ''database table is locked'']\<rparr>))) =
     [Call (Sql ''SELECT name FROM sqlite_master (required tables)'') True,
      Call (Sql ''SELECT name FROM sqlite_master (required tables)'') True,
      Call (Sql ''BEGIN TRANSACTION'') True,
      Call (Sql ''SELECT id FROM videos WHERE id = ?'') True,
      Call (Sql ''INSERT INTO videos'') False,
      Call (Sql ''ROLLBACK'') True]" by code_simp
  from once[where v = "world_ex\<lparr>faults := [None, Some ''database table is locked'']\<rparr>"]
  have a1: "attempted_once ''UPDATE videos SET categoryId = all WHERE categoryId = ?'' (deleteCategory ''travel'')
     (world_ex\<lparr>faults := [None, Some ''database table is locked'']\<rparr>)" by blast
  then have i1: "isl (fst (deleteCategory ''travel'' (world_ex\<lparr>faults := [None, Some ''database table is locked'']\<rparr>)))"
    using e1 by (simp add: attempted_once_def)
  from once[where v = "world_ex\<lparr>faults := [None, None, None, None, Some ''database table is locked'']\<rparr>"]
  have "Call (Sql ''INSERT INTO videos'') False \<in>
      set (new_events (world_ex\<lparr>faults := [None, None, None, None, Some ''database table is locked'']\<rparr>)
        (snd (DatabaseService_addVideo (video_ex\<lparr>v_id := ''v2''\<rparr>)
            (world_ex\<lparr>faults := [None, None, None, None, Some ''database table is locked'']\<rparr>)))) \<longrightarrow>
    isl (fst (DatabaseService_addVideo (video_ex\<lparr>v_id := ''v2''\<rparr>)
          (world_ex\<lparr>faults := [None, None, None, None, Some ''database table is locked'']\<rparr>)))"
    by blast
  then have i2: "isl (fst (DatabaseService_addVideo (video_ex\<lparr>v_id := ''v2''\<rparr>)
          (world_ex\<lparr>faults := [None, None, None, None, Some ''database table is locked'']\<rparr>)))"
    using e2 by simp
  from once f have "DatabaseService_deleteVideo ''v1'' (world_ex\<lparr>faults := [Some ''database table is locked'']\<rparr>) =
     (Inl (Error ''database table is locked''),
      failed_call ''DELETE FROM videos WHERE id = ?'' ''Error deleting video'' []
        (world_ex\<lparr>faults := [Some ''database table is locked'']\<rparr>)) \<and>
   deleteCategory ''travel'' (world_ex\<lparr>faults := [Some ''database table is locked'']\<rparr>) =
     (Inl (Error ''database table is locked''),
      failed_call ''BEGIN TRANSACTION'' ''Error deleting category'' []
        (world_ex\<lparr>faults := [Some ''database table is locked'']\<rparr>))"
    by blast
  with f e1 a1 i1 e2 i2 show ?thesis by blast
qed

text \<open>
  The claim as stated fails for every mutating operation. With the store locked for one
  call only, \<^verbatim>\<open>deleteVideo\<close> fails on its single attempt and never waits, although
  the same call under \<^verbatim>\<open>retryOperation\<close> would have gone through on the second
  attempt.
\<close>

theorem mutations_not_retried_counterexample:
  "is_locked (Error ''database table is locked'') \<and>
   fst (DatabaseService_deleteVideo ''v1'' (world_ex\<lparr>faults := [Some ''database table is locked'']\<rparr>)) =
     Inl (Error ''database table is locked'') \<and>
   trace (snd (DatabaseService_deleteVideo ''v1'' (world_ex\<lparr>faults := [Some ''database table is locked'']\<rparr>))) =
     [Call (Sql ''DELETE FROM videos WHERE id = ?'') False] \<and>
   clock (snd (DatabaseService_deleteVideo ''v1'' (world_ex\<lparr>faults := [Some ''database table is locked'']\<rparr>))) =
     clock world_ex \<and>
   fst (retryOperation (DatabaseService_deleteVideo ''v1'') 3 1000
          (world_ex\<lparr>faults := [Some ''database table is locked'']\<rparr>)) = Inr ()"
  by code_simp

subsection \<open>Adding a video whose id is taken\<close>

text \<open>
  C9 (as amended). In an initialised, healthy database, outside a transaction and with no
  call failing for outside reasons, \<^verbatim>\<open>addVideo\<close> takes for the new row the supplied id
  when no row has it, and the next generated id when one has; it does not look the
  generated id up. If the id taken is in no row and, where foreign keys are enforced, the
  category of the row exists, one new row is inserted after the rows that were there,
  which all stay as they were, the id of the new row is returned, and it is the supplied id
  exactly when there was no collision. Otherwise the insert fails (the id is in use, or
  the category does not exist), the transaction is rolled back, the error reaches the
  caller, and the tables are as they were.
\<close>

theorem addVideo_fresh_id:
  assumes ready: "healthy (db w)" "isInitialized w" "txn w = None" "faults w = []"
    and vs: "videos (db w) = Some vs"
  shows
   "((if v_id video \<in> set (map v_id vs) then uuid_source w (uuid_count w) else v_id video)
       \<notin> set (map v_id vs) \<and>
     (foreign_keys w \<longrightarrow>
        category_ref_ok (db w) (Some (case v_categoryId video of None \<Rightarrow> ''all'' | Some c \<Rightarrow> c))) \<longrightarrow>
     (\<exists>w'. DatabaseService_addVideo video w =
           (Inr (if v_id video \<in> set (map v_id vs) then uuid_source w (uuid_count w) else v_id video), w') \<and>
         videos (db w') =
           Some (vs @ [videoToInsert video
              (if v_id video \<in> set (map v_id vs) then uuid_source w (uuid_count w) else v_id video)]) \<and>
         categories (db w') = categories (db w) \<and>
         core_memories (db w') = core_memories (db w) \<and>
         custom_memory_types (db w') = custom_memory_types (db w) \<and>
         txn w' = None \<and>
         ((if v_id video \<in> set (map v_id vs) then uuid_source w (uuid_count w) else v_id video) = v_id video
            \<longleftrightarrow> v_id video \<notin> set (map v_id vs)))) \<and>
    ((if v_id video \<in> set (map v_id vs) then uuid_source w (uuid_count w) else v_id video)
       \<in> set (map v_id vs) \<longrightarrow>
     (\<exists>w'. DatabaseService_addVideo video w = (Inl (Error ''UNIQUE constraint failed: videos.id''), w') \<and>
         db w' = db w \<and> txn w' = None)) \<and>
    ((if v_id video \<in> set (map v_id vs) then uuid_source w (uuid_count w) else v_id video)
       \<notin> set (map v_id vs) \<and>
     foreign_keys w \<and>
     \<not> category_ref_ok (db w) (Some (case v_categoryId video of None \<Rightarrow> ''all'' | Some c \<Rightarrow> c)) \<longrightarrow>
     (\<exists>w'. DatabaseService_addVideo video w = (Inl (Error ''FOREIGN KEY constraint failed''), w') \<and>
         db w' = db w \<and> txn w' = None))"
proof (cases "v_id video \<in> set (map v_id vs)")
  case True
  then have ne: "filter (\<lambda>i. i = v_id video) (map v_id vs) \<noteq> []"
    by (force simp: filter_empty_conv)
  show ?thesis
    using True ne vs
    by (auto simp add: addVideo_run[OF ready vs] Let_def sql_insert_video_def videoToInsert_def
        unique_failed_def fk_failed_def)
next
  case False
  then have e: "filter (\<lambda>i. i = v_id video) (map v_id vs) = []"
    by (intro filter_False) blast
  show ?thesis
    using False e vs
    by (auto simp add: addVideo_run[OF ready vs] Let_def sql_insert_video_def videoToInsert_def
        unique_failed_def fk_failed_def)
qed

theorem addVideo_fresh_id_witness:
  "healthy (db world_ex) \<and> isInitialized world_ex \<and> txn world_ex = None \<and> faults world_ex = [] \<and>
   videos (db world_ex) = Some [video_ex] \<and>
   v_id video_ex \<in> set (map v_id [video_ex]) \<and>
   uuid_source world_ex (uuid_count world_ex) = ''uuid-1'' \<and>
   (\<exists>w'. DatabaseService_addVideo video_ex world_ex = (Inr ''uuid-1'', w') \<and>
         videos (db w') = Some [video_ex, video_ex\<lparr>v_id := ''uuid-1''\<rparr>]) \<and>
   (\<exists>w'. DatabaseService_addVideo (video_ex\<lparr>v_categoryId := Some ''default''\<rparr>) world_ex =
           (Inl (Error ''FOREIGN KEY constraint failed''), w') \<and> db w' = db world_ex)"
proof -
  have r: "healthy (db world_ex)" "isInitialized world_ex" "txn world_ex = None" "faults world_ex = []"
    by code_simp+
  have vs: "videos (db world_ex) = Some [video_ex]" by code_simp
  have u: "uuid_source world_ex (uuid_count world_ex) = ''uuid-1''" by code_simp
  have fresh: "uuid_source world_ex (uuid_count world_ex) \<notin> set (map v_id [video_ex])" by code_simp
  have fk: "foreign_keys world_ex" by code_simp
  have cat: "category_ref_ok (db world_ex) (Some (case v_categoryId video_ex of None \<Rightarrow> ''all'' | Some c \<Rightarrow> c))"
    by code_simp
  have nocat: "\<not> category_ref_ok (db world_ex)
      (Some (case v_categoryId (video_ex\<lparr>v_categoryId := Some ''default''\<rparr>) of None \<Rightarrow> ''all'' | Some c \<Rightarrow> c))"
    by code_simp
  have same: "videoToInsert video_ex ''uuid-1'' = video_ex\<lparr>v_id := ''uuid-1''\<rparr>" by code_simp
  from addVideo_fresh_id[OF r vs, of video_ex] u same fresh cat
  have a: "\<exists>w'. DatabaseService_addVideo video_ex world_ex = (Inr ''uuid-1'', w') \<and>
         videos (db w') = Some [video_ex, video_ex\<lparr>v_id := ''uuid-1''\<rparr>]"
    by auto
  from addVideo_fresh_id[OF r vs, of "video_ex\<lparr>v_categoryId := Some ''default''\<rparr>"] u fresh fk nocat
  have b: "\<exists>w'. DatabaseService_addVideo (video_ex\<lparr>v_categoryId := Some ''default''\<rparr>) world_ex =
           (Inl (Error ''FOREIGN KEY constraint failed''), w') \<and> db w' = db world_ex"
    by auto
  from r vs u a b show ?thesis by simp
qed

text \<open>
  The claim as stated fails where the insert itself fails. With the id \<^verbatim>\<open>v1\<close> taken
  and the category \<^verbatim>\<open>default\<close> (the one the recorder screen passes) not in the table,
  \<^verbatim>\<open>addVideo\<close> generates a new id and then fails on the foreign key; and when the
  generated id is itself in use it fails on the primary key. No row is inserted.
\<close>

theorem addVideo_fresh_id_counterexample:
  "videos (db world_ex) = Some [video_ex] \<and>
   fst (DatabaseService_addVideo (video_ex\<lparr>v_categoryId := Some ''default''\<rparr>) world_ex) =
     Inl (Error ''FOREIGN KEY constraint failed'') \<and>
   videos (db (snd (DatabaseService_addVideo (video_ex\<lparr>v_categoryId := Some ''default''\<rparr>) world_ex))) =
     Some [video_ex] \<and>
   fst (DatabaseService_addVideo video_ex (world_ex\<lparr>uuid_source := (\<lambda>n. ''v1'')\<rparr>)) =
     Inl (Error ''UNIQUE constraint failed: videos.id'') \<and>
   videos (db (snd (DatabaseService_addVideo video_ex (world_ex\<lparr>uuid_source := (\<lambda>n. ''v1'')\<rparr>)))) =
     Some [video_ex]"
  by code_simp

section \<open>Properties of the screens that create and delete a memory\<close>

subsection \<open>What the metadata writes leave alone\<close>

lemma map_of_filter_other:
  "q \<noteq> p \<Longrightarrow> map_of (filter (\<lambda>e. fst e \<noteq> q) xs) p = map_of xs p"
  by (induction xs) auto

lemma put_file_other: "q \<noteq> p \<Longrightarrow> map_of (files (put_file q c w)) p = map_of (files w) p"
  by (simp add: put_file_def map_of_filter_other)

lemma und_call:
  assumes "\<And>v. trace (snd (run v)) = trace v \<and> map_of (files (snd (run v))) p = map_of (files v) p \<and>
             db (snd (run v)) = db v"
  shows "keeps (undisturbed t0 ws p c d) (io_call lab run)"
proof (rule keeps_call)
  show "undisturbed t0 ws p c d (snd (run w))" if "undisturbed t0 ws p c d w" for w
    using that assms[of w] by (simp add: undisturbed_def)
  show "undisturbed t0 ws p c d (w\<lparr>trace := trace w @ [Call lab b]\<rparr>)" if "undisturbed t0 ws p c d w" for w b
    using that by (auto simp: undisturbed_def waits_append)
  show "undisturbed t0 ws p c d (w\<lparr>faults := fs\<rparr>)" if "undisturbed t0 ws p c d w" for w fs
    using that by (simp add: undisturbed_def)
qed

lemma und_log: "keeps (undisturbed t0 ws p c d) (log msg)"
  and und_uuid: "keeps (undisturbed t0 ws p c d) generateUUID"
  and und_cache: "keeps (undisturbed t0 ws p c d) (io_modify (\<lambda>v. v\<lparr>metadataCache := f v\<rparr>))"
  by (auto simp: keeps_def io_defs generateUUID_def undisturbed_def)

lemma und_rethrow: "keeps (undisturbed t0 ws p c d) m \<Longrightarrow> keeps (undisturbed t0 ws p c d) (rethrow msg m)"
  unfolding rethrow_def by (intro keeps_catch keeps_then und_log keeps_throw)

lemma und_files:
  "keeps (undisturbed t0 ws p c d) (getInfoAsync q)"
  "keeps (undisturbed t0 ws p c d) (makeDirectoryAsync q)"
  "keeps (undisturbed t0 ws p c d) (readAsStringAsync q)"
  unfolding getInfoAsync_def makeDirectoryAsync_def readAsStringAsync_def
  by (rule und_call; auto split: option.splits)+

lemma und_write: "q \<noteq> p \<Longrightarrow> keeps (undisturbed t0 ws p c d) (writeAsStringAsync q c')"
  unfolding writeAsStringAsync_def
  by (rule und_call) (auto simp: put_file_def map_of_filter_other)

lemma keeps_promise_all2: "keeps P a \<Longrightarrow> keeps P b \<Longrightarrow> keeps P (promise_all2 a b)"
  unfolding keeps_def promise_all2_def
  by (auto split: prod.splits sum.splits)

lemma keeps_option_case:
  "keeps P a \<Longrightarrow> (\<And>x. keeps P (b x)) \<Longrightarrow> keeps P (case opt of None \<Rightarrow> a | Some x \<Rightarrow> b x)"
  by (cases opt) simp_all

lemma keeps_content_case:
  "(\<And>x. keeps P (a x)) \<Longrightarrow> (\<And>x. keeps P (b x)) \<Longrightarrow> keeps P (case c of Blob x \<Rightarrow> a x | Json x \<Rightarrow> b x)"
  by (cases c) simp_all

lemmas und_basic = keeps_return keeps_throw keeps_get und_log und_uuid und_cache keeps_bind keeps_then
  keeps_catch und_rethrow keeps_if keeps_option_case keeps_content_case und_files keeps_promise_all2

lemma und_ensureMetadataDirectory: "keeps (undisturbed t0 ws p c d) ensureMetadataDirectory"
  unfolding ensureMetadataDirectory_def by (intro und_basic)

lemma und_saveVideoMetadata:
  assumes "\<And>q. q @ ''.json'' \<noteq> p"
  shows "keeps (undisturbed t0 ws p c d) (saveVideoMetadata metadata)"
  unfolding saveVideoMetadata_def
  by (intro und_basic und_ensureMetadataDirectory und_write) (use assms in \<open>simp flip: append_assoc\<close>)

lemma und_getMetadata: "keeps (undisturbed t0 ws p c d) (getMetadata uri)"
  unfolding getMetadata_def json_parse_def by (intro und_basic)

lemma und_attempt:
  assumes "\<And>q. q @ ''.json'' \<noteq> p" "mp \<noteq> p"
  shows "keeps (undisturbed t0 ws p c d) (promise_all2 (writeAsStringAsync mp lm) (saveVideoMetadata sm))"
  by (intro keeps_promise_all2 und_write und_saveVideoMetadata assms)

lemma und_wait:
  "hoare (undisturbed t0 ws p c d) (io_then (log msg) (wait ms)) (undisturbed t0 (ws @ [ms]) p c d)"
  by (auto simp: hoare_def io_defs wait_def undisturbed_def waits_append)

lemma save_attempts_outcome:
  assumes A: "\<And>ws. keeps (undisturbed t0 ws p c d)
                 (promise_all2 (writeAsStringAsync mp lm) (saveVideoMetadata sm))"
  shows "undisturbed t0 ws p c d w \<Longrightarrow> i \<le> 3 \<Longrightarrow>
     (fst (save_attempts i mp sm lm w) = Inr False \<and>
      undisturbed t0 (ws @ replicate (3 - i) 1000) p c d (snd (save_attempts i mp sm lm w))) \<or>
     (fst (save_attempts i mp sm lm w) = Inr True \<and>
      (\<exists>k<3 - i. undisturbed t0 (ws @ replicate k 1000) p c d (snd (save_attempts i mp sm lm w))))"
proof (induction "3 - i" arbitrary: i w ws)
  case 0
  then have "i = 3" by simp
  then have "save_attempts i mp sm lm w = (Inr False, w)"
    by (subst save_attempts.simps) simp
  with 0 show ?case by simp
next
  case (Suc n)
  then have lt: "i < 3" by simp
  let ?A = "promise_all2 (writeAsStringAsync mp lm) (saveVideoMetadata sm)"
  obtain r w' where r: "?A w = (r, w')" by (cases "?A w")
  have w': "undisturbed t0 ws p c d w'"
    using A[of ws] Suc.prems(1) r by (auto simp: keeps_def dest!: spec[of _ w])
  show ?case
  proof (cases r)
    case (Inr x)
    then have "save_attempts i mp sm lm w = (Inr True, snd (log ''Metadata saved successfully'' w'))"
      using lt r by (subst save_attempts.simps) simp
    moreover have "undisturbed t0 (ws @ replicate 0 1000) p c d (snd (log ''Metadata saved successfully'' w'))"
      using w' und_log[of t0 ws p c d] by (simp add: keeps_def)
    moreover have "0 < 3 - i" using lt by simp
    ultimately show ?thesis by (simp only: fst_conv snd_conv) blast
  next
    case (Inl e)
    let ?v = "snd (io_then (log ''Metadata save attempt failed'') (wait 1000) w')"
    have eq: "save_attempts i mp sm lm w = save_attempts (Suc i) mp sm lm ?v"
      using lt r Inl by (subst save_attempts.simps) simp
    have v: "undisturbed t0 (ws @ [1000]) p c d ?v"
      using und_wait[of t0 ws p c d] w' by (simp add: hoare_def)
    have n: "n = 3 - Suc i" using Suc.hyps(2) by simp
    have le: "Suc i \<le> 3" using lt by simp
    from Suc.hyps(1)[OF n v le]
    show ?thesis
    proof
      assume a: "fst (save_attempts (Suc i) mp sm lm ?v) = Inr False \<and>
        undisturbed t0 ((ws @ [1000]) @ replicate (3 - Suc i) 1000) p c d (snd (save_attempts (Suc i) mp sm lm ?v))"
      have "(ws @ [1000]) @ replicate (3 - Suc i) 1000 = ws @ replicate (3 - i) (1000::int)"
        using lt by (simp add: Suc_diff_Suc flip: replicate_Suc)
      with a eq show ?thesis by simp
    next
      assume a: "fst (save_attempts (Suc i) mp sm lm ?v) = Inr True \<and>
        (\<exists>k<3 - Suc i. undisturbed t0 ((ws @ [1000]) @ replicate k 1000) p c d (snd (save_attempts (Suc i) mp sm lm ?v)))"
      then obtain k where k: "k < 3 - Suc i"
        "undisturbed t0 ((ws @ [1000]) @ replicate k 1000) p c d (snd (save_attempts (Suc i) mp sm lm ?v))"
        by blast
      have "(ws @ [1000]) @ replicate k 1000 = ws @ replicate (Suc k) (1000::int)" by simp
      with k have "Suc k < 3 - i \<and>
        undisturbed t0 (ws @ replicate (Suc k) 1000) p c d (snd (save_attempts (Suc i) mp sm lm ?v))"
        by (simp only:) simp
      with a eq show ?thesis by (simp only:) blast
    qed
  qed
qed

lemma rethrow_run:
  "rethrow msg m w =
     (case m w of
        (Inl e, w') \<Rightarrow> (Inl e, w'\<lparr>console := console w' @ [msg]\<rparr>)
      | (Inr x, w') \<Rightarrow> (Inr x, w'))"
  by (simp add: io_defs split: prod.splits sum.splits)

lemma copy_result:
  assumes "copyAsync src dst w = (r, w1)"
  shows "(\<exists>b. trace w1 = trace w @ [Call (Copy src dst) b]) \<and> db w1 = db w \<and>
         (case r of Inl e \<Rightarrow> True
                  | Inr u \<Rightarrow> (\<exists>c. map_of (files w) src = Some c \<and> map_of (files w1) dst = Some c))"
  using assms unfolding copyAsync_def io_call_def
  by (auto simp: put_file_def split: list.splits option.splits sum.splits prod.splits if_splits)

lemma mkdir_result:
  assumes "makeDirectoryAsync q w = (r, w1)"
  shows "(\<exists>b. trace w1 = trace w @ [Call (MakeDirectory q) b]) \<and> db w1 = db w \<and> files w1 = files w"
  using assms unfolding makeDirectoryAsync_def io_call_def
  by (auto split: list.splits option.splits sum.splits prod.splits if_splits)

lemma last_differs: "last (xs @ [a]) \<noteq> last (ys @ [b]) \<Longrightarrow> xs @ [a] \<noteq> ys @ [b]"
  by auto

lemma json_not_mp4: "q @ ''.json'' \<noteq> a @ b @ ''.mp4''"
proof
  assume "q @ ''.json'' = a @ b @ ''.mp4''"
  then have "last (q @ ''.json'') = last (a @ b @ ''.mp4'')" by simp
  then show False by simp
qed

lemma meta_not_mp4: "x @ ''/'' @ y @ ''.meta'' \<noteq> a @ b @ ''.mp4''"
proof
  assume "x @ ''/'' @ y @ ''.meta'' = a @ b @ ''.mp4''"
  then have "last (x @ ''/'' @ y @ ''.meta'') = last (a @ b @ ''.mp4'')" by simp
  then show False by simp
qed

lemma videos_dir_console: "videos_dir (w\<lparr>console := x\<rparr>) = videos_dir w"
  by (simp add: videos_dir_def)

lemma und_waits:
  "undisturbed (trace w) ws p c d v \<Longrightarrow> waits (new_events w v) = ws \<and> map_of (files v) p = Some c \<and> db v = d"
  by (auto simp: undisturbed_def new_events_def)

lemma und_console: "undisturbed t0 ws p c d v \<Longrightarrow> undisturbed t0 ws p c d (v\<lparr>console := x\<rparr>)"
  by (simp add: undisturbed_def)

lemma processVideo_outcome:
  "(fst (processVideo src s e vid w) = Inl (Error ''Failed to save metadata after 3 attempts'') \<and>
    waits (new_events w (snd (processVideo src s e vid w))) = [1000, 1000, 1000] \<and>
    (\<exists>c. map_of (files w) src = Some c \<and>
         map_of (files (snd (processVideo src s e vid w))) (videos_dir w @ string_of_int (clock w) @ ''.mp4'') = Some c) \<and>
    db (snd (processVideo src s e vid w)) = db w) \<or>
   length (waits (new_events w (snd (processVideo src s e vid w)))) < 3"
proof -
  let ?w0 = "w\<lparr>console := console w @ [''Starting video processing'']\<rparr>"
  let ?dst = "videos_dir w @ string_of_int (clock w) @ ''.mp4''"
  let ?mp = "dirname ?dst @ ''/'' @ vid @ ''.meta''"
  let ?sm = "\<lparr> j_id = Some vid, j_uri = Some ?dst, j_startTime = Some s,
                j_endTime = Some e, j_duration = Some (e - s) \<rparr>"
  let ?lm = "sidecar_json s e"
  let ?P = "processVideo src s e vid w"
  obtain rc w1 where c: "copyAsync src ?dst ?w0 = (rc, w1)" by (cases "copyAsync src ?dst ?w0")
  from copy_result[OF c] obtain b1 where t1: "trace w1 = trace w @ [Call (Copy src ?dst) b1]"
    and d1: "db w1 = db w" by auto
  show ?thesis
  proof (cases rc)
    case (Inl err)
    then have "?P = (Inl err, w1\<lparr>console := console w1 @ [''Video processing failed'']\<rparr>)"
      using c by (simp add: processVideo_def rethrow_run io_bind_def io_then_def io_get_def
          io_return_def log_simps FileManager_saveVideo_def videos_dir_console)
    then have "waits (new_events w (snd ?P)) = []"
      using t1 by (simp add: new_events_def)
    then show ?thesis by simp
  next
    case (Inr u)
    with copy_result[OF c] obtain cnt where cnt: "map_of (files w) src = Some cnt"
      "map_of (files w1) ?dst = Some cnt" by auto
    obtain rm w2 where m: "makeDirectoryAsync (dirname ?dst) w1 = (rm, w2)"
      by (cases "makeDirectoryAsync (dirname ?dst) w1")
    from mkdir_result[OF m] obtain b2 where t2: "trace w2 = trace w1 @ [Call (MakeDirectory (dirname ?dst)) b2]"
      and d2: "db w2 = db w1" and f2: "files w2 = files w1" by auto
    show ?thesis
    proof (cases rm)
      case (Inl err)
      then have "?P = (Inl err, w2\<lparr>console := console w2 @ [''Video processing failed'']\<rparr>)"
        using c m Inr by (simp add: processVideo_def rethrow_run io_bind_def io_then_def io_get_def
            io_return_def log_simps FileManager_saveVideo_def videos_dir_console)
      then have "waits (new_events w (snd ?P)) = []"
        using t1 t2 by (simp add: new_events_def)
      then show ?thesis by simp
    next
      case mk: (Inr u2)
      have u2: "undisturbed (trace w) [] ?dst cnt (db w) w2"
        using t1 t2 d1 d2 f2 cnt by (simp add: undisturbed_def)
      have att: "\<And>ws. keeps (undisturbed (trace w) ws ?dst cnt (db w))
                 (promise_all2 (writeAsStringAsync ?mp ?lm) (saveVideoMetadata ?sm))"
        by (rule und_attempt) (simp_all add: json_not_mp4 meta_not_mp4)
      obtain rs w3 where sa: "save_attempts 0 ?mp ?sm ?lm w2 = (rs, w3)"
        by (cases "save_attempts 0 ?mp ?sm ?lm w2")
      from save_attempts_outcome[OF att u2, of 0] sa
      have out: "(rs = Inr False \<and> undisturbed (trace w) [1000, 1000, 1000] ?dst cnt (db w) w3) \<or>
                 (rs = Inr True \<and> (\<exists>k<3. undisturbed (trace w) (replicate k 1000) ?dst cnt (db w) w3))"
        by (simp add: numeral_3_eq_3)
      then show ?thesis
      proof
        assume a: "rs = Inr False \<and> undisturbed (trace w) [1000, 1000, 1000] ?dst cnt (db w) w3"
        then have "?P = (Inl (Error ''Failed to save metadata after 3 attempts''),
                         w3\<lparr>console := console w3 @ [''Video processing failed'']\<rparr>)"
          using c m Inr mk sa by (simp add: processVideo_def rethrow_run io_bind_def io_then_def io_get_def
              io_return_def io_throw_def log_simps FileManager_saveVideo_def videos_dir_console)
        moreover have "undisturbed (trace w) [1000, 1000, 1000] ?dst cnt (db w)
                         (w3\<lparr>console := console w3 @ [''Video processing failed'']\<rparr>)"
          using a by (simp add: und_console)
        ultimately show ?thesis
          using und_waits[of w "[1000, 1000, 1000]" ?dst cnt "db w" "snd ?P"] cnt(1) by simp
      next
        assume "rs = Inr True \<and> (\<exists>k<3. undisturbed (trace w) (replicate k 1000) ?dst cnt (db w) w3)"
        then obtain k where rs: "rs = Inr True" and k: "k < 3"
          "undisturbed (trace w) (replicate k 1000) ?dst cnt (db w) w3" by blast
        obtain rg w4 where g: "getMetadata ?dst w3 = (rg, w4)" by (cases "getMetadata ?dst w3")
        have u4: "undisturbed (trace w) (replicate k 1000) ?dst cnt (db w) w4"
          using und_getMetadata[of "trace w" "replicate k 1000" ?dst cnt "db w" ?dst] k(2) g
          by (auto simp: keeps_def dest!: spec[of _ w3])
        have "snd ?P = w4 \<or> snd ?P = w4\<lparr>console := console w4 @ [''Video processing failed'']\<rparr>"
          using c m Inr mk sa rs g
          by (cases rg) (simp_all add: processVideo_def rethrow_run io_bind_def io_then_def io_get_def
              io_return_def io_throw_def log_simps FileManager_saveVideo_def videos_dir_console)
        then have "undisturbed (trace w) (replicate k 1000) ?dst cnt (db w) (snd ?P)"
          using u4 by (auto simp: und_console)
        from und_waits[OF this] k(1) show ?thesis by simp
      qed
    qed
  qed
qed

subsection \<open>The order of \<^verbatim>\<open>deleteVideo\<close>\<close>







subsection \<open>The trim window of a new memory\<close>

text \<open>
  C1. The window does not come back. Saving a memory with the window \<open>(2, 7)\<close> from the
  trim dialog writes the window to \<^verbatim>\<open>metadata/uuid-1.json\<close>, under an id generated
  for the file alone, and adds the row \<^verbatim>\<open>uuid-3\<close> with \<open>startTime = 2\<close> and
  \<open>endTime = 7\<close>; no sidecar file is written. The player, asked for the video
  \<^verbatim>\<open>uuid-3\<close>, finds neither \<^verbatim>\<open>metadata/uuid-3.json\<close> nor
  \<^verbatim>\<open>/picker/clip.mov.meta\<close> and after three attempts adopts the window
  \<open>(0, MAX_SAFE_INTEGER)\<close>.
\<close>

theorem handleSave_then_readWindow:
  "fst (handleSave True ''/picker/clip.mov'' 2 7 ''Trip '' ''desc'' ''travel'' world_ex) =
     Inr [Alert ''Success'' ''Changes saved''] \<and>
   map_option (map (\<lambda>v. (v_id v, v_startTime v, v_endTime v)))
     (videos (db (snd (handleSave True ''/picker/clip.mov'' 2 7 ''Trip '' ''desc'' ''travel'' world_ex)))) =
     Some [(''v1'', 2, 7), (''uuid-3'', 2, 7)] \<and>
   map_of (files (snd (handleSave True ''/picker/clip.mov'' 2 7 ''Trip '' ''desc'' ''travel'' world_ex)))
     ''/doc/metadata/uuid-1.json'' =
     Some (Json \<lparr> j_id = None, j_uri = Some ''/picker/clip.mov'', j_startTime = Some 2,
                   j_endTime = Some 7, j_duration = Some 5 \<rparr>) \<and>
   map_of (files (snd (handleSave True ''/picker/clip.mov'' 2 7 ''Trip '' ''desc'' ''travel'' world_ex)))
     ''/doc/metadata/uuid-3.json'' = None \<and>
   map_of (files (snd (handleSave True ''/picker/clip.mov'' 2 7 ''Trip '' ''desc'' ''travel'' world_ex)))
     ''/picker/clip.mov.meta'' = None \<and>
   fst (readWindow ''uuid-3'' ''/picker/clip.mov''
          (snd (handleSave True ''/picker/clip.mov'' 2 7 ''Trip '' ''desc'' ''travel'' world_ex))) =
     Inr (Some (Some 0, Some 9007199254740991))"
  by code_simp

subsection \<open>Writing the trim window\<close>

text \<open>
  C2. \<^verbatim>\<open>processVideo\<close> fails although both writes went through. With every call
  succeeding, the window \<open>(2, 7)\<close> of the video \<^verbatim>\<open>vid-1\<close> is written at the first
  attempt to the indexed store (\<^verbatim>\<open>metadata/vid-1.json\<close>) and to the sidecar
  \<^verbatim>\<open>videos/vid-1.meta\<close>; the verification then reads the sidecar of the saved file,
  \<^verbatim>\<open>videos/1700000000000.mp4.meta\<close>, which does not exist, and the operation raises
  \<^verbatim>\<open>Metadata verification failed\<close>.
\<close>

theorem processVideo_verification:
  "fst (processVideo ''/picker/clip.mov'' 2 7 ''vid-1'' world_ex) =
     Inl (Error ''Metadata verification failed'') \<and>
   map_of (files (snd (processVideo ''/picker/clip.mov'' 2 7 ''vid-1'' world_ex))) ''/doc/metadata/vid-1.json'' =
     Some (Json \<lparr> j_id = Some ''vid-1'', j_uri = Some ''/doc/videos/1700000000000.mp4'',
                   j_startTime = Some 2, j_endTime = Some 7, j_duration = Some 5 \<rparr>) \<and>
   map_of (files (snd (processVideo ''/picker/clip.mov'' 2 7 ''vid-1'' world_ex))) ''/doc/videos/vid-1.meta'' =
     Some (sidecar_json 2 7) \<and>
   map_of (files (snd (processVideo ''/picker/clip.mov'' 2 7 ''vid-1'' world_ex)))
     ''/doc/videos/1700000000000.mp4.meta'' = None \<and>
   new_events world_ex (snd (processVideo ''/picker/clip.mov'' 2 7 ''vid-1'' world_ex)) =
     [Call (Copy ''/picker/clip.mov'' ''/doc/videos/1700000000000.mp4'') True,
      Call (MakeDirectory ''/doc/videos'') True,
      Call (WriteString ''/doc/videos/vid-1.meta'') True,
      Call (GetInfo ''/doc/metadata/'') True,
      Call (WriteString ''/doc/metadata/vid-1.json'') True,
      Call (GetInfo ''/doc/videos/1700000000000.mp4.meta'') True]"
  by code_simp

subsection \<open>A metadata write that fails three times\<close>

text \<open>
  C3 (as amended). The only waits of \<^verbatim>\<open>processVideo\<close> are the waits of one second
  after a failed attempt to write the metadata, so three of them say that all three
  attempts failed. Then \<^verbatim>\<open>processVideo\<close> raises
  \<^verbatim>\<open>Failed to save metadata after 3 attempts\<close>; the tables are as they were; and the
  video file it had saved before, a copy of the source, is still in the video directory:
  nothing deletes it. Whenever \<^verbatim>\<open>processVideo\<close> raises, the recorder's handler stops
  there: it logs the failure and returns, so no thumbnail is generated and no row is added.
\<close>

theorem metadata_failure_leaves_video:
  "(waits (new_events w (snd (processVideo src s e vid w))) = [1000, 1000, 1000] \<longrightarrow>
      fst (processVideo src s e vid w) = Inl (Error ''Failed to save metadata after 3 attempts'') \<and>
      (\<exists>c. map_of (files w) src = Some c \<and>
           map_of (files (snd (processVideo src s e vid w)))
             (videos_dir w @ string_of_int (clock w) @ ''.mp4'') = Some c) \<and>
      db (snd (processVideo src s e vid w)) = db w) \<and>
   (fst (processVideo uri 0 60 (uuid_source v (uuid_count v)) (v\<lparr>uuid_count := Suc (uuid_count v)\<rparr>)) = Inl err \<longrightarrow>
      handleRecordingFinished uri v =
        (Inr (),
         (snd (processVideo uri 0 60 (uuid_source v (uuid_count v)) (v\<lparr>uuid_count := Suc (uuid_count v)\<rparr>)))
           \<lparr>console :=
              console (snd (processVideo uri 0 60 (uuid_source v (uuid_count v))
                              (v\<lparr>uuid_count := Suc (uuid_count v)\<rparr>))) @
              [''Failed to save recording'']\<rparr>))"
proof (rule conjI; rule impI)
  assume a: "waits (new_events w (snd (processVideo src s e vid w))) = [1000, 1000, 1000]"
  then have "\<not> length (waits (new_events w (snd (processVideo src s e vid w)))) < 3" by simp
  with processVideo_outcome[of src s e vid w]
  show "fst (processVideo src s e vid w) = Inl (Error ''Failed to save metadata after 3 attempts'') \<and>
      (\<exists>c. map_of (files w) src = Some c \<and>
           map_of (files (snd (processVideo src s e vid w)))
             (videos_dir w @ string_of_int (clock w) @ ''.mp4'') = Some c) \<and>
      db (snd (processVideo src s e vid w)) = db w"
    by blast
next
  let ?p = "processVideo uri 0 60 (uuid_source v (uuid_count v)) (v\<lparr>uuid_count := Suc (uuid_count v)\<rparr>)"
  assume f: "fst ?p = Inl err"
  obtain r W where p: "?p = (r, W)" by (cases ?p)
  with f have r: "r = Inl err" by simp
  have "handleRecordingFinished uri v = (Inr (), W\<lparr>console := console W @ [''Failed to save recording'']\<rparr>)"
    using p r
    by (simp add: handleRecordingFinished_def io_catch_def io_bind_def io_then_def io_return_def
        generateUUID_def log_simps)
  then show "handleRecordingFinished uri v =
        (Inr (), (snd ?p)\<lparr>console := console (snd ?p) @ [''Failed to save recording'']\<rparr>)"
    using p by simp
qed

theorem metadata_failure_leaves_video_witness:
  "waits (new_events (world_disk_full\<lparr>uuid_count := Suc (uuid_count world_disk_full)\<rparr>)
     (snd (processVideo ''/picker/clip.mov'' 0 60 ''uuid-1''
             (world_disk_full\<lparr>uuid_count := Suc (uuid_count world_disk_full)\<rparr>)))) = [1000, 1000, 1000] \<and>
   fst (processVideo ''/picker/clip.mov'' 0 60 ''uuid-1''
          (world_disk_full\<lparr>uuid_count := Suc (uuid_count world_disk_full)\<rparr>)) =
     Inl (Error ''Failed to save metadata after 3 attempts'') \<and>
   map_of (files world_disk_full) ''/picker/clip.mov'' = Some (Blob ''mov'') \<and>
   map_of (files (snd (processVideo ''/picker/clip.mov'' 0 60 ''uuid-1''
                         (world_disk_full\<lparr>uuid_count := Suc (uuid_count world_disk_full)\<rparr>))))
     ''/doc/videos/1700000000000.mp4'' = Some (Blob ''mov'') \<and>
   fst (handleRecordingFinished ''/picker/clip.mov'' world_disk_full) = Inr ()"
proof -
  let ?w = "world_disk_full\<lparr>uuid_count := Suc (uuid_count world_disk_full)\<rparr>"
  let ?p = "processVideo ''/picker/clip.mov'' 0 60 ''uuid-1'' ?w"
  have three: "waits (new_events ?w (snd ?p)) = [1000, 1000, 1000]" by code_simp
  have u: "uuid_source world_disk_full (uuid_count world_disk_full) = ''uuid-1''" by code_simp
  have src: "map_of (files world_disk_full) ''/picker/clip.mov'' = Some (Blob ''mov'')" by code_simp
  have dst: "videos_dir ?w @ string_of_int (clock ?w) @ ''.mp4'' = ''/doc/videos/1700000000000.mp4''"
    by code_simp
  note abort = metadata_failure_leaves_video[where w = ?w and src = "''/picker/clip.mov''" and s = 0
      and e = 60 and vid = "''uuid-1''" and v = world_disk_full and uri = "''/picker/clip.mov''"
      and err = "Error ''Failed to save metadata after 3 attempts''"]
  from abort three have r: "fst ?p = Inl (Error ''Failed to save metadata after 3 attempts'')"
    and f: "\<exists>c. map_of (files ?w) ''/picker/clip.mov'' = Some c \<and>
           map_of (files (snd ?p)) (videos_dir ?w @ string_of_int (clock ?w) @ ''.mp4'') = Some c"
    by blast+
  from f src have kept: "map_of (files (snd ?p)) ''/doc/videos/1700000000000.mp4'' = Some (Blob ''mov'')"
    unfolding dst by simp
  from abort r u have "fst (handleRecordingFinished ''/picker/clip.mov'' world_disk_full) = Inr ()"
    by simp
  with three r src kept show ?thesis by simp
qed

text \<open>
  The claim as stated fails: nothing deletes the saved file. With the file of the indexed
  store unwritable, the recorder's handler gives up after three attempts and returns; the
  copy of the recording it had saved, and the sidecar file written beside it, stay in the
  video directory, and no row refers to them.
\<close>

theorem metadata_failure_leaves_video_counterexample:
  "fst (handleRecordingFinished ''/picker/clip.mov'' world_disk_full) = Inr () \<and>
   waits (new_events world_disk_full (snd (handleRecordingFinished ''/picker/clip.mov'' world_disk_full))) =
     [1000, 1000, 1000] \<and>
   map fst (files world_disk_full) = [''/picker/clip.mov''] \<and>
   map fst (files (snd (handleRecordingFinished ''/picker/clip.mov'' world_disk_full))) =
     [''/doc/videos/uuid-1.meta'', ''/doc/videos/1700000000000.mp4'', ''/picker/clip.mov''] \<and>
   videos (db (snd (handleRecordingFinished ''/picker/clip.mov'' world_disk_full))) = Some [video_ex] \<and>
   console (snd (handleRecordingFinished ''/picker/clip.mov'' world_disk_full)) =
     [''Starting video processing'', ''Failed to save video metadata'',
      ''Metadata save attempt failed'', ''Failed to save video metadata'',
      ''Metadata save attempt failed'', ''Failed to save video metadata'',
      ''Metadata save attempt failed'', ''Video processing failed'',
      ''Failed to save recording'']"
  by code_simp

subsection \<open>Deleting a memory\<close>




end
